(* ===== verification/Go_Prelude.thy ===== *)
theory Go_Prelude
  imports Main "HOL-Library.Word"
begin

text \<open>
  The Go language as far as the program uses it: machine integers, the ways a function
  call can end (it returns, parks on a channel or a socket, panics, or exits the process),
  state passing with early return, and buffered channels. Nothing here is specific to
  iperf-go; every other theory builds on it.

  A Go function with side effects on a state \<open>'s\<close> becomes a value of type
  \<open>('a, 's) go\<close>. Sequencing is \<open>go_bind\<close>; a statement after a call that parked or
  panicked is not executed, and the state reached so far is kept.
\<close>

section \<open>Shared collections\<close>

named_theorems go_simps \<open>equations that run a go computation\<close>
named_theorems keeps_intros \<open>introduction rules for invariants kept by go computations\<close>

section \<open>Machine integers\<close>

text \<open>Go's \<open>uint\<close> and \<open>int\<close> have 64 bits on the 64-bit targets the tool is built for.\<close>

type_synonym u8 = "8 word"
type_synonym u32 = "32 word"
type_synonym u64 = "64 word"
type_synonym uint = "64 word"

definition wrap64 :: "int \<Rightarrow> int" where
  "wrap64 x = sint (word_of_int x :: 64 word)"

lemma wrap64_id: "- (2 ^ 63) \<le> x \<Longrightarrow> x < 2 ^ 63 \<Longrightarrow> wrap64 x = x"
  by (simp add: wrap64_def signed_of_int signed_take_bit_int_eq_self)

lemma wrap64_bounds: "- (2 ^ 63) \<le> wrap64 x \<and> wrap64 x < 2 ^ 63"
  using sint_ge [of "word_of_int x :: 64 word"] sint_lt [of "word_of_int x :: 64 word"]
  by (simp add: wrap64_def)

section \<open>Outcomes of a call\<close>

datatype panic =
  NilDeref
| IndexOutOfRange
| DivideByZero
| NonPositiveTicker
| MakeSliceLen

datatype 'a outcome =
  Ret 'a
| Blocked
| Panicked panic
| Exited int

type_synonym ('a, 's) go = "'s \<Rightarrow> 'a outcome \<times> 's"

definition go_return :: "'a \<Rightarrow> ('a, 's) go" where
  "go_return x s = (Ret x, s)"

definition go_panic :: "panic \<Rightarrow> ('a, 's) go" where
  "go_panic p s = (Panicked p, s)"

definition go_block :: "('a, 's) go" where
  "go_block s = (Blocked, s)"

definition go_exit :: "int \<Rightarrow> ('a, 's) go" where
  "go_exit c s = (Exited c, s)"

definition go_bind :: "('a, 's) go \<Rightarrow> ('a \<Rightarrow> ('b, 's) go) \<Rightarrow> ('b, 's) go" where
  "go_bind m f s =
     (case m s of
        (Ret a, s') \<Rightarrow> f a s'
      | (Blocked, s') \<Rightarrow> (Blocked, s')
      | (Panicked p, s') \<Rightarrow> (Panicked p, s')
      | (Exited c, s') \<Rightarrow> (Exited c, s'))"

definition go_gets :: "('s \<Rightarrow> 'a) \<Rightarrow> ('a, 's) go" where
  "go_gets f s = (Ret (f s), s)"

definition go_modify :: "('s \<Rightarrow> 's) \<Rightarrow> (unit, 's) go" where
  "go_modify f s = (Ret (), f s)"

definition go_then :: "('a, 's) go \<Rightarrow> ('b, 's) go \<Rightarrow> ('b, 's) go" where
  "go_then m n = go_bind m (\<lambda>_. n)"

text \<open>
  A \<open>for ... range\<close> loop whose body may execute \<open>return r\<close>: the body yields
  \<open>Some r\<close> to return and \<open>None\<close> to go on with the next element.
\<close>

fun go_each :: "('a \<Rightarrow> ('r option, 's) go) \<Rightarrow> 'a list \<Rightarrow> ('r option, 's) go" where
  "go_each body [] = go_return None"
| "go_each body (x # xs) =
     go_bind (body x) (\<lambda>r. case r of Some v \<Rightarrow> go_return (Some v) | None \<Rightarrow> go_each body xs)"

lemma go_return_run [go_simps]: "go_return x s = (Ret x, s)"
  by (simp add: go_return_def)

lemma go_panic_run [go_simps]: "go_panic p s = (Panicked p, s)"
  by (simp add: go_panic_def)

lemma go_block_run [go_simps]: "go_block s = (Blocked, s)"
  by (simp add: go_block_def)

lemma go_exit_run [go_simps]: "go_exit c s = (Exited c, s)"
  by (simp add: go_exit_def)

lemma go_gets_run [go_simps]: "go_gets f s = (Ret (f s), s)"
  by (simp add: go_gets_def)

lemma go_modify_run [go_simps]: "go_modify f s = (Ret (), f s)"
  by (simp add: go_modify_def)

lemma go_then_run [go_simps]: "go_then m n s = go_bind m (\<lambda>_. n) s"
  by (simp add: go_then_def)

lemma go_bind_Ret [go_simps]: "m s = (Ret a, s') \<Longrightarrow> go_bind m f s = f a s'"
  by (simp add: go_bind_def)

lemma go_bind_Blocked [go_simps]: "m s = (Blocked, s') \<Longrightarrow> go_bind m f s = (Blocked, s')"
  by (simp add: go_bind_def)

lemma go_bind_Panicked [go_simps]: "m s = (Panicked p, s') \<Longrightarrow> go_bind m f s = (Panicked p, s')"
  by (simp add: go_bind_def)

lemma go_bind_Exited [go_simps]: "m s = (Exited c, s') \<Longrightarrow> go_bind m f s = (Exited c, s')"
  by (simp add: go_bind_def)

text \<open>The same for the first step of a program, without a side condition.\<close>

lemma go_bind_first [go_simps]:
  "go_bind (go_return x) f1 s = f1 x s"
  "go_bind (go_gets g) f2 s = f2 (g s) s"
  "go_bind (go_modify h) f3 s = f3 () (h s)"
  "go_bind (go_panic p) f4 s = (Panicked p, s)"
  "go_bind go_block f5 s = (Blocked, s)"
  "go_bind (go_exit c) f6 s = (Exited c, s)"
  by (simp_all add: go_bind_def go_return_def go_gets_def go_modify_def go_panic_def go_block_def go_exit_def)

lemma go_bind_eq_Ret:
  "go_bind m f s = (Ret b, t) \<longleftrightarrow> (\<exists>a s'. m s = (Ret a, s') \<and> f a s' = (Ret b, t))"
  by (auto simp: go_bind_def split: prod.splits outcome.splits)

lemma go_bind_assoc: "go_bind (go_bind m f) g = go_bind m (\<lambda>a. go_bind (f a) g)"
  by (rule ext) (auto simp: go_bind_def split: prod.splits outcome.splits)

lemma go_bind_return_left: "go_bind (go_return a) f = f a"
  by (rule ext) (simp add: go_simps)

lemma go_bind_return_right: "go_bind m go_return = m"
  by (rule ext) (auto simp: go_bind_def go_return_def split: prod.splits outcome.splits)

section \<open>Invariants of computations\<close>

text \<open>
  \<open>keeps I m\<close>: the computation leads from states with \<open>I\<close> to states with \<open>I\<close>,
  however it ends. The rules of the collection \<open>keeps_intros\<close> take a program apart.
\<close>

definition keeps :: "('s \<Rightarrow> bool) \<Rightarrow> ('a, 's) go \<Rightarrow> bool" where
  "keeps I m \<longleftrightarrow> (\<forall>s. I s \<longrightarrow> I (snd (m s)))"

lemma keepsI: "(\<And>s. I s \<Longrightarrow> I (snd (m s))) \<Longrightarrow> keeps I m"
  by (simp add: keeps_def)

lemma keepsD: "keeps I m \<Longrightarrow> I s \<Longrightarrow> I (snd (m s))"
  by (simp add: keeps_def)

lemma keeps_run: "keeps I m \<Longrightarrow> I s \<Longrightarrow> m s = (r, t) \<Longrightarrow> I t"
  by (auto dest: keepsD)

lemma keeps_return [keeps_intros]: "keeps I (go_return x)"
  by (simp add: keeps_def go_return_def)

lemma keeps_panic [keeps_intros]: "keeps I (go_panic p)"
  by (simp add: keeps_def go_panic_def)

lemma keeps_block [keeps_intros]: "keeps I go_block"
  by (simp add: keeps_def go_block_def)

lemma keeps_exit [keeps_intros]: "keeps I (go_exit c)"
  by (simp add: keeps_def go_exit_def)

lemma keeps_gets [keeps_intros]: "keeps I (go_gets f)"
  by (simp add: keeps_def go_gets_def)

lemma keeps_modify: "(\<And>s. I s \<Longrightarrow> I (f s)) \<Longrightarrow> keeps I (go_modify f)"
  by (simp add: keeps_def go_modify_def)

lemma keeps_bind [keeps_intros]:
  "keeps I m \<Longrightarrow> (\<And>a. keeps I (f a)) \<Longrightarrow> keeps I (go_bind m f)"
  by (fastforce simp: keeps_def go_bind_def split: prod.splits outcome.splits)

lemma keeps_then [keeps_intros]: "keeps I m \<Longrightarrow> keeps I n \<Longrightarrow> keeps I (go_then m n)"
  by (simp add: go_then_def keeps_bind)

lemma keeps_if [keeps_intros]:
  "(b \<Longrightarrow> keeps I m) \<Longrightarrow> (\<not> b \<Longrightarrow> keeps I n) \<Longrightarrow> keeps I (if b then m else n)"
  by simp

lemma keeps_case_option [keeps_intros]:
  "(x = None \<Longrightarrow> keeps I m) \<Longrightarrow> (\<And>v. x = Some v \<Longrightarrow> keeps I (n v)) \<Longrightarrow>
   keeps I (case x of None \<Rightarrow> m | Some v \<Rightarrow> n v)"
  by (cases x) simp_all

lemma keeps_case_sum [keeps_intros]:
  "(\<And>e. x = Inl e \<Longrightarrow> keeps I (m e)) \<Longrightarrow> (\<And>v. x = Inr v \<Longrightarrow> keeps I (n v)) \<Longrightarrow>
   keeps I (case x of Inl e \<Rightarrow> m e | Inr v \<Rightarrow> n v)"
  by (cases x) simp_all

lemma keeps_let [keeps_intros]: "keeps I (f x) \<Longrightarrow> keeps I (let y = x in f y)"
  by simp

lemma keeps_each [keeps_intros]: "(\<And>x. keeps I (body x)) \<Longrightarrow> keeps I (go_each body xs)"
  by (induction xs) (auto intro!: keeps_intros)

section \<open>Buffered channels\<close>

text \<open>
  A channel that is a field of the state, given by its getter and its update function.
  A send on a full channel parks the goroutine; so does a receive on an empty one.
\<close>

definition chan_send ::
  "('s \<Rightarrow> 'a list) \<Rightarrow> (('a list \<Rightarrow> 'a list) \<Rightarrow> 's \<Rightarrow> 's) \<Rightarrow> nat \<Rightarrow> 'a \<Rightarrow> (unit, 's) go" where
  "chan_send rd upd cap v s =
     (if length (rd s) < cap then (Ret (), upd (\<lambda>q. q @ [v]) s) else (Blocked, s))"

definition chan_recv ::
  "('s \<Rightarrow> 'a list) \<Rightarrow> (('a list \<Rightarrow> 'a list) \<Rightarrow> 's \<Rightarrow> 's) \<Rightarrow> ('a, 's) go" where
  "chan_recv rd upd s =
     (case rd s of [] \<Rightarrow> (Blocked, s) | v # _ \<Rightarrow> (Ret v, upd tl s))"

locale channel_field =
  fixes rd :: "'s \<Rightarrow> 'a list"
    and upd :: "('a list \<Rightarrow> 'a list) \<Rightarrow> 's \<Rightarrow> 's"
    and cap :: nat
  assumes rd_upd: "rd (upd f s) = f (rd s)"
    and upd_upd: "upd f (upd g s) = upd (\<lambda>q. f (g q)) s"
begin

lemma send_room: "length (rd s) < cap \<Longrightarrow> chan_send rd upd cap v s = (Ret (), upd (\<lambda>q. q @ [v]) s)"
  by (simp add: chan_send_def)

lemma send_full: "\<not> length (rd s) < cap \<Longrightarrow> chan_send rd upd cap v s = (Blocked, s)"
  by (simp add: chan_send_def)

lemma send_keeps_bound: "keeps (\<lambda>s. length (rd s) \<le> cap) (chan_send rd upd cap v)"
  by (auto simp: keeps_def chan_send_def rd_upd)

lemma recv_keeps_bound: "keeps (\<lambda>s. length (rd s) \<le> cap) (chan_recv rd upd)"
  by (auto simp: keeps_def chan_recv_def rd_upd split: list.splits)

lemma fifo: "rd s = v # vs \<Longrightarrow> \<exists>t. chan_recv rd upd s = (Ret v, t) \<and> rd t = vs"
  by (simp add: chan_recv_def rd_upd)

end

end
