(* ===== verification/Go_Json.thy ===== *)
theory Go_Json
  imports Go_Encoding
begin

text \<open>
  \<open>encoding/json\<close> as far as the program uses it: the text that \<open>json.Marshal\<close> writes for
  structs and slices of booleans, unsigned integers and strings, and the scanner and decoder
  behind \<open>json.Unmarshal\<close>. A document is a value of type \<open>json\<close>; string values and object
  keys are kept as the raw text between the quotes, as the scanner delivers them, and are
  unquoted where the decoder reads them. The bytes are taken to be ASCII or valid UTF-8, so
  the replacement of invalid UTF-8 is not modelled, nor is the limit on the nesting depth.
\<close>

section \<open>Documents and their text\<close>

datatype json =
  JNull
| JBool bool
| JNum string
| JStr string
| JArr "json list"
| JObj "(string \<times> json) list"

fun comma_sep :: "string list \<Rightarrow> string" where
  "comma_sep [] = []"
| "comma_sep [x] = x"
| "comma_sep (x # y # xs) = x @ '','' @ comma_sep (y # xs)"

definition json_quote :: "string \<Rightarrow> string" where
  "json_quote raw = CHR 0x22 # raw @ [CHR 0x22]"

fun json_print :: "json \<Rightarrow> string" where
  "json_print JNull = ''null''"
| "json_print (JBool b) = (if b then ''true'' else ''false'')"
| "json_print (JNum n) = n"
| "json_print (JStr raw) = json_quote raw"
| "json_print (JArr vs) = ''['' @ comma_sep (map json_print vs) @ '']''"
| "json_print (JObj ms) =
     ''{'' @ comma_sep (map (\<lambda>(k, v). json_quote k @ '':'' @ json_print v) ms) @ ''}''"

section \<open>The scanner\<close>

definition is_ws :: "char \<Rightarrow> bool" where
  "is_ws c = (c = CHR '' '' \<or> c = CHR 0x09 \<or> c = CHR 0x0A \<or> c = CHR 0x0D)"

fun skip_ws :: "string \<Rightarrow> string" where
  "skip_ws [] = []"
| "skip_ws (c # s) = (if is_ws c then skip_ws s else c # s)"

definition is_hex :: "char \<Rightarrow> bool" where
  "is_hex c = (is_digit c \<or> (97 \<le> (of_char c :: nat) \<and> (of_char c :: nat) \<le> 102) \<or>
     (65 \<le> (of_char c :: nat) \<and> (of_char c :: nat) \<le> 70))"

definition is_escape :: "char \<Rightarrow> bool" where
  "is_escape c = (c \<in> set [CHR 0x22, CHR 0x5C, CHR ''/'', CHR ''b'', CHR ''f'', CHR ''n'', CHR ''r'', CHR ''t''])"

definition cons_fst :: "'a list \<Rightarrow> ('a list \<times> 'b) option \<Rightarrow> ('a list \<times> 'b) option" where
  "cons_fst cs = map_option (\<lambda>(s, r). (cs @ s, r))"

text \<open>
  The raw text up to the closing quote, and the rest after it. The states are those of the
  library's scanner: inside the string, after a backslash, inside the digits of \<open>\u\<close>.
\<close>

datatype str_state = InString | InStringEsc | InStringEscU nat

fun scan_str_from :: "str_state \<Rightarrow> string \<Rightarrow> (string \<times> string) option" where
  "scan_str_from st [] = None"
| "scan_str_from InString (c # s) =
     (if c = CHR 0x22 then Some ([], s)
      else if c = CHR 0x5C then cons_fst [c] (scan_str_from InStringEsc s)
      else if (of_char c :: nat) < 32 then None
      else cons_fst [c] (scan_str_from InString s))"
| "scan_str_from InStringEsc (c # s) =
     (if is_escape c then cons_fst [c] (scan_str_from InString s)
      else if c = CHR ''u'' then cons_fst [c] (scan_str_from (InStringEscU 3) s)
      else None)"
| "scan_str_from (InStringEscU n) (c # s) =
     (if is_hex c
      then cons_fst [c] (scan_str_from (if n = 0 then InString else InStringEscU (n - 1)) s)
      else None)"

definition scan_str :: "string \<Rightarrow> (string \<times> string) option" where
  "scan_str = scan_str_from InString"

definition span_digits :: "string \<Rightarrow> string \<times> string" where
  "span_digits s = (takeWhile is_digit s, dropWhile is_digit s)"

text \<open>The three parts of a number literal: integer part, fraction, exponent.\<close>

definition scan_int :: "string \<Rightarrow> (string \<times> string) option" where
  "scan_int s =
     (case s of
        [] \<Rightarrow> None
      | c # r \<Rightarrow> if c = CHR ''0'' then Some ([c], r)
                 else if is_digit c then Some (span_digits s) else None)"

definition scan_digits1 :: "string \<Rightarrow> (string \<times> string) option" where
  "scan_digits1 s = (case span_digits s of (d, r) \<Rightarrow> if d = [] then None else Some (d, r))"

definition scan_frac :: "string \<Rightarrow> (string \<times> string) option" where
  "scan_frac s =
     (case s of
        [] \<Rightarrow> Some ([], [])
      | c # r \<Rightarrow> if c = CHR ''.'' then cons_fst [c] (scan_digits1 r) else Some ([], s))"

definition scan_exp :: "string \<Rightarrow> (string \<times> string) option" where
  "scan_exp s =
     (case s of
        [] \<Rightarrow> Some ([], [])
      | c # r \<Rightarrow>
          if c = CHR ''e'' \<or> c = CHR ''E'' then
            (case r of
               [] \<Rightarrow> None
             | d # r1 \<Rightarrow> if d = CHR ''+'' \<or> d = CHR ''-'' then cons_fst [c, d] (scan_digits1 r1)
                         else cons_fst [c] (scan_digits1 r))
          else Some ([], s))"

definition scan_unsigned :: "string \<Rightarrow> (string \<times> string) option" where
  "scan_unsigned s =
     (case scan_int s of None \<Rightarrow> None
      | Some (i, r) \<Rightarrow>
        (case scan_frac r of None \<Rightarrow> None
         | Some (f, r1) \<Rightarrow> cons_fst (i @ f) (scan_exp r1)))"

definition scan_num :: "string \<Rightarrow> (string \<times> string) option" where
  "scan_num s =
     (case s of
        [] \<Rightarrow> None
      | c # r \<Rightarrow> if c = CHR ''-'' then cons_fst [c] (scan_unsigned r) else scan_unsigned s)"

fun scan_lit :: "string \<Rightarrow> json \<Rightarrow> string \<Rightarrow> (json \<times> string) option" where
  "scan_lit [] v s = Some (v, s)"
| "scan_lit (c # cs) v [] = None"
| "scan_lit (c # cs) v (d # s) = (if c = d then scan_lit cs v s else None)"

text \<open>
  Values, the elements of a non-empty array, and the members of a non-empty object. The
  fuel bounds the nesting of the calls; \<open>json_parse\<close> gives enough (lemma
  \<open>json_parse_iff\<close>).
\<close>

fun scan_value :: "nat \<Rightarrow> string \<Rightarrow> (json \<times> string) option"
  and scan_elems :: "nat \<Rightarrow> string \<Rightarrow> (json list \<times> string) option"
  and scan_members :: "nat \<Rightarrow> string \<Rightarrow> ((string \<times> json) list \<times> string) option" where
  "scan_value 0 s = None"
| "scan_value (Suc n) s =
     (case skip_ws s of
        [] \<Rightarrow> None
      | c # r \<Rightarrow>
          if c = CHR ''{'' then
            (case skip_ws r of
               [] \<Rightarrow> None
             | d # r1 \<Rightarrow> if d = CHR ''}'' then Some (JObj [], r1)
                         else map_option (\<lambda>(ms, t). (JObj ms, t)) (scan_members n r))
          else if c = CHR ''['' then
            (case skip_ws r of
               [] \<Rightarrow> None
             | d # r1 \<Rightarrow> if d = CHR '']'' then Some (JArr [], r1)
                         else map_option (\<lambda>(vs, t). (JArr vs, t)) (scan_elems n r))
          else if c = CHR 0x22 then map_option (\<lambda>(raw, t). (JStr raw, t)) (scan_str r)
          else if c = CHR ''t'' then scan_lit ''rue'' (JBool True) r
          else if c = CHR ''f'' then scan_lit ''alse'' (JBool False) r
          else if c = CHR ''n'' then scan_lit ''ull'' JNull r
          else map_option (\<lambda>(num, t). (JNum num, t)) (scan_num (c # r)))"
| "scan_elems 0 s = None"
| "scan_elems (Suc n) s =
     (case scan_value n s of
        None \<Rightarrow> None
      | Some (v, r) \<Rightarrow>
          (case skip_ws r of
             [] \<Rightarrow> None
           | c # r1 \<Rightarrow>
               if c = CHR '','' then cons_fst [v] (scan_elems n r1)
               else if c = CHR '']'' then Some ([v], r1)
               else None))"
| "scan_members 0 s = None"
| "scan_members (Suc n) s =
     (case skip_ws s of
        [] \<Rightarrow> None
      | q # s1 \<Rightarrow>
          if q \<noteq> CHR 0x22 then None else
          (case scan_str s1 of
             None \<Rightarrow> None
           | Some (k, s2) \<Rightarrow>
               (case skip_ws s2 of
                  [] \<Rightarrow> None
                | co # s3 \<Rightarrow>
                    if co \<noteq> CHR '':'' then None else
                    (case scan_value n s3 of
                       None \<Rightarrow> None
                     | Some (v, r) \<Rightarrow>
                         (case skip_ws r of
                            [] \<Rightarrow> None
                          | c # r1 \<Rightarrow>
                              if c = CHR '','' then cons_fst [(k, v)] (scan_members n r1)
                              else if c = CHR ''}'' then Some ([(k, v)], r1)
                              else None)))))"

definition json_parse :: "string \<Rightarrow> json option" where
  "json_parse s =
     (case scan_value (2 * length s) s of
        None \<Rightarrow> None
      | Some (v, r) \<Rightarrow> if skip_ws r = [] then Some v else None)"

section \<open>Scanners consume input and look no further than they consume\<close>

text \<open>
  A self-delimiting scanner knows its end without looking at what follows: text appended to
  the input comes back unread. So no proper prefix of a text it consumes whole is consumed
  whole as well.
\<close>

locale self_delimiting =
  fixes scan :: "string \<Rightarrow> ('a \<times> string) option"
  assumes shrink: "scan s = Some (x, r) \<Longrightarrow> length r < length s"
    and extend: "scan s = Some (x, r) \<Longrightarrow> scan (s @ t) = Some (x, r @ t)"
begin

lemma no_proper_prefix: "scan (p @ q) = Some (x, []) \<Longrightarrow> q \<noteq> [] \<Longrightarrow> scan p \<noteq> Some (y, r)"
  using extend by fastforce

lemma append_unique: "scan p = Some (x, r) \<Longrightarrow> scan (p @ q) = Some (y, r') \<Longrightarrow> x = y \<and> r' = r @ q"
  using extend [of p x r q] by simp

end

lemma cons_fst_eq_Some: "cons_fst cs p = Some (s, r) \<longleftrightarrow> (\<exists>s'. p = Some (s', r) \<and> s = cs @ s')"
  by (auto simp: cons_fst_def)

lemma length_skip_ws: "length (skip_ws s) \<le> length s"
  by (induction s) auto

lemma skip_ws_nonempty_append: "skip_ws s \<noteq> [] \<Longrightarrow> skip_ws (s @ t) = skip_ws s @ t"
  by (induction s) auto

lemma skip_ws_Cons_append: "skip_ws s = c # r \<Longrightarrow> skip_ws (s @ t) = c # (r @ t)"
  by (simp add: skip_ws_nonempty_append)

lemma skip_ws_Cons_length: "skip_ws s = c # r \<Longrightarrow> length r < length s"
  using length_skip_ws [of s] by simp

lemma scan_str_from_shrink: "scan_str_from st s = Some (x, r) \<Longrightarrow> length r < length s"
  by (induction st s arbitrary: x r rule: scan_str_from.induct)
    (force simp: cons_fst_eq_Some split: if_splits)+

lemma scan_str_from_extend:
  "scan_str_from st s = Some (x, r) \<Longrightarrow> scan_str_from st (s @ t) = Some (x, r @ t)"
  by (induction st s arbitrary: x r rule: scan_str_from.induct)
    (force simp: cons_fst_eq_Some split: if_splits)+

interpretation str: self_delimiting scan_str
  by unfold_locales (auto simp: scan_str_def intro: scan_str_from_shrink scan_str_from_extend)

lemma span_digits_extend:
  "span_digits s = (d, r) \<Longrightarrow> r \<noteq> [] \<Longrightarrow> span_digits (s @ t) = (d, r @ t)"
proof (induction s arbitrary: d)
  case (Cons c s)
  then show ?case
    by (cases "is_digit c") (auto simp: span_digits_def takeWhile_append dropWhile_append)
qed (simp add: span_digits_def)

lemma span_digits_length: "span_digits s = (d, r) \<Longrightarrow> length d + length r = length s"
  by (auto simp: span_digits_def) (metis length_append takeWhile_dropWhile_id)

text \<open>
  A number has no closing mark: its scanner stops at the first character that cannot
  continue it, so it is stable under appending only when such a character is there.
\<close>

definition stable :: "(string \<Rightarrow> ('a \<times> string) option) \<Rightarrow> bool" where
  "stable scan \<longleftrightarrow>
     (\<forall>s x r t. scan s = Some (x, r) \<longrightarrow> r \<noteq> [] \<longrightarrow> scan (s @ t) = Some (x, r @ t))"

lemma stableD: "stable scan \<Longrightarrow> scan s = Some (x, r) \<Longrightarrow> r \<noteq> [] \<Longrightarrow> scan (s @ t) = Some (x, r @ t)"
  by (auto simp: stable_def)

lemma stable_Cons:
  "stable scan \<Longrightarrow> scan (c # s) = Some (x, r) \<Longrightarrow> r \<noteq> [] \<Longrightarrow> scan (c # s @ t) = Some (x, r @ t)"
  by (metis append_Cons stableD)

lemma stable_int: "stable scan_int"
  unfolding stable_def
proof (intro allI impI)
  fix s x r t
  assume eq: "scan_int s = Some (x, r)" and r: "r \<noteq> []"
  then obtain c q where s: "s = c # q" by (cases s) (auto simp: scan_int_def)
  show "scan_int (s @ t) = Some (x, r @ t)"
  proof (cases "c = CHR ''0''")
    case True
    with eq s show ?thesis by (simp add: scan_int_def)
  next
    case False
    with eq s have "is_digit c" "span_digits s = (x, r)" by (auto simp: scan_int_def split: if_splits)
    with False s span_digits_extend [OF _ r, of s x t] show ?thesis by (simp add: scan_int_def)
  qed
qed

lemma stable_digits1: "stable scan_digits1"
  by (auto simp: stable_def scan_digits1_def span_digits_extend split: prod.splits if_splits)

lemma stable_frac: "stable scan_frac"
  using stable_digits1
  by (auto simp: stable_def scan_frac_def cons_fst_eq_Some split: list.splits if_splits)

lemma stable_exp: "stable scan_exp"
  by (auto simp: stable_def scan_exp_def cons_fst_eq_Some stableD [OF stable_digits1]
      stable_Cons [OF stable_digits1] split: list.splits if_splits)

text \<open>None of the three parts grows the input; the integer part consumes a digit.\<close>

lemma scan_digits1_le: "scan_digits1 s = Some (x, r) \<Longrightarrow> length r \<le> length s"
  by (auto simp: scan_digits1_def dest!: span_digits_length split: prod.splits if_splits)

lemma scan_int_less: "scan_int s = Some (x, r) \<Longrightarrow> length r < length s"
  by (auto simp: scan_int_def span_digits_def split: list.splits if_splits)
    (metis le_imp_less_Suc length_dropWhile_le)

lemma scan_frac_le: "scan_frac s = Some (x, r) \<Longrightarrow> length r \<le> length s"
  by (auto simp: scan_frac_def cons_fst_eq_Some dest!: scan_digits1_le split: list.splits if_splits)

lemma scan_exp_le: "scan_exp s = Some (x, r) \<Longrightarrow> length r \<le> length s"
  by (auto simp: scan_exp_def cons_fst_eq_Some dest!: scan_digits1_le split: list.splits if_splits)

lemma scan_unsigned_less: "scan_unsigned s = Some (x, r) \<Longrightarrow> length r < length s"
  by (fastforce simp: scan_unsigned_def cons_fst_eq_Some split: option.splits
      dest: scan_int_less scan_frac_le scan_exp_le)

lemma scan_num_less: "scan_num s = Some (x, r) \<Longrightarrow> length r < length s"
  by (fastforce simp: scan_num_def cons_fst_eq_Some split: list.splits if_splits
      dest: scan_unsigned_less)

lemma scan_frac_Nil: "scan_frac [] = Some ([], [])"
  by (simp add: scan_frac_def)

lemma scan_exp_Nil: "scan_exp [] = Some ([], [])"
  by (simp add: scan_exp_def)

lemma stable_unsigned: "stable scan_unsigned"
  unfolding stable_def
proof (intro allI impI)
  fix s x r t
  assume eq: "scan_unsigned s = Some (x, r)" and r: "r \<noteq> []"
  then obtain i r1 f r2 e where parts: "scan_int s = Some (i, r1)" "scan_frac r1 = Some (f, r2)"
      "scan_exp r2 = Some (e, r)" "x = i @ f @ e"
    by (auto simp: scan_unsigned_def cons_fst_eq_Some split: option.splits)
  from parts(3) r have r2: "r2 \<noteq> []" by (auto simp: scan_exp_Nil)
  with parts(2) have r1: "r1 \<noteq> []" by (auto simp: scan_frac_Nil)
  show "scan_unsigned (s @ t) = Some (x, r @ t)"
    using parts r r1 r2
    by (simp add: scan_unsigned_def cons_fst_eq_Some stableD [OF stable_int]
        stableD [OF stable_frac] stableD [OF stable_exp])
qed

lemma stable_num: "stable scan_num"
  by (auto simp: stable_def scan_num_def cons_fst_eq_Some stableD [OF stable_unsigned]
      stable_Cons [OF stable_unsigned] split: list.splits if_splits)

lemma scan_lit_extend: "scan_lit cs v s = Some (x, r) \<Longrightarrow> scan_lit cs v (s @ t) = Some (x, r @ t)"
  by (induction cs v s rule: scan_lit.induct) (auto split: if_splits)

lemma scan_lit_le: "scan_lit cs v s = Some (x, r) \<Longrightarrow> length r \<le> length s"
  by (induction cs v s rule: scan_lit.induct) (auto split: if_splits)

section \<open>Values\<close>

text \<open>The ways a value, an element list and a member list can have been read.\<close>

definition literals :: "(char \<times> string \<times> json) set" where
  "literals = {(CHR ''t'', ''rue'', JBool True), (CHR ''f'', ''alse'', JBool False),
     (CHR ''n'', ''ull'', JNull)}"

definition starts_number :: "char \<Rightarrow> bool" where
  "starts_number c = (c \<notin> {CHR ''{'', CHR ''['', CHR 0x22, CHR ''t'', CHR ''f'', CHR ''n''})"

lemma scan_valueE:
  assumes "scan_value n s = Some (v, r)"
  obtains (obj0) m q where "n = Suc m" "skip_ws s = CHR ''{'' # q" "skip_ws q = CHR ''}'' # r" "v = JObj []"
  | (obj) m q d q' ms where "n = Suc m" "skip_ws s = CHR ''{'' # q" "skip_ws q = d # q'" "d \<noteq> CHR ''}''"
      "scan_members m q = Some (ms, r)" "v = JObj ms"
  | (arr0) m q where "n = Suc m" "skip_ws s = CHR ''['' # q" "skip_ws q = CHR '']'' # r" "v = JArr []"
  | (arr) m q d q' vs where "n = Suc m" "skip_ws s = CHR ''['' # q" "skip_ws q = d # q'" "d \<noteq> CHR '']''"
      "scan_elems m q = Some (vs, r)" "v = JArr vs"
  | (str) m q raw where "n = Suc m" "skip_ws s = CHR 0x22 # q" "scan_str q = Some (raw, r)" "v = JStr raw"
  | (lit) m c q cs where "n = Suc m" "skip_ws s = c # q" "(c, cs, v) \<in> literals" "scan_lit cs v q = Some (v, r)"
  | (num) m c q k where "n = Suc m" "skip_ws s = c # q" "starts_number c" "scan_num (c # q) = Some (k, r)"
      "v = JNum k"
proof -
  obtain m where n: "n = Suc m" using assms by (cases n) auto
  obtain c q where s: "skip_ws s = c # q" using assms n by (cases "skip_ws s") auto
  have lit_same: "scan_lit cs w q = Some (v, r) \<Longrightarrow> v = w" for cs w
    by (induction cs w q rule: scan_lit.induct) (auto split: if_splits)
  consider "c = CHR ''{''" | "c = CHR ''[''" | "c = CHR 0x22" | "c = CHR ''t''" | "c = CHR ''f''"
    | "c = CHR ''n''" | "starts_number c"
    by (auto simp: starts_number_def)
  then show thesis
  proof cases
    case 1
    then obtain d q' where "skip_ws q = d # q'" using assms n s by (cases "skip_ws q") auto
    then show thesis using obj0 obj 1 assms n s by (auto split: if_splits)
  next
    case 2
    then obtain d q' where "skip_ws q = d # q'" using assms n s by (cases "skip_ws q") auto
    then show thesis using arr0 arr 2 assms n s by (auto split: if_splits)
  next
    case 3
    then show thesis using str assms n s by auto
  next
    case 7
    then show thesis using num assms n s by (auto simp: starts_number_def)
  qed (use lit [OF n s] lit_same assms n s in \<open>force simp: literals_def\<close>)+
qed

lemma scan_value_lit:
  "skip_ws s = c # q \<Longrightarrow> (c, cs, v) \<in> literals \<Longrightarrow> scan_lit cs v q = Some (v, r) \<Longrightarrow>
   scan_value (Suc m) s = Some (v, r)"
  by (auto simp: literals_def)

lemma scan_value_num:
  "skip_ws s = c # q \<Longrightarrow> starts_number c \<Longrightarrow> scan_num (c # q) = Some (k, r) \<Longrightarrow>
   scan_value (Suc m) s = Some (JNum k, r)"
  by (auto simp: starts_number_def)

lemma scan_elemsE:
  assumes "scan_elems n s = Some (vs, r)"
  obtains (last) m v q where "n = Suc m" "scan_value m s = Some (v, q)" "skip_ws q = CHR '']'' # r"
      "vs = [v]"
  | (more) m v q q' ws where "n = Suc m" "scan_value m s = Some (v, q)" "skip_ws q = CHR '','' # q'"
      "scan_elems m q' = Some (ws, r)" "vs = v # ws"
proof -
  obtain m where n: "n = Suc m" using assms by (cases n) auto
  obtain v q where v: "scan_value m s = Some (v, q)"
    using assms n by (cases "scan_value m s") auto
  obtain c q' where q: "skip_ws q = c # q'" using assms n v by (cases "skip_ws q") auto
  show thesis
    using last [OF n v] more [OF n v] assms n v q
    by (cases "c = CHR '',''") (auto simp: cons_fst_eq_Some split: if_splits)
qed

lemma scan_membersE:
  assumes "scan_members n s = Some (ms, r)"
  obtains (last) m s1 k s2 s3 v q where "n = Suc m" "skip_ws s = CHR 0x22 # s1"
      "scan_str s1 = Some (k, s2)" "skip_ws s2 = CHR '':'' # s3"
      "scan_value m s3 = Some (v, q)" "skip_ws q = CHR ''}'' # r" "ms = [(k, v)]"
  | (more) m s1 k s2 s3 v q q' ns where "n = Suc m" "skip_ws s = CHR 0x22 # s1"
      "scan_str s1 = Some (k, s2)" "skip_ws s2 = CHR '':'' # s3"
      "scan_value m s3 = Some (v, q)" "skip_ws q = CHR '','' # q'"
      "scan_members m q' = Some (ns, r)" "ms = (k, v) # ns"
proof -
  obtain m where n: "n = Suc m" using assms by (cases n) auto
  obtain s1 where s: "skip_ws s = CHR 0x22 # s1"
    using assms n by (cases "skip_ws s") (auto split: if_splits)
  obtain k s2 where k: "scan_str s1 = Some (k, s2)"
    using assms n s by (cases "scan_str s1") auto
  obtain s3 where s2: "skip_ws s2 = CHR '':'' # s3"
    using assms n s k by (cases "skip_ws s2") (auto split: if_splits)
  obtain v q where v: "scan_value m s3 = Some (v, q)"
    using assms n s k s2 by (cases "scan_value m s3") auto
  obtain c q' where q: "skip_ws q = c # q'" using assms n s k s2 v by (cases "skip_ws q") auto
  show thesis
    using last [OF n s k s2 v] more [OF n s k s2 v] assms n s k s2 v q
    by (cases "c = CHR '',''") (auto simp: cons_fst_eq_Some split: if_splits)
qed

lemma scan_shrink:
  "(\<forall>s v r. scan_value n s = Some (v, r) \<longrightarrow> length r < length s) \<and>
   (\<forall>s vs r. scan_elems n s = Some (vs, r) \<longrightarrow> length r < length s) \<and>
   (\<forall>s ms r. scan_members n s = Some (ms, r) \<longrightarrow> length r < length s)"
proof (induction n)
  case (Suc n)
  have v: "length r < length s" if "scan_value (Suc n) s = Some (v, r)" for s v r
    using that
  proof (cases rule: scan_valueE)
    case (lit m c q cs)
    then show ?thesis using scan_lit_le [of cs v q] skip_ws_Cons_length [of s] by fastforce
  next
    case (num m c q k)
    then show ?thesis using scan_num_less [of "c # q"] length_skip_ws [of s] by fastforce
  qed (use Suc.IH str.shrink in \<open>fastforce dest!: skip_ws_Cons_length\<close>)+
  have e: "length r < length s" if "scan_elems (Suc n) s = Some (vs, r)" for s vs r
    using that by (cases rule: scan_elemsE) (use Suc.IH in \<open>fastforce dest!: skip_ws_Cons_length\<close>)+
  have m: "length r < length s" if "scan_members (Suc n) s = Some (ms, r)" for s ms r
    using that
    by (cases rule: scan_membersE) (use Suc.IH str.shrink in \<open>fastforce dest!: skip_ws_Cons_length\<close>)+
  show ?case using v e m by blast
qed simp

lemmas scan_value_shrink = scan_shrink [THEN conjunct1, rule_format]
lemmas scan_elems_shrink = scan_shrink [THEN conjunct2, THEN conjunct1, rule_format]
lemmas scan_members_shrink = scan_shrink [THEN conjunct2, THEN conjunct2, rule_format]

text \<open>
  Fuel: every call but one that reads a single bracket consumes a character, so twice the
  number of characters consumed is enough, and more fuel changes nothing.
\<close>

lemma scan_fuel:
  "(\<forall>s v r m. scan_value n s = Some (v, r) \<longrightarrow> 2 * (length s - length r) \<le> Suc m \<longrightarrow>
      scan_value m s = Some (v, r)) \<and>
   (\<forall>s vs r m. scan_elems n s = Some (vs, r) \<longrightarrow> 2 * (length s - length r) \<le> m \<longrightarrow>
      scan_elems m s = Some (vs, r)) \<and>
   (\<forall>s ms r m. scan_members n s = Some (ms, r) \<longrightarrow> 2 * (length s - length r) \<le> m \<longrightarrow>
      scan_members m s = Some (ms, r))"
proof (induction n)
  case (Suc n)
  note IHv = Suc.IH [THEN conjunct1, rule_format]
  note IHe = Suc.IH [THEN conjunct2, THEN conjunct1, rule_format]
  note IHm = Suc.IH [THEN conjunct2, THEN conjunct2, rule_format]
  have v: "scan_value m s = Some (v, r)"
    if eq: "scan_value (Suc n) s = Some (v, r)" and m: "2 * (length s - length r) \<le> Suc m" for s v r m
  proof -
    from m scan_value_shrink [OF eq] obtain m' where m': "m = Suc m'" by (cases m) auto
    from eq show ?thesis
    proof (cases rule: scan_valueE)
      case (obj k q d q' ms)
      note lens = skip_ws_Cons_length [OF obj(2)] scan_members_shrink [OF obj(5)]
      have "scan_members m' q = Some (ms, r)" by (rule IHm) (use obj m m' lens in simp_all)
      with obj m' show ?thesis by simp
    next
      case (arr k q d q' vs)
      note lens = skip_ws_Cons_length [OF arr(2)] scan_elems_shrink [OF arr(5)]
      have "scan_elems m' q = Some (vs, r)" by (rule IHe) (use arr m m' lens in simp_all)
      with arr m' show ?thesis by simp
    qed (use m' scan_value_lit scan_value_num in auto)
  qed
  have e: "scan_elems m s = Some (vs, r)"
    if eq: "scan_elems (Suc n) s = Some (vs, r)" and m: "2 * (length s - length r) \<le> m" for s vs r m
  proof -
    from m scan_elems_shrink [OF eq] obtain m' where m': "m = Suc m'" by (cases m) auto
    from eq show ?thesis
    proof (cases rule: scan_elemsE)
      case (last k v q)
      note lens = skip_ws_Cons_length [OF last(3)] scan_value_shrink [OF last(2)]
      have "scan_value m' s = Some (v, q)" by (rule IHv) (use last m m' lens in simp_all)
      with last m' show ?thesis by simp
    next
      case (more k v q q' ws)
      note lens = skip_ws_Cons_length [OF more(3)] scan_value_shrink [OF more(2)]
        scan_elems_shrink [OF more(4)]
      have "scan_value m' s = Some (v, q)" by (rule IHv) (use more m m' lens in simp_all)
      moreover have "scan_elems m' q' = Some (ws, r)" by (rule IHe) (use more m m' lens in simp_all)
      ultimately show ?thesis using more m' by (simp add: cons_fst_eq_Some)
    qed
  qed
  have ms: "scan_members m s = Some (ms, r)"
    if eq: "scan_members (Suc n) s = Some (ms, r)" and m: "2 * (length s - length r) \<le> m" for s ms r m
  proof -
    from m scan_members_shrink [OF eq] obtain m' where m': "m = Suc m'" by (cases m) auto
    from eq show ?thesis
    proof (cases rule: scan_membersE)
      case (last j s1 k s2 s3 v q)
      note lens = skip_ws_Cons_length [OF last(2)] str.shrink [OF last(3)]
        skip_ws_Cons_length [OF last(4)] scan_value_shrink [OF last(5)] skip_ws_Cons_length [OF last(6)]
      have "scan_value m' s3 = Some (v, q)" by (rule IHv) (use last m m' lens in simp_all)
      with last m' show ?thesis by simp
    next
      case (more j s1 k s2 s3 v q q' ns)
      note lens = skip_ws_Cons_length [OF more(2)] str.shrink [OF more(3)]
        skip_ws_Cons_length [OF more(4)] scan_value_shrink [OF more(5)] skip_ws_Cons_length [OF more(6)]
        scan_members_shrink [OF more(7)]
      have "scan_value m' s3 = Some (v, q)" by (rule IHv) (use more m m' lens in simp_all)
      moreover have "scan_members m' q' = Some (ns, r)" by (rule IHm) (use more m m' lens in simp_all)
      ultimately show ?thesis using more m' by (simp add: cons_fst_eq_Some)
    qed
  qed
  show ?case using v e ms by blast
qed simp

lemmas scan_value_fuel = scan_fuel [THEN conjunct1, rule_format]
lemmas scan_elems_fuel = scan_fuel [THEN conjunct2, THEN conjunct1, rule_format]
lemmas scan_members_fuel = scan_fuel [THEN conjunct2, THEN conjunct2, rule_format]

lemma scan_value_enough: "scan_value n s = Some x \<Longrightarrow> scan_value (2 * length s) s = Some x"
  by (cases x, simp) (rule scan_value_fuel, assumption, simp)

lemma scan_value_unique: "scan_value n s = Some x \<Longrightarrow> scan_value m s = Some y \<Longrightarrow> x = y"
  using scan_value_enough [of n s x] scan_value_enough [of m s y] by simp

text \<open>The fuel of \<open>json_parse\<close> is enough: it accepts whatever some amount of fuel accepts.\<close>

lemma json_parse_iff:
  "json_parse s = Some v \<longleftrightarrow> (\<exists>n r. scan_value n s = Some (v, r) \<and> skip_ws r = [])"
  using scan_value_enough by (auto simp: json_parse_def split: option.splits if_splits)

lemma scan_extend:
  "(\<forall>s v r t. scan_value n s = Some (v, r) \<longrightarrow> r \<noteq> [] \<longrightarrow> scan_value n (s @ t) = Some (v, r @ t)) \<and>
   (\<forall>s vs r t. scan_elems n s = Some (vs, r) \<longrightarrow> scan_elems n (s @ t) = Some (vs, r @ t)) \<and>
   (\<forall>s ms r t. scan_members n s = Some (ms, r) \<longrightarrow> scan_members n (s @ t) = Some (ms, r @ t))"
proof (induction n)
  case (Suc n)
  note IHv = Suc.IH [THEN conjunct1, rule_format]
  note IHe = Suc.IH [THEN conjunct2, THEN conjunct1, rule_format]
  note IHm = Suc.IH [THEN conjunct2, THEN conjunct2, rule_format]
  have v: "scan_value (Suc n) (s @ t) = Some (v, r @ t)"
    if eq: "scan_value (Suc n) s = Some (v, r)" and r: "r \<noteq> []" for s v r t
    using eq
  proof (cases rule: scan_valueE)
    case (lit m c q cs)
    then show ?thesis
      by (intro scan_value_lit [OF skip_ws_Cons_append [OF lit(2)] lit(3)] scan_lit_extend)
  next
    case (num m c q k)
    then show ?thesis
      using scan_value_num [OF skip_ws_Cons_append [OF num(2)] num(3)
          stable_Cons [OF stable_num num(4) r]] by simp
  qed (use IHe IHm str.extend in \<open>simp_all add: skip_ws_Cons_append\<close>)
  have e: "scan_elems (Suc n) (s @ t) = Some (vs, r @ t)"
    if "scan_elems (Suc n) s = Some (vs, r)" for s vs r t
    using that
  proof (cases rule: scan_elemsE)
    case (last m v q)
    then have "q \<noteq> []" by auto
    with last IHv have "scan_value m (s @ t) = Some (v, q @ t)" by simp
    with last show ?thesis by (simp add: skip_ws_Cons_append)
  next
    case (more m v q q' ws)
    then have "q \<noteq> []" by auto
    with more IHv have "scan_value m (s @ t) = Some (v, q @ t)" by simp
    with more IHe show ?thesis by (simp add: skip_ws_Cons_append cons_fst_eq_Some)
  qed
  have m: "scan_members (Suc n) (s @ t) = Some (ms, r @ t)"
    if "scan_members (Suc n) s = Some (ms, r)" for s ms r t
    using that
  proof (cases rule: scan_membersE)
    case (last m s1 k s2 s3 v q)
    then have "q \<noteq> []" by auto
    with last IHv have "scan_value m (s3 @ t) = Some (v, q @ t)" by simp
    with last str.extend show ?thesis by (simp add: skip_ws_Cons_append)
  next
    case (more m s1 k s2 s3 v q q' ns)
    then have "q \<noteq> []" by auto
    with more IHv have "scan_value m (s3 @ t) = Some (v, q @ t)" by simp
    with more str.extend IHm show ?thesis by (simp add: skip_ws_Cons_append cons_fst_eq_Some)
  qed
  show ?case using v e m by blast
qed simp

interpretation elems: self_delimiting "scan_elems n" for n
  by unfold_locales (use scan_elems_shrink scan_extend in blast)+

interpretation members: self_delimiting "scan_members n" for n
  by unfold_locales (use scan_members_shrink scan_extend in blast)+

section \<open>Marshalled documents are read back\<close>

definition plain_char :: "char \<Rightarrow> bool" where
  "plain_char c = (c \<noteq> CHR 0x22 \<and> c \<noteq> CHR 0x5C \<and> 32 \<le> (of_char c :: nat))"

definition plain :: "string \<Rightarrow> bool" where
  "plain s = list_all plain_char s"

definition digits_ok :: "string \<Rightarrow> bool" where
  "digits_ok n = (n \<noteq> [] \<and> list_all is_digit n \<and> (hd n = CHR ''0'' \<longrightarrow> tl n = []))"

fun json_ok :: "json \<Rightarrow> bool" where
  "json_ok JNull = True"
| "json_ok (JBool b) = True"
| "json_ok (JNum n) = digits_ok n"
| "json_ok (JStr raw) = plain raw"
| "json_ok (JArr vs) = list_all json_ok vs"
| "json_ok (JObj ms) = list_all (\<lambda>(k, v). plain k \<and> json_ok v) ms"

text \<open>Text after a value that cannot continue a number.\<close>

definition delimited :: "string \<Rightarrow> bool" where
  "delimited r = (case r of [] \<Rightarrow> True
     | c # _ \<Rightarrow> \<not> is_digit c \<and> c \<noteq> CHR ''.'' \<and> c \<noteq> CHR ''e'' \<and> c \<noteq> CHR ''E'')"

lemma scan_str_plain: "plain raw \<Longrightarrow> scan_str (raw @ CHR 0x22 # r) = Some (raw, r)"
  unfolding scan_str_def
  by (induction raw) (auto simp: plain_def plain_char_def cons_fst_eq_Some)

lemma takeWhile_digits:
  "list_all is_digit n \<Longrightarrow> delimited r \<Longrightarrow> takeWhile is_digit (n @ r) = n \<and> dropWhile is_digit (n @ r) = r"
  by (induction n) (auto simp: delimited_def split: list.splits)

lemma is_digit_not:
  "is_digit c \<Longrightarrow> c \<noteq> CHR ''-'' \<and> \<not> is_ws c \<and> starts_number c \<and> c \<noteq> CHR ''}'' \<and> c \<noteq> CHR '']''"
  by (auto simp: is_digit_def is_ws_def starts_number_def)

lemma scan_frac_exp_delimited: "delimited r \<Longrightarrow> scan_frac r = Some ([], r) \<and> scan_exp r = Some ([], r)"
  by (auto simp: delimited_def scan_frac_def scan_exp_def split: list.splits)

lemma scan_int_digits: "digits_ok n \<Longrightarrow> delimited r \<Longrightarrow> scan_int (n @ r) = Some (n, r)"
proof -
  assume n: "digits_ok n" and r: "delimited r"
  then obtain c q where c: "n = c # q" "is_digit c" by (cases n) (auto simp: digits_ok_def)
  show ?thesis
  proof (cases "c = CHR ''0''")
    case True
    with n c show ?thesis by (simp add: scan_int_def digits_ok_def)
  next
    case False
    from n have d: "list_all is_digit n" by (simp add: digits_ok_def)
    from takeWhile_digits [OF d r] False c show ?thesis
      by (simp add: scan_int_def span_digits_def)
  qed
qed

lemma scan_num_digits: "digits_ok n \<Longrightarrow> delimited r \<Longrightarrow> scan_num (n @ r) = Some (n, r)"
proof -
  assume n: "digits_ok n" and r: "delimited r"
  then obtain c q where c: "n = c # q" "is_digit c" by (cases n) (auto simp: digits_ok_def)
  with n r show ?thesis
    using scan_int_digits [OF n r] scan_frac_exp_delimited [OF r] is_digit_not [OF c(2)]
    by (simp add: scan_num_def scan_unsigned_def cons_fst_def)
qed

lemma digits_ok_dec_nat: "digits_ok (dec_nat n)"
proof (induction n rule: dec_nat.induct)
  case (1 n)
  show ?case
  proof (cases "n < 10")
    case True
    then show ?thesis by (subst dec_nat.simps) (simp add: digits_ok_def digit_char_props)
  next
    case False
    have "hd (dec_nat m) \<noteq> CHR ''0''" if "0 < m" for m
      using that
    proof (induction m rule: dec_nat.induct)
      case (1 m)
      then show ?case by (subst dec_nat.simps) (auto simp: digit_char_def hd_append dest!: arg_cong [where f = "of_char :: char \<Rightarrow> nat"])
    qed
    with False show ?thesis
      by (subst dec_nat.simps) (simp add: digits_ok_def digit_char_props hd_append)
  qed
qed

lemma json_print_head:
  "json_ok v \<Longrightarrow> \<exists>c q. json_print v = c # q \<and> \<not> is_ws c \<and> c \<noteq> CHR '']'' \<and> c \<noteq> CHR ''}''"
  by (cases v) (auto simp: json_quote_def is_ws_def digits_ok_def neq_Nil_conv is_digit_def)

lemma skip_ws_print: "json_ok v \<Longrightarrow> skip_ws (json_print v @ r) = json_print v @ r"
  using json_print_head [of v] by auto

text \<open>Readings with some fuel compose.\<close>

lemma scan_elems_last:
  "scan_value n s = Some (v, q) \<Longrightarrow> skip_ws q = CHR '']'' # r \<Longrightarrow> \<exists>n. scan_elems n s = Some ([v], r)"
  by (intro exI [of _ "Suc n"]) simp

lemma scan_elems_more:
  assumes v: "scan_value n s = Some (v, q)" and q: "skip_ws q = CHR '','' # q'"
    and vs: "scan_elems m q' = Some (vs, r)"
  shows "\<exists>n. scan_elems n s = Some (v # vs, r)"
proof -
  let ?M = "2 * length s + 2 * length q'"
  have "scan_value ?M s = Some (v, q)" by (rule scan_value_fuel [OF v]) simp
  moreover have "scan_elems ?M q' = Some (vs, r)" by (rule scan_elems_fuel [OF vs]) simp
  ultimately have "scan_elems (Suc ?M) s = Some (v # vs, r)" using q by (simp add: cons_fst_def)
  then show ?thesis by blast
qed

lemma scan_members_last:
  "scan_str s1 = Some (k, s2) \<Longrightarrow> skip_ws s = CHR 0x22 # s1 \<Longrightarrow> skip_ws s2 = CHR '':'' # s3 \<Longrightarrow>
   scan_value n s3 = Some (v, q) \<Longrightarrow> skip_ws q = CHR ''}'' # r \<Longrightarrow> \<exists>n. scan_members n s = Some ([(k, v)], r)"
  by (intro exI [of _ "Suc n"]) simp

lemma scan_members_more:
  assumes k: "scan_str s1 = Some (k, s2)" "skip_ws s = CHR 0x22 # s1" "skip_ws s2 = CHR '':'' # s3"
    and v: "scan_value n s3 = Some (v, q)" and q: "skip_ws q = CHR '','' # q'"
    and ms: "scan_members m q' = Some (ms, r)"
  shows "\<exists>n. scan_members n s = Some ((k, v) # ms, r)"
proof -
  let ?M = "2 * length s3 + 2 * length q'"
  have "scan_value ?M s3 = Some (v, q)" by (rule scan_value_fuel [OF v]) simp
  moreover have "scan_members ?M q' = Some (ms, r)" by (rule scan_members_fuel [OF ms]) simp
  ultimately have "scan_members (Suc ?M) s = Some ((k, v) # ms, r)" using k q by (simp add: cons_fst_def)
  then show ?thesis by blast
qed

lemma comma_sep_Cons: "xs \<noteq> [] \<Longrightarrow> comma_sep (x # xs) = x @ '','' @ comma_sep xs"
  by (cases xs) simp_all

lemma skip_ws_Cons: "\<not> is_ws c \<Longrightarrow> skip_ws (c # s) = c # s"
  by simp

lemma scan_elems_print:
  assumes "vs \<noteq> []" "list_all json_ok vs"
    and "\<And>v r. v \<in> set vs \<Longrightarrow> delimited r \<Longrightarrow> \<exists>n. scan_value n (json_print v @ r) = Some (v, r)"
  shows "\<exists>n. scan_elems n (comma_sep (map json_print vs) @ '']'' @ r) = Some (vs, r)"
  using assms
proof (induction vs)
  case (Cons v vs)
  show ?case
  proof (cases "vs = []")
    case True
    from Cons.prems obtain n where "scan_value n (json_print v @ '']'' @ r) = Some (v, '']'' @ r)"
      by (force simp: delimited_def is_digit_def)
    with True scan_elems_last [OF this, of r] show ?thesis by (simp add: is_ws_def)
  next
    case False
    with Cons obtain m where m: "scan_elems m (comma_sep (map json_print vs) @ '']'' @ r) = Some (vs, r)"
      by auto
    let ?q = "comma_sep (map json_print vs) @ '']'' @ r"
    from Cons.prems obtain n where "scan_value n (json_print v @ '','' @ ?q) = Some (v, '','' @ ?q)"
      by (force simp: delimited_def is_digit_def)
    from scan_elems_more [OF this _ m] False show ?thesis
      by (simp add: comma_sep_Cons is_ws_def)
  qed
qed simp

abbreviation print_member :: "string \<times> json \<Rightarrow> string" where
  "print_member \<equiv> \<lambda>(k, v). json_quote k @ '':'' @ json_print v"

lemma scan_members_print:
  assumes "ms \<noteq> []" "list_all (\<lambda>(k, v). plain k \<and> json_ok v) ms"
    and "\<And>k v r. (k, v) \<in> set ms \<Longrightarrow> delimited r \<Longrightarrow> \<exists>n. scan_value n (json_print v @ r) = Some (v, r)"
  shows "\<exists>n. scan_members n (comma_sep (map print_member ms) @ ''}'' @ r) = Some (ms, r)"
  using assms
proof (induction ms)
  case (Cons p ms)
  obtain k v where p: "p = (k, v)" by force
  have k: "plain k" using Cons.prems p by simp
  have key: "skip_ws (json_quote k @ '':'' @ t) = CHR 0x22 # (k @ CHR 0x22 # '':'' @ t)"
    "skip_ws ('':'' @ t) = CHR '':'' # t" for t
    by (simp_all add: json_quote_def is_ws_def)
  show ?case
  proof (cases "ms = []")
    case True
    from Cons.prems p obtain n where "scan_value n (json_print v @ ''}'' @ r) = Some (v, ''}'' @ r)"
      by (force simp: delimited_def is_digit_def)
    from scan_members_last [OF scan_str_plain [OF k] key this] True p show ?thesis
      by (simp add: is_ws_def)
  next
    case False
    have "\<exists>n. scan_members n (comma_sep (map print_member ms) @ ''}'' @ r) = Some (ms, r)"
    proof (rule Cons.IH [OF False])
      show "list_all (\<lambda>(k, v). plain k \<and> json_ok v) ms" using Cons.prems(2) by simp
    qed (use Cons.prems(3) in \<open>auto intro: list.set_intros(2)\<close>)
    then obtain m where m: "scan_members m (comma_sep (map print_member ms) @ ''}'' @ r) = Some (ms, r)"
      by blast
    let ?q = "comma_sep (map print_member ms) @ ''}'' @ r"
    from Cons.prems p obtain n where "scan_value n (json_print v @ '','' @ ?q) = Some (v, '','' @ ?q)"
      by (force simp: delimited_def is_digit_def)
    from scan_members_more [OF scan_str_plain [OF k] key this _ m] False p show ?thesis
      by (simp add: comma_sep_Cons is_ws_def)
  qed
qed simp

theorem scan_value_print:
  "json_ok v \<Longrightarrow> delimited r \<Longrightarrow> \<exists>n. scan_value n (json_print v @ r) = Some (v, r)"
proof (induction v arbitrary: r)
  case JNull
  show ?case by (intro exI [of _ 1]) (simp add: is_ws_def)
next
  case (JBool b)
  show ?case by (intro exI [of _ 1]) (simp add: is_ws_def)
next
  case (JNum k)
  then obtain c q where c: "k = c # q" "is_digit c" by (cases k) (auto simp: digits_ok_def)
  with JNum scan_num_digits [of k r] is_digit_not [OF c(2)]
  have "scan_value (Suc 0) (json_print (JNum k) @ r) = Some (JNum k, r)"
    by (intro scan_value_num [of _ c "q @ r"]) auto
  then show ?case by blast
next
  case (JStr raw)
  then show ?case by (intro exI [of _ 1]) (simp add: is_ws_def json_quote_def scan_str_plain)
next
  case (JArr vs)
  show ?case
  proof (cases "vs = []")
    case True
    then show ?thesis by (intro exI [of _ 1]) (simp add: is_ws_def)
  next
    case False
    from JArr False obtain n where n: "scan_elems n (comma_sep (map json_print vs) @ '']'' @ r) = Some (vs, r)"
      using scan_elems_print [of vs r] by (auto simp: list_all_iff)
    obtain v ws where vs: "vs = v # ws" using False by (cases vs) auto
    with JArr.prems obtain c q where c: "comma_sep (map json_print vs) = c # q" "\<not> is_ws c" "c \<noteq> CHR '']''"
      using json_print_head [of v] by (cases ws) auto
    have "scan_value (Suc n) (json_print (JArr vs) @ r) = Some (JArr vs, r)"
      using n c by (simp add: is_ws_def)
    then show ?thesis by blast
  qed
next
  case (JObj ms)
  show ?case
  proof (cases "ms = []")
    case True
    then show ?thesis by (intro exI [of _ 1]) (simp add: is_ws_def)
  next
    case False
    have "\<exists>n. scan_value n (json_print v @ r') = Some (v, r')" if "(k, v) \<in> set ms" "delimited r'" for k v r'
      using JObj that by (fastforce simp: list_all_iff)
    with JObj False obtain n where
      n: "scan_members n (comma_sep (map print_member ms) @ ''}'' @ r) = Some (ms, r)"
      using scan_members_print [of ms r] by auto
    obtain p ns where ms: "ms = p # ns" using False by (cases ms) auto
    then obtain q where c: "comma_sep (map print_member ms) = CHR 0x22 # q"
      by (cases ns; cases p) (auto simp: json_quote_def)
    have "scan_value (Suc n) (json_print (JObj ms) @ r) = Some (JObj ms, r)"
      using n c by (simp add: is_ws_def)
    then show ?thesis by blast
  qed
qed

theorem json_parse_print: "json_ok v \<Longrightarrow> json_parse (json_print v) = Some v"
  using scan_value_print [of v "[]"] skip_ws.simps(1) unfolding json_parse_iff
  by (fastforce simp: delimited_def)

text \<open>A document that stops short of the closing brace is refused.\<close>

theorem json_parse_truncated:
  assumes ok: "json_ok (JObj ms)" and pq: "json_print (JObj ms) = p @ q" and q: "q \<noteq> []"
  shows "json_parse p = None"
proof (rule ccontr)
  assume "json_parse p \<noteq> None"
  then obtain v n r where v: "scan_value n p = Some (v, r)" "skip_ws r = []"
    by (auto simp: json_parse_iff)
  then have "p \<noteq> []" by (cases n) auto
  with pq obtain p' where p: "p = CHR ''{'' # p'" by (cases p) auto
  obtain k where whole: "scan_value k (p @ q) = Some (JObj ms, [])"
    using scan_value_print [OF ok, of "[]"] pq by (auto simp: delimited_def)
  have "scan_value n (p @ q) = Some (v, r @ q)"
    using v(1)
  proof (cases rule: scan_valueE)
    case (obj0 m t)
    then show ?thesis using p by (auto simp: is_ws_def skip_ws_Cons_append)
  next
    case (obj m t d t' ns)
    then show ?thesis using p members.extend by (auto simp: is_ws_def skip_ws_Cons_append)
  qed (use p in \<open>auto simp: is_ws_def literals_def starts_number_def\<close>)
  with whole scan_value_unique have "r @ q = []" by fastforce
  with q show False by simp
qed

section \<open>Decoding into Go values\<close>

text \<open>The Go string behind the raw text of a literal; code points are written in UTF-8.\<close>

definition hex_val :: "char \<Rightarrow> nat" where
  "hex_val c = (let n = of_char c in if n \<le> 57 then n - 48 else if n \<le> 70 then n - 55 else n - 87)"

definition hex4 :: "char \<Rightarrow> char \<Rightarrow> char \<Rightarrow> char \<Rightarrow> nat" where
  "hex4 a b c d = ((hex_val a * 16 + hex_val b) * 16 + hex_val c) * 16 + hex_val d"

definition utf8 :: "nat \<Rightarrow> string" where
  "utf8 u =
     (if u < 0x80 then [char_of u]
      else if u < 0x800 then [char_of (0xC0 + u div 64), char_of (0x80 + u mod 64)]
      else if u < 0x10000 then
        [char_of (0xE0 + u div 4096), char_of (0x80 + u div 64 mod 64), char_of (0x80 + u mod 64)]
      else
        [char_of (0xF0 + u div 262144), char_of (0x80 + u div 4096 mod 64),
         char_of (0x80 + u div 64 mod 64), char_of (0x80 + u mod 64)])"

definition is_surrogate :: "nat \<Rightarrow> bool" where
  "is_surrogate u = (0xD800 \<le> u \<and> u < 0xE000)"

definition unescape :: "char \<Rightarrow> char" where
  "unescape c =
     (if c = CHR ''b'' then CHR 0x08 else if c = CHR ''f'' then CHR 0x0C
      else if c = CHR ''n'' then CHR 0x0A else if c = CHR ''r'' then CHR 0x0D
      else if c = CHR ''t'' then CHR 0x09 else c)"

fun unquote :: "string \<Rightarrow> string" where
  "unquote [] = []"
| "unquote [c] = [c]"
| "unquote (c # e # s) =
     (if c \<noteq> CHR 0x5C then c # unquote (e # s)
      else if e \<noteq> CHR ''u'' then unescape e # unquote s
      else
        (case s of
           h1 # h2 # h3 # h4 # s2 \<Rightarrow>
             (let u = hex4 h1 h2 h3 h4 in
              if is_surrogate u then
                (case s2 of
                   b # u1 # g1 # g2 # g3 # g4 # s3 \<Rightarrow>
                     (let w = hex4 g1 g2 g3 g4 in
                      if b = CHR 0x5C \<and> u1 = CHR ''u'' \<and> u < 0xDC00 \<and> 0xDC00 \<le> w \<and> w < 0xE000
                      then utf8 (0x10000 + (u - 0xD800) * 1024 + (w - 0xDC00)) @ unquote s3
                      else utf8 0xFFFD @ unquote s2)
                 | _ \<Rightarrow> utf8 0xFFFD @ unquote s2)
              else utf8 u @ unquote s2)
         | _ \<Rightarrow> []))"

text \<open>
  The decoder returns \<open>None\<close> where \<open>Unmarshal\<close> returns an error. A literal \<open>null\<close>
  leaves the destination as it is. Keys without an exact match are matched ignoring the case
  of ASCII letters; keys that match no field are skipped; the last of several equal keys
  wins.
\<close>

type_synonym 'a decoder = "json \<Rightarrow> 'a \<Rightarrow> 'a option"

definition dec_uint :: "((u64 \<Rightarrow> u64) \<Rightarrow> 'a \<Rightarrow> 'a) \<Rightarrow> 'a decoder" where
  "dec_uint upd j a =
     (case j of
        JNum n \<Rightarrow> map_option (\<lambda>w. upd (\<lambda>_. w) a) (ParseUint n)
      | JNull \<Rightarrow> Some a
      | _ \<Rightarrow> None)"

definition dec_bool :: "((bool \<Rightarrow> bool) \<Rightarrow> 'a \<Rightarrow> 'a) \<Rightarrow> 'a decoder" where
  "dec_bool upd j a = (case j of JBool b \<Rightarrow> Some (upd (\<lambda>_. b) a) | JNull \<Rightarrow> Some a | _ \<Rightarrow> None)"

definition dec_string :: "((string \<Rightarrow> string) \<Rightarrow> 'a \<Rightarrow> 'a) \<Rightarrow> 'a decoder" where
  "dec_string upd j a =
     (case j of JStr raw \<Rightarrow> Some (upd (\<lambda>_. unquote raw) a) | JNull \<Rightarrow> Some a | _ \<Rightarrow> None)"

definition lower :: "char \<Rightarrow> char" where
  "lower c = (let n = of_char c :: nat in if 65 \<le> n \<and> n \<le> 90 then char_of (n + 32) else c)"

definition find_field :: "(string \<times> 'a decoder) list \<Rightarrow> string \<Rightarrow> 'a decoder option" where
  "find_field fields k =
     (case map_of fields k of
        Some d \<Rightarrow> Some d
      | None \<Rightarrow> map_option snd (find (\<lambda>(name, d). map lower name = map lower k) fields))"

fun decode_members :: "(string \<times> 'a decoder) list \<Rightarrow> (string \<times> json) list \<Rightarrow> 'a \<Rightarrow> 'a option" where
  "decode_members fields [] a = Some a"
| "decode_members fields ((k, v) # ms) a =
     (case find_field fields (unquote k) of
        None \<Rightarrow> decode_members fields ms a
      | Some d \<Rightarrow> (case d v a of None \<Rightarrow> None | Some a' \<Rightarrow> decode_members fields ms a'))"

definition decode_struct :: "(string \<times> 'a decoder) list \<Rightarrow> 'a decoder" where
  "decode_struct fields j a =
     (case j of JObj ms \<Rightarrow> decode_members fields ms a | JNull \<Rightarrow> Some a | _ \<Rightarrow> None)"

definition decode_slice :: "'a decoder \<Rightarrow> 'a \<Rightarrow> json \<Rightarrow> 'a list option" where
  "decode_slice dec zero j =
     (case j of JArr vs \<Rightarrow> those (map (\<lambda>v. dec v zero) vs) | JNull \<Rightarrow> Some [] | _ \<Rightarrow> None)"

definition json_Marshal :: "json \<Rightarrow> u8 list" where
  "json_Marshal j = bytes_of (json_print j)"

definition json_Unmarshal :: "(json \<Rightarrow> 'b option) \<Rightarrow> u8 list \<Rightarrow> 'b option" where
  "json_Unmarshal dec bs = Option.bind (json_parse (string_of bs)) dec"

lemma plain_tl: "plain (c # s) \<Longrightarrow> plain s"
  by (simp add: plain_def)

lemma unquote_plain: "plain s \<Longrightarrow> unquote s = s"
  by (induction s rule: induct_list012) (simp_all add: plain_def plain_char_def)

lemma json_Unmarshal_Marshal: "json_ok j \<Longrightarrow> json_Unmarshal dec (json_Marshal j) = dec j"
  by (simp add: json_Unmarshal_def json_Marshal_def json_parse_print)

lemma dec_uint_JNum: "dec_uint upd (JNum (FormatUint w)) a = Some (upd (\<lambda>_. w) a)"
  by (simp add: dec_uint_def)

lemma dec_bool_JBool: "dec_bool upd (JBool b) a = Some (upd (\<lambda>_. b) a)"
  by (simp add: dec_bool_def)

lemma dec_string_JStr: "plain s \<Longrightarrow> dec_string upd (JStr s) a = Some (upd (\<lambda>_. s) a)"
  by (simp add: dec_string_def unquote_plain)

lemma json_ok_FormatUint: "json_ok (JNum (FormatUint w))"
  by (simp add: FormatUint_def digits_ok_dec_nat)

lemma those_map_Some: "those (map (\<lambda>x. Some (f x)) xs) = Some (map f xs)"
  by (induction xs) simp_all

end
