(* ===== verification/Go_Time.thy ===== *)
theory Go_Time
  imports Go_Json
begin

text \<open>
  The package \<open>time\<close> as far as the program uses it. An instant is the number of
  nanoseconds since 1 January of year 1, UTC, so the zero \<open>time.Time\<close> is 0; a duration is a
  signed 64-bit number of nanoseconds. JSON carries an instant in RFC 3339 form with a
  nanosecond fraction; the processes are taken to run in the zone UTC when they write one, and
  any zone is understood when reading.
\<close>

type_synonym time = int
type_synonym duration = int

abbreviation Millisecond :: int where "Millisecond \<equiv> 1000000"
abbreviation Second :: int where "Second \<equiv> 1000000000"
abbreviation Minute :: int where "Minute \<equiv> 60000000000"

text \<open>\<open>t.Sub(u)\<close> saturates; products of durations wrap.\<close>

definition time_Sub :: "time \<Rightarrow> time \<Rightarrow> duration" where
  "time_Sub t u = max (- (2 ^ 63)) (min (2 ^ 63 - 1) (t - u))"

definition duration_of :: "u64 \<Rightarrow> duration \<Rightarrow> duration" where
  "duration_of n unit = wrap64 (sint n * unit)"

definition time_Add :: "time \<Rightarrow> duration \<Rightarrow> time" where
  "time_Add t d = t + d"

lemma time_Sub_exact: "0 \<le> t - u \<Longrightarrow> t - u < 2 ^ 63 \<Longrightarrow> time_Sub t u = t - u"
  by (simp add: time_Sub_def)

section \<open>Calendar dates\<close>

definition is_leap :: "nat \<Rightarrow> bool" where
  "is_leap y = (4 dvd y \<and> (\<not> 100 dvd y \<or> 400 dvd y))"

definition year_len :: "nat \<Rightarrow> nat" where
  "year_len y = (if is_leap y then 366 else 365)"

definition month_len :: "nat \<Rightarrow> nat \<Rightarrow> nat" where
  "month_len y m = (if m = 2 then if is_leap y then 29 else 28
     else if m \<in> {4, 6, 9, 11} then 30 else 31)"

text \<open>The year (counting from \<open>y\<close>) and day of the year of a day number.\<close>

function civil_year :: "nat \<Rightarrow> nat \<Rightarrow> nat \<times> nat" where
  "civil_year y d = (if d < year_len y then (y, d) else civil_year (Suc y) (d - year_len y))"
  by pat_completeness auto
termination
  by (relation "measure snd") (auto simp: year_len_def split: if_splits)

declare civil_year.simps [simp del]

text \<open>The month and the day of the month of a day of the year.\<close>

fun civil_month :: "nat \<Rightarrow> nat list \<Rightarrow> nat \<Rightarrow> nat \<times> nat" where
  "civil_month y [] d = (12, Suc d)"
| "civil_month y (m # ms) d =
     (if d < month_len y m then (m, Suc d) else civil_month y ms (d - month_len y m))"

definition days_before_year :: "nat \<Rightarrow> nat \<Rightarrow> nat" where
  "days_before_year y0 y = sum_list (map year_len [y0..<y])"

definition days_before_month :: "nat \<Rightarrow> nat \<Rightarrow> nat" where
  "days_before_month y m = sum_list (map (month_len y) [1..<m])"

definition day_number :: "nat \<Rightarrow> nat \<Rightarrow> nat \<Rightarrow> nat" where
  "day_number y m d = days_before_year 1 y + days_before_month y m + d - 1"

lemma civil_year_correct:
  "civil_year y0 d = (y, r) \<Longrightarrow> y0 \<le> y \<and> r < year_len y \<and> days_before_year y0 y + r = d"
proof (induction y0 d arbitrary: y r rule: civil_year.induct)
  case (1 y0 d)
  show ?case
  proof (cases "d < year_len y0")
    case True
    with 1 show ?thesis by (auto simp: civil_year.simps days_before_year_def)
  next
    case False
    with 1 have *: "Suc y0 \<le> y \<and> r < year_len y \<and> days_before_year (Suc y0) y + r = d - year_len y0"
      by (simp add: civil_year.simps [of y0])
    then have "days_before_year y0 y = year_len y0 + days_before_year (Suc y0) y"
      by (simp add: days_before_year_def upt_conv_Cons)
    with * False show ?thesis by auto
  qed
qed

lemma civil_month_correct:
  "civil_month y [k..<13] d = (m, day) \<Longrightarrow> 1 \<le> k \<Longrightarrow> k \<le> 12 \<Longrightarrow>
   d < sum_list (map (month_len y) [k..<13]) \<Longrightarrow>
   k \<le> m \<and> m \<le> 12 \<and> 1 \<le> day \<and> day \<le> month_len y m \<and>
   sum_list (map (month_len y) [k..<m]) + day = Suc d"
proof (induction "13 - k" arbitrary: k d)
  case (Suc n)
  have k: "[k..<13] = k # [Suc k..<13]" using Suc.prems by (simp add: upt_conv_Cons)
  show ?case
  proof (cases "d < month_len y k")
    case True
    with Suc.prems k show ?thesis by auto
  next
    case False
    show ?thesis
    proof (cases "k = 12")
      case True
      with Suc.prems False show ?thesis by (simp add: upt_rec)
    next
      case k12: False
      with Suc.prems False k Suc.hyps(1) [of "Suc k" "d - month_len y k"] Suc.hyps(2)
      have "Suc k \<le> m \<and> m \<le> 12 \<and> 1 \<le> day \<and> day \<le> month_len y m \<and>
        sum_list (map (month_len y) [Suc k..<m]) + day = Suc (d - month_len y k)"
        by auto
      moreover from this have "[k..<m] = k # [Suc k..<m]" by (simp add: upt_conv_Cons)
      ultimately show ?thesis using False by auto
    qed
  qed
qed simp

lemma year_is_months: "sum_list (map (month_len y) [1..<13]) = year_len y"
  by (simp add: month_len_def year_len_def upt_rec)

lemma day_number_civil:
  assumes "civil_year 1 d = (y, r)" and "civil_month y [1..<13] r = (m, day)"
  shows "1 \<le> y" "1 \<le> m" "m \<le> 12" "1 \<le> day" "day \<le> month_len y m" "day_number y m day = d"
  using civil_year_correct [OF assms(1)] civil_month_correct [OF assms(2)] year_is_months [of y]
  by (auto simp: day_number_def days_before_month_def)

section \<open>RFC 3339\<close>

definition pad :: "nat \<Rightarrow> nat \<Rightarrow> string" where
  "pad k n = replicate (k - length (dec_nat n)) (CHR ''0'') @ dec_nat n"

definition trim_zeros :: "string \<Rightarrow> string" where
  "trim_zeros s = rev (dropWhile (\<lambda>c. c = CHR ''0'') (rev s))"

definition frac_text :: "nat \<Rightarrow> string" where
  "frac_text ns = (if ns = 0 then [] else CHR ''.'' # trim_zeros (pad 9 ns))"

text \<open>\<open>None\<close> is the error of \<open>Time.MarshalJSON\<close>: a year outside 0 to 9999.\<close>

definition time_text :: "time \<Rightarrow> string option" where
  "time_text t =
     (if t < 0 then None else
      (let secs = nat t div 1000000000; (y, r) = civil_year 1 (secs div 86400);
           (m, d) = civil_month y [1..<13] r; s = secs mod 86400 in
       if 9999 < y then None else
       Some (pad 4 y @ ''-'' @ pad 2 m @ ''-'' @ pad 2 d @ ''T'' @ pad 2 (s div 3600) @ '':'' @
             pad 2 (s div 60 mod 60) @ '':'' @ pad 2 (s mod 60) @ frac_text (nat t mod 1000000000) @ ''Z'')))"

definition take_digits :: "nat \<Rightarrow> nat \<Rightarrow> nat \<Rightarrow> string \<Rightarrow> (nat \<times> string) option" where
  "take_digits k lo hi s =
     (let n = digits_val (take k s) in
      if k \<le> length s \<and> list_all is_digit (take k s) \<and> lo \<le> n \<and> n \<le> hi then Some (n, drop k s) else None)"

fun expect_char :: "char \<Rightarrow> string \<Rightarrow> string option" where
  "expect_char c [] = None"
| "expect_char c (d # s) = (if c = d then Some s else None)"

definition take_frac :: "string \<Rightarrow> nat \<times> string" where
  "take_frac s =
     (case s of
        c # d # r \<Rightarrow>
          if c = CHR ''.'' \<and> is_digit d
          then (digits_val (take 9 (takeWhile is_digit (d # r) @ replicate 9 (CHR ''0''))),
                dropWhile is_digit (d # r))
          else (0, s)
      | _ \<Rightarrow> (0, s))"

text \<open>The zone, which must end the text, in seconds east of UTC.\<close>

definition take_zone :: "string \<Rightarrow> int option" where
  "take_zone s =
     (case s of
        [] \<Rightarrow> None
      | c # r \<Rightarrow>
          if c = CHR ''Z'' then if r = [] then Some 0 else None
          else if c = CHR ''+'' \<or> c = CHR ''-'' then
            Option.bind (take_digits 2 0 23 r) (\<lambda>(h, r1).
            Option.bind (expect_char (CHR '':'') r1) (\<lambda>r2.
            Option.bind (take_digits 2 0 59 r2) (\<lambda>(m, r3).
            if r3 = [] then Some ((if c = CHR ''-'' then - 1 else 1) * int (h * 3600 + m * 60)) else None)))
          else None)"

definition parse_time :: "string \<Rightarrow> time option" where
  "parse_time s =
     Option.bind (take_digits 4 0 9999 s) (\<lambda>(y, s1).
     Option.bind (expect_char (CHR ''-'') s1) (\<lambda>s2.
     Option.bind (take_digits 2 1 12 s2) (\<lambda>(m, s3).
     Option.bind (expect_char (CHR ''-'') s3) (\<lambda>s4.
     Option.bind (take_digits 2 1 (month_len y m) s4) (\<lambda>(d, s5).
     Option.bind (expect_char (CHR ''T'') s5) (\<lambda>s6.
     Option.bind (take_digits 2 0 23 s6) (\<lambda>(hh, s7).
     Option.bind (expect_char (CHR '':'') s7) (\<lambda>s8.
     Option.bind (take_digits 2 0 59 s8) (\<lambda>(mm, s9).
     Option.bind (expect_char (CHR '':'') s9) (\<lambda>s10.
     Option.bind (take_digits 2 0 59 s10) (\<lambda>(ss, s11).
     (case take_frac s11 of (ns, s12) \<Rightarrow>
     map_option (\<lambda>off.
       (int (day_number y m d * 86400 + hh * 3600 + mm * 60 + ss)
        - (if y = 0 then 366 * 86400 else 0) - off) * Second + int ns)
       (take_zone s12)))))))))))))"

definition dec_time :: "((time \<Rightarrow> time) \<Rightarrow> 'a \<Rightarrow> 'a) \<Rightarrow> 'a decoder" where
  "dec_time upd j a =
     (case j of
        JStr raw \<Rightarrow> map_option (\<lambda>t. upd (\<lambda>_. t) a) (parse_time raw)
      | JNull \<Rightarrow> Some a
      | _ \<Rightarrow> None)"

section \<open>What is written is read back\<close>

lemma digits_val_zeros: "digits_val (replicate n (CHR ''0'') @ s) = digits_val s"
proof -
  have "foldl (\<lambda>n c. 10 * n + digit_val c) 0 (replicate n (CHR ''0'')) = 0"
    by (induction n) (simp_all add: digit_val_def)
  then show ?thesis by (simp add: digits_val_def)
qed

lemma is_digit_0 [simp]: "is_digit (CHR ''0'')"
  by (simp add: is_digit_def)

lemma digits_val_pad [simp]: "digits_val (pad k n) = n"
  by (simp add: pad_def digits_val_zeros)

lemma zeros_digits: "list_all is_digit (replicate j (CHR ''0''))"
  by (induction j) simp_all

lemma pad_digits [simp]: "list_all is_digit (pad k n)"
  by (simp add: pad_def zeros_digits)

lemma length_pad: "n < 10 ^ k \<Longrightarrow> 0 < k \<Longrightarrow> length (pad k n) = k"
  using length_dec_nat [of n k] by (simp add: pad_def)

lemma take_digits_pad:
  "n < 10 ^ k \<Longrightarrow> 0 < k \<Longrightarrow> lo \<le> n \<Longrightarrow> n \<le> hi \<Longrightarrow> take_digits k lo hi (pad k n @ r) = Some (n, r)"
  by (simp add: take_digits_def length_pad)

lemma trim_zeros_append: "\<exists>k. s = trim_zeros s @ replicate k (CHR ''0'')"
proof -
  let ?P = "\<lambda>c. c = CHR ''0''"
  have "rev s = takeWhile ?P (rev s) @ dropWhile ?P (rev s)" by simp
  then have "s = rev (dropWhile ?P (rev s)) @ rev (takeWhile ?P (rev s))"
    by (metis rev_append rev_rev_ident)
  moreover have "takeWhile ?P (rev s) = replicate (length (takeWhile ?P (rev s))) (CHR ''0'')"
    by (intro replicate_eqI) (auto dest: set_takeWhileD)
  ultimately show ?thesis unfolding trim_zeros_def by (metis rev_replicate)
qed

lemma digits_val_append_zeros:
  "digits_val (s @ replicate k (CHR ''0'')) = digits_val s * 10 ^ k"
proof (induction k)
  case (Suc k)
  have "digits_val (s @ replicate (Suc k) (CHR ''0'')) = digits_val ((s @ replicate k (CHR ''0'')) @ [CHR ''0''])"
    by (simp add: replicate_append_same)
  also have "\<dots> = digits_val s * 10 ^ Suc k"
    unfolding digits_val_append_digit Suc by (simp add: digit_val_def)
  finally show ?case .
qed simp

lemma take_frac_text:
  assumes "ns < 10 ^ 9"
  shows "take_frac (frac_text ns @ ''Z'') = (ns, ''Z'')"
proof (cases "ns = 0")
  case True
  then show ?thesis by (simp add: frac_text_def take_frac_def)
next
  case False
  obtain k where k: "pad 9 ns = trim_zeros (pad 9 ns) @ replicate k (CHR ''0'')"
    using trim_zeros_append by blast
  let ?t = "trim_zeros (pad 9 ns)"
  have dig: "list_all is_digit ?t" using pad_digits [of 9 ns] by (subst (asm) k) simp
  have "?t \<noteq> []"
    using k False digits_val_append_zeros [of "[]" k] digits_val_pad [of 9 ns]
    by (auto simp: digits_val_def)
  then obtain c q where c: "?t = c # q" by (cases ?t) auto
  have len: "length ?t + k = 9" using length_pad [of ns 9] assms arg_cong [OF k, of length] by simp
  have tw: "takeWhile is_digit (?t @ ''Z'') = ?t" "dropWhile is_digit (?t @ ''Z'') = ''Z''"
    using dig by (auto simp: takeWhile_append2 dropWhile_append2 list_all_iff is_digit_def)
  have "take 9 (?t @ replicate 9 (CHR ''0'')) = pad 9 ns"
    using len by (subst k) (simp add: take_replicate min_def)
  then show ?thesis using tw dig c False by (simp add: frac_text_def take_frac_def)
qed

lemma clock_split:
  fixes n :: nat
  shows "n div 86400 * 86400 + n mod 86400 div 3600 * 3600 + n mod 86400 div 60 mod 60 * 60 +
    n mod 86400 mod 60 = n"
proof -
  let ?s = "n mod 86400"
  have "?s div 3600 = ?s div 60 div 60" by (simp add: div_mult2_eq [symmetric])
  moreover have "60 * (?s div 60 div 60) + ?s div 60 mod 60 = ?s div 60" by simp
  moreover have "60 * (?s div 60) + ?s mod 60 = ?s" by simp
  moreover have "86400 * (n div 86400) + ?s = n" by simp
  ultimately show ?thesis by linarith
qed

lemma parse_time_fields:
  assumes "1 \<le> y" "y \<le> 9999" "1 \<le> m" "m \<le> 12" "1 \<le> d" "d \<le> month_len y m" "d \<le> 31"
    and "hh \<le> 23" "mm \<le> 59" "ss \<le> 59" "ns < 10 ^ 9"
  shows "parse_time (pad 4 y @ ''-'' @ pad 2 m @ ''-'' @ pad 2 d @ ''T'' @ pad 2 hh @ '':'' @
      pad 2 mm @ '':'' @ pad 2 ss @ frac_text ns @ ''Z'') =
    Some ((int (day_number y m d * 86400 + hh * 3600 + mm * 60 + ss)) * Second + int ns)"
proof -
  have "y < 10 ^ 4" "m < 10 ^ 2" "d < 10 ^ 2" "hh < 10 ^ 2" "mm < 10 ^ 2" "ss < 10 ^ 2"
    using assms by simp_all
  then show ?thesis
    using assms unfolding parse_time_def
    by (simp add: take_digits_pad take_frac_text take_zone_def del: of_nat_add of_nat_mult)
qed

theorem parse_time_text:
  assumes "time_text t = Some s"
  shows "parse_time s = Some t"
proof -
  let ?secs = "nat t div 1000000000"
  obtain y r where y: "civil_year 1 (?secs div 86400) = (y, r)" by force
  obtain m d where m: "civil_month y [1..<13] r = (m, d)" by force
  let ?s = "?secs mod 86400"
  note civ = day_number_civil [OF y m]
  have t: "0 \<le> t" and y9: "y \<le> 9999"
    and s: "s = pad 4 y @ ''-'' @ pad 2 m @ ''-'' @ pad 2 d @ ''T'' @ pad 2 (?s div 3600) @ '':'' @
        pad 2 (?s div 60 mod 60) @ '':'' @ pad 2 (?s mod 60) @ frac_text (nat t mod 1000000000) @ ''Z''"
    using assms y m by (auto simp: time_text_def Let_def split: if_splits)
  have d31: "d \<le> 31" using civ(5) by (auto simp: month_len_def split: if_splits)
  have hh: "?s div 3600 \<le> 23" using mod_less_divisor [of 86400 ?secs] by (simp del: mod_less_divisor)
  have "day_number y m d * 86400 + ?s div 3600 * 3600 + ?s div 60 mod 60 * 60 + ?s mod 60 = ?secs"
    unfolding civ(6) by (rule clock_split)
  then have "(int (day_number y m d * 86400 + ?s div 3600 * 3600 + ?s div 60 mod 60 * 60 + ?s mod 60))
      * Second + int (nat t mod 1000000000) = int (?secs * 1000000000 + nat t mod 1000000000)"
    by (simp only: of_nat_add of_nat_mult of_nat_numeral)
  also have "\<dots> = t" using t by (simp only: div_mult_mod_eq int_nat_eq if_True)
  finally have val: "(int (day_number y m d * 86400 + ?s div 3600 * 3600 + ?s div 60 mod 60 * 60 + ?s mod 60))
      * Second + int (nat t mod 1000000000) = t" .
  have sixty: "n mod 60 \<le> 59" for n :: nat
    using mod_less_divisor [of 60 n] by linarith
  have "parse_time s = Some ((int (day_number y m d * 86400 + ?s div 3600 * 3600 +
      ?s div 60 mod 60 * 60 + ?s mod 60)) * Second + int (nat t mod 1000000000))"
    unfolding s by (rule parse_time_fields) (use civ y9 d31 hh sixty in simp_all)
  then show ?thesis unfolding val .
qed

lemma plain_append [simp]: "plain (a @ b) \<longleftrightarrow> plain a \<and> plain b"
  by (simp add: plain_def)

lemma plain_Cons [simp]: "plain (c # b) \<longleftrightarrow> plain_char c \<and> plain b"
  by (simp add: plain_def)

lemma plain_Nil [simp]: "plain []"
  by (simp add: plain_def)

lemma plain_digits: "list_all is_digit s \<Longrightarrow> plain s"
  by (induction s) (auto simp: is_digit_def plain_char_def)

lemma plain_pad [simp]: "plain (pad k n)"
  by (rule plain_digits) simp

lemma plain_trim_zeros: "plain s \<Longrightarrow> plain (trim_zeros s)"
  using trim_zeros_append [of s] by (metis plain_append)

lemma time_text_plain: "time_text t = Some s \<Longrightarrow> plain s"
  by (auto simp: time_text_def Let_def frac_text_def plain_char_def plain_trim_zeros
      split: if_splits prod.splits)

lemma dec_time_text:
  "time_text t = Some s \<Longrightarrow> dec_time upd (JStr s) a = Some (upd (\<lambda>_. t) a)"
  by (simp add: dec_time_def parse_time_text)

lemma length_trim_zeros: "length (trim_zeros s) \<le> length s"
  using length_dropWhile_le [of "\<lambda>c. c = CHR ''0''" "rev s"] by (simp add: trim_zeros_def)

lemma length_frac_text: "ns < 10 ^ 9 \<Longrightarrow> length (frac_text ns) \<le> 10"
  using length_trim_zeros [of "pad 9 ns"] length_pad [of ns 9] by (simp add: frac_text_def)

lemma length_time_text:
  assumes "time_text t = Some s"
  shows "length s \<le> 30"
proof -
  let ?secs = "nat t div 1000000000"
  obtain y r where y: "civil_year 1 (?secs div 86400) = (y, r)" by force
  obtain m d where m: "civil_month y [1..<13] r = (m, d)" by force
  let ?s = "?secs mod 86400"
  note civ = day_number_civil [OF y m]
  have y9: "y < 10 ^ 4"
    and s: "s = pad 4 y @ ''-'' @ pad 2 m @ ''-'' @ pad 2 d @ ''T'' @ pad 2 (?s div 3600) @ '':'' @
        pad 2 (?s div 60 mod 60) @ '':'' @ pad 2 (?s mod 60) @ frac_text (nat t mod 1000000000) @ ''Z''"
    using assms y m by (auto simp: time_text_def Let_def split: if_splits)
  have "d < 10 ^ 2" using civ(5) by (auto simp: month_len_def split: if_splits)
  moreover have "?s div 3600 < 10 ^ 2"
    using mod_less_divisor [of 86400 ?secs] by (simp del: mod_less_divisor)
  moreover have sixty: "n mod 60 < 10 ^ 2" for n :: nat
    using mod_less_divisor [of 60 n] by (simp del: mod_less_divisor)
  moreover have "m < 10 ^ 2" using civ(3) by simp
  moreover have fr: "length (frac_text (nat t mod 1000000000)) \<le> 10"
    by (rule length_frac_text) simp
  ultimately show ?thesis
    using y9 fr unfolding s by (simp add: length_pad del: power_numeral)
qed

end
