(* ===== verification/Go_Float.thy ===== *)
theory Go_Float
  imports Complex_Main Go_Time
begin

text \<open>
  IEEE double precision as far as the program uses it: conversion from integers, the four
  operations and comparison, each rounded to 53 significant bits, ties to even. The
  magnitudes that occur (counters below \<open>2 ^ 64\<close>, times of at least a nanosecond) stay far
  away from overflow and from subnormal numbers, which are not modelled; infinities and NaN
  come from division by zero.
\<close>

datatype f64 = Fin rat | PosInf | NegInf | NaN

fun bit_length :: "nat \<Rightarrow> nat" where
  "bit_length n = (if n = 0 then 0 else Suc (bit_length (n div 2)))"

declare bit_length.simps [simp del]

definition pow2 :: "int \<Rightarrow> rat" where
  "pow2 e = (if 0 \<le> e then 2 ^ nat e else 1 / 2 ^ nat (- e))"

text \<open>Round to the nearest integer, ties to even.\<close>

definition round_even :: "rat \<Rightarrow> int" where
  "round_even x =
     (let n = \<lfloor>x\<rfloor>; d = x - of_int n in
      if d < 1 / 2 then n else if 1 / 2 < d then n + 1 else if even n then n else n + 1)"

text \<open>The exponent of a positive rational: \<open>2 ^ e \<le> x < 2 ^ (e + 1)\<close>.\<close>

definition exponent :: "rat \<Rightarrow> int" where
  "exponent x =
     (case quotient_of x of (p, q) \<Rightarrow>
        let k = int (bit_length (nat p)) - int (bit_length (nat q))
        in if pow2 k \<le> x then k else k - 1)"

definition round53 :: "rat \<Rightarrow> rat" where
  "round53 x =
     (if x = 0 then 0
      else let u = pow2 (exponent \<bar>x\<bar> - 52) in sgn x * (of_int (round_even (\<bar>x\<bar> / u)) * u))"

definition f64_of_int :: "int \<Rightarrow> f64" where
  "f64_of_int i = Fin (round53 (of_int i))"

definition f64_of_uint :: "u64 \<Rightarrow> f64" where
  "f64_of_uint w = f64_of_int (uint w)"

fun f64_add :: "f64 \<Rightarrow> f64 \<Rightarrow> f64" where
  "f64_add (Fin a) (Fin b) = Fin (round53 (a + b))"
| "f64_add NaN _ = NaN"
| "f64_add _ NaN = NaN"
| "f64_add PosInf NegInf = NaN"
| "f64_add NegInf PosInf = NaN"
| "f64_add PosInf _ = PosInf"
| "f64_add NegInf _ = NegInf"
| "f64_add _ PosInf = PosInf"
| "f64_add _ NegInf = NegInf"

fun f64_neg :: "f64 \<Rightarrow> f64" where
  "f64_neg (Fin a) = Fin (- a)"
| "f64_neg PosInf = NegInf"
| "f64_neg NegInf = PosInf"
| "f64_neg NaN = NaN"

definition f64_sub :: "f64 \<Rightarrow> f64 \<Rightarrow> f64" where
  "f64_sub a b = f64_add a (f64_neg b)"

definition inf_of_sign :: "rat \<Rightarrow> f64" where
  "inf_of_sign s = (if 0 < s then PosInf else if s < 0 then NegInf else NaN)"

fun f64_sign :: "f64 \<Rightarrow> rat" where
  "f64_sign (Fin a) = sgn a"
| "f64_sign PosInf = 1"
| "f64_sign NegInf = - 1"
| "f64_sign NaN = 0"

fun f64_mul :: "f64 \<Rightarrow> f64 \<Rightarrow> f64" where
  "f64_mul (Fin a) (Fin b) = Fin (round53 (a * b))"
| "f64_mul NaN _ = NaN"
| "f64_mul _ NaN = NaN"
| "f64_mul a b = inf_of_sign (f64_sign a * f64_sign b)"

fun f64_div :: "f64 \<Rightarrow> f64 \<Rightarrow> f64" where
  "f64_div (Fin a) (Fin b) = (if b = 0 then inf_of_sign a else Fin (round53 (a / b)))"
| "f64_div NaN _ = NaN"
| "f64_div _ NaN = NaN"
| "f64_div (Fin a) _ = Fin 0"
| "f64_div PosInf (Fin b) = (if b < 0 then NegInf else PosInf)"
| "f64_div NegInf (Fin b) = (if b < 0 then PosInf else NegInf)"
| "f64_div _ _ = NaN"

text \<open>Comparison: every comparison with NaN is false.\<close>

fun f64_less :: "f64 \<Rightarrow> f64 \<Rightarrow> bool" where
  "f64_less (Fin a) (Fin b) = (a < b)"
| "f64_less NaN _ = False"
| "f64_less _ NaN = False"
| "f64_less NegInf b = (b \<noteq> NegInf)"
| "f64_less _ PosInf = True"
| "f64_less _ _ = False"

text \<open>\<open>Duration.Seconds\<close>: whole seconds plus the rest divided by a billion.\<close>

definition Seconds :: "duration \<Rightarrow> f64" where
  "Seconds d =
     (let s = sgn d * (\<bar>d\<bar> div Second); r = d - s * Second in
      f64_add (f64_of_int s) (f64_div (f64_of_int r) (Fin 1000000000)))"

section \<open>Exact results\<close>

lemma pow2_powi: "pow2 e = 2 powi e"
  by (simp add: pow2_def power_int_def field_simps)

lemma bit_length_bounds:
  "0 < n \<Longrightarrow> 2 ^ (bit_length n - 1) \<le> n \<and> n < 2 ^ bit_length n \<and> 0 < bit_length n"
proof (induction n rule: bit_length.induct)
  case (1 n)
  show ?case
  proof (cases "n = 1")
    case True
    then show ?thesis by (simp add: bit_length.simps)
  next
    case False
    with "1.prems" have n: "n \<noteq> 0" "0 < n div 2" by auto
    define k where "k = bit_length (n div 2)"
    from "1.IH" [OF n] have "2 ^ (k - 1) \<le> n div 2" "n div 2 < 2 ^ k" "0 < k"
      by (simp_all add: k_def)
    moreover have "bit_length n = Suc k" using n by (simp add: k_def bit_length.simps [of n])
    moreover have "(2 :: nat) ^ k = 2 * 2 ^ (k - 1)" using \<open>0 < k\<close> by (cases k) simp_all
    ultimately show ?thesis by auto
  qed
qed

lemma exponent_bounds:
  assumes "0 < x" shows "pow2 (exponent x) \<le> x \<and> x < 2 * pow2 (exponent x)"
proof -
  obtain p q where pq: "quotient_of x = (p, q)" by force
  have q: "0 < q" and x: "x = of_int p / of_int q"
    using quotient_of_denom_pos [OF pq] quotient_of_div [OF pq] by simp_all
  with assms have p: "0 < p" by (simp add: zero_less_divide_iff)
  define bp where "bp = bit_length (nat p)"
  define bq where "bq = bit_length (nat q)"
  have b: "2 ^ (bp - 1) \<le> nat p" "nat p < 2 ^ bp" "0 < bp" "2 ^ (bq - 1) \<le> nat q" "nat q < 2 ^ bq" "0 < bq"
    using bit_length_bounds [of "nat p"] bit_length_bounds [of "nat q"] p q by (simp_all add: bp_def bq_def)
  have pr: "(2 :: rat) ^ (bp - 1) \<le> of_int p" "(of_int p :: rat) < 2 ^ bp"
    using b(1,2) p by (metis int_nat_eq less_imp_le of_int_le_iff of_int_of_nat_eq of_int_power of_nat_le_iff of_nat_numeral of_nat_power of_int_numeral)
      (metis b(2) p int_nat_eq less_imp_le of_int_less_iff of_int_of_nat_eq of_int_power of_nat_less_iff of_nat_numeral of_nat_power of_int_numeral)
  have qr: "(2 :: rat) ^ (bq - 1) \<le> of_int q" "(of_int q :: rat) < 2 ^ bq"
    using b(4,5) q by (metis int_nat_eq less_imp_le of_int_le_iff of_int_of_nat_eq of_int_power of_nat_le_iff of_nat_numeral of_nat_power of_int_numeral)
      (metis b(5) q int_nat_eq less_imp_le of_int_less_iff of_int_of_nat_eq of_int_power of_nat_less_iff of_nat_numeral of_nat_power of_int_numeral)
  let ?k = "int bp - int bq"
  have pk: "(2 :: rat) powi ?k = 2 ^ bp / 2 ^ bq" by (simp add: power_int_diff)
  have up: "x < 2 * 2 powi ?k"
  proof -
    have "of_int p / of_int q < (2 :: rat) ^ bp / 2 ^ (bq - 1)"
      using pr qr p q by (intro frac_less) simp_all
    also have "\<dots> = 2 * (2 ^ bp / 2 ^ bq)" using b(6) by (cases bq) simp_all
    finally show ?thesis by (simp add: x pk)
  qed
  have low: "2 powi (?k - 1) < x"
  proof -
    have "(2 :: rat) ^ (bp - 1) / 2 ^ bq < of_int p / of_int q"
      using pr qr p q by (intro frac_less2) simp_all
    moreover have "(2 :: rat) powi (?k - 1) = 2 ^ (bp - 1) / 2 ^ bq"
      using b(3) by (cases bp) (simp_all add: power_int_diff)
    ultimately show ?thesis by (simp add: x)
  qed
  have ex: "exponent x = (if pow2 ?k \<le> x then ?k else ?k - 1)"
    by (simp add: exponent_def pq Let_def bp_def bq_def)
  show ?thesis
  proof (cases "pow2 ?k \<le> x")
    case True
    with ex up show ?thesis by (simp add: pow2_powi)
  next
    case False
    then have "x < 2 * 2 powi (?k - 1)" by (simp add: pow2_powi power_int_diff)
    with ex False low show ?thesis by (simp add: pow2_powi)
  qed
qed

text \<open>A number with at most 53 significant bits is its own rounding.\<close>

lemma round53_exact:
  assumes x: "x = of_int n * 2 powi e" and n: "\<bar>n\<bar> < 2 ^ 53"
  shows "round53 x = x"
proof (cases "x = 0")
  case False
  define E where "E = exponent \<bar>x\<bar>"
  have E: "2 powi E \<le> \<bar>x\<bar>"
    using exponent_bounds [of "\<bar>x\<bar>"] False by (simp add: E_def pow2_powi)
  have ax: "\<bar>x\<bar> = of_int \<bar>n\<bar> * 2 powi e" by (simp add: x abs_mult)
  have "(of_int \<bar>n\<bar> :: rat) < of_int (2 ^ 53)" using n by (subst of_int_less_iff)
  then have "\<bar>x\<bar> < 2 powi 53 * 2 powi e" unfolding ax by (intro mult_strict_right_mono) simp_all
  then have "\<bar>x\<bar> < 2 powi (53 + e)" by (simp add: power_int_add)
  with E have "(2 :: rat) powi E < 2 powi (53 + e)" by simp
  then have "E < 53 + e"
    using power_int_increasing [of "53 + e" E "2 :: rat"] by (cases "53 + e \<le> E") simp_all
  then have m: "\<bar>x\<bar> / 2 powi (E - 52) = of_int (\<bar>n\<bar> * 2 ^ nat (e - E + 52))"
  proof -
    have "(2 :: rat) powi e / 2 powi (E - 52) = 2 powi (e - (E - 52))" by (simp add: power_int_diff)
    also have "\<dots> = 2 ^ nat (e - E + 52)" using \<open>E < 53 + e\<close> by (simp add: power_int_def algebra_simps)
    finally have d: "(2 :: rat) powi e / 2 powi (E - 52) = 2 ^ nat (e - E + 52)" .
    have "\<bar>x\<bar> / 2 powi (E - 52) = of_int \<bar>n\<bar> * (2 powi e / 2 powi (E - 52))" by (simp add: ax)
    then show ?thesis unfolding d by simp
  qed
  have ev: "round_even (of_int k) = k" for k by (simp add: round_even_def)
  have "of_int (round_even (\<bar>x\<bar> / 2 powi (E - 52))) = \<bar>x\<bar> / 2 powi (E - 52)"
    unfolding m by (simp only: ev)
  then have "round53 x = sgn x * (\<bar>x\<bar> / 2 powi (E - 52) * 2 powi (E - 52))"
    using False unfolding round53_def Let_def pow2_powi E_def by (simp only: if_False)
  also have "\<dots> = x" by (simp add: sgn_mult_abs)
  finally show ?thesis .
qed (simp add: round53_def)

lemma round53_int [simp]: "\<bar>n\<bar> < 2 ^ 53 \<Longrightarrow> round53 (of_int n) = of_int n"
  using round53_exact [of "of_int n" n 0] by simp

lemma round53_numeral [simp]:
  "(numeral k :: int) < 2 ^ 53 \<Longrightarrow> round53 (numeral k) = numeral k" "round53 1 = 1" "round53 0 = 0"
  using round53_int [of "numeral k"] round53_int [of 1] by (simp_all add: round53_def)

lemma f64_of_uint_exact: "uint w < 2 ^ 53 \<Longrightarrow> f64_of_uint w = Fin (of_int (uint w))"
  using round53_int [of "uint w"] by (simp add: f64_of_uint_def f64_of_int_def)

lemma f64_div_exact:
  "a / b = of_int n * 2 powi e \<Longrightarrow> \<bar>n\<bar> < 2 ^ 53 \<Longrightarrow> b \<noteq> 0 \<Longrightarrow> f64_div (Fin a) (Fin b) = Fin (a / b)"
  using round53_exact [of "a / b" n e] by simp

lemma f64_mul_exact:
  "a * b = of_int n * 2 powi e \<Longrightarrow> \<bar>n\<bar> < 2 ^ 53 \<Longrightarrow> f64_mul (Fin a) (Fin b) = Fin (a * b)"
  using round53_exact [of "a * b" n e] by simp

end
