(* ===== verification/Iperf_Types.thy ===== *)
theory Iperf_Types
  imports Go_Float
begin

text \<open>
  The file \<open>pkg/iperf/iperf.go\<close>: the control states, the constants and the data types of the
  program, each struct as a record with the source's field names (a prime
  where Isabelle or its library uses the name). Pointers between the structs are resolved as follows: a
  test owns its streams, so the back pointer \<open>sp.test\<close> is not stored; an interface value of
  type \<open>protocol\<close>, and the method values \<open>sp.snd\<close> and \<open>sp.rcv\<close> taken from it, are the
  constructor of the implementation; listeners and timers, which are shared, are references
  into the heap of the process (type \<open>world\<close>).
\<close>

section \<open>Constants\<close>

definition IPERF_START :: uint where [simp]: "IPERF_START = 1"
definition IPERF_DONE :: uint where [simp]: "IPERF_DONE = 2"
definition IPERF_CREATE_STREAM :: uint where [simp]: "IPERF_CREATE_STREAM = 3"
definition IPERF_EXCHANGE_PARAMS :: uint where [simp]: "IPERF_EXCHANGE_PARAMS = 4"
definition IPERF_EXCHANGE_RESULT :: uint where [simp]: "IPERF_EXCHANGE_RESULT = 5"
definition IPERF_DISPLAY_RESULT :: uint where [simp]: "IPERF_DISPLAY_RESULT = 6"
definition SENDER_STREAM :: int where [simp]: "SENDER_STREAM = 20"
definition RECEIVER_STREAM :: int where [simp]: "RECEIVER_STREAM = 21"
definition TEST_START :: uint where [simp]: "TEST_START = 31"
definition TEST_RUNNING :: uint where [simp]: "TEST_RUNNING = 32"
definition TEST_END :: uint where [simp]: "TEST_END = 34"
definition CLIENT_TERMINATE :: uint where [simp]: "CLIENT_TERMINATE = 50"
definition SERVER_TERMINATE :: uint where [simp]: "SERVER_TERMINATE = 51"
definition IPERF_SENDER :: bool where [simp]: "IPERF_SENDER = True"
definition IPERF_RECEIVER :: bool where [simp]: "IPERF_RECEIVER = False"

definition TCP_NAME :: string where "TCP_NAME = ''tcp''"
definition UDP_NAME :: string where "UDP_NAME = ''udp''"
definition RUDP_NAME :: string where "RUDP_NAME = ''rudp''"
definition KCP_NAME :: string where "KCP_NAME = ''kcp''"

definition ProtocolList :: "string list" where
  "ProtocolList = [''tcp'', ''udp'', ''rudp'', ''kcp'']"

definition DEFAULT_TCP_BLKSIZE :: uint where "DEFAULT_TCP_BLKSIZE = 128 * 1024"
definition DEFAULT_UDP_BLKSIZE :: uint where "DEFAULT_UDP_BLKSIZE = 1460"
definition DEFAULT_RUDP_BLKSIZE :: uint where "DEFAULT_RUDP_BLKSIZE = 4 * 1024"
definition MB_TO_B :: int where "MB_TO_B = 1024 * 1024"
definition KB_TO_B :: int where "KB_TO_B = 1024"
definition ACCEPT_SIGNAL :: u32 where [simp]: "ACCEPT_SIGNAL = 1"

lemmas proto_names = TCP_NAME_def UDP_NAME_def RUDP_NAME_def KCP_NAME_def

section \<open>The environment: sockets, clocks and foreign counters\<close>

text \<open>
  What a socket will do is given by scripts: the pieces in which incoming bytes arrive, the
  errors that reads and writes report. Whether an error is a \<open>*net.OpError\<close> is all the
  program looks at. A write without a script succeeds whole; writes do not block.
\<close>

datatype net_err = OpError | OtherError

datatype read_ev = Chunk "u8 list" | ReadRet int "net_err option"

datatype write_ev = WriteRet int "net_err option"

datatype sockopt =
  SetReadBuffer int
| SetWriteBuffer int
| SetWindowSize int int
| SetStreamMode bool
| SetDSCP int
| SetMtu int
| SetACKNoDelay bool
| SetDeadline time
| SetNoDelay int int int int
| SetTCPNoDelay bool

record conn =
  c_remote :: string
  c_rd :: "read_ev list"
  c_wr :: "write_ev list"
  c_sent :: "u8 list"
  c_closed :: bool
  c_close_err :: bool
  c_opts :: "sockopt list"

datatype conn_res = GotConn conn | ConnErr | ConnWait

text \<open>The counters of \<open>DefaultSnmp\<close> of the RUDP and KCP packages, and \<open>TCP_INFO\<close>.\<close>

record snmp =
  RetransSegs :: u64
  LostSegs :: u64
  EarlyRetransSegs :: u64
  FastRetransSegs :: u64
  FECRecovered :: u64
  SnmpInPkts :: u64
  SnmpInSegs :: u64
  SnmpOutPkts :: u64
  SnmpOutSegs :: u64
  RepeatSegs :: u64

record tcp_info =
  Tcpi_rtt :: u32
  Tcpi_rto :: u32
  Tcpi_total_retrans :: u32

text \<open>
  One answer of the outside world. Every call that leaves the program (the clock, a dial, an
  accept, a setter of a foreign package, its counters, the level of the logger) reads the next
  one.
\<close>

record env_sample =
  e_now :: time
  e_conn :: conn_res
  e_err :: bool
  e_rudp_snmp :: snmp
  e_kcp_snmp :: snmp
  e_rto :: u32
  e_srttvar :: "32 word"
  e_tcp_info :: tcp_info
  e_verbose :: bool
  e_rows :: "(string \<times> string) list"

section \<open>Timers\<close>

datatype timer_proc =
  ServerTimer | ServerStats | ServerReport
| ClientTimer | ClientStats | ClientReport
| SendTick nat

text \<open>
  The heap object behind an \<open>ITimer\<close> or \<open>ITicker\<close>: the runtime timer, the channel
  \<open>done\<close> (one slot), and the goroutine that serves both.
\<close>

record timer_obj =
  o_proc :: timer_proc
  o_periodic :: bool
  o_period :: duration
  o_armed :: bool
  o_done :: "bool list"
  o_alive :: bool
  o_cnt :: uint
  o_max :: uint

text \<open>\<open>ITimer\<close> and \<open>ITicker\<close>: the pointer to the runtime timer, and the channel.\<close>

record ITimer =
  it_timer :: "nat option"
  it_done :: "nat option"

definition nil_timer :: ITimer where
  "nil_timer = \<lparr>it_timer = None, it_done = None\<rparr>"

section \<open>Streams and their results\<close>

record iperf_interval_results =
  bytes_transfered :: u64
  interval_start_time :: time
  interval_end_time :: time
  interval_dur :: duration
  rtt :: uint
  rto :: uint
  interval_lost :: uint
  interval_early_retrans :: uint
  interval_fast_retrans :: uint
  interval_retrans :: uint
  interval_packet_cnt :: uint
  omitted :: uint

definition zero_interval :: iperf_interval_results where
  "zero_interval = \<lparr>bytes_transfered = 0, interval_start_time = 0, interval_end_time = 0,
     interval_dur = 0, rtt = 0, rto = 0, interval_lost = 0, interval_early_retrans = 0,
     interval_fast_retrans = 0, interval_retrans = 0, interval_packet_cnt = 0, omitted = 0\<rparr>"

record iperf_stream_results =
  bytes_received :: u64
  bytes_sent :: u64
  bytes_received_this_interval :: u64
  bytes_sent_this_interval :: u64
  bytes_sent_omit :: u64
  stream_retrans :: uint
  stream_prev_total_retrans :: uint
  stream_lost :: uint
  stream_prev_total_lost :: uint
  stream_early_retrans :: uint
  stream_prev_total_early_retrans :: uint
  stream_fast_retrans :: uint
  stream_prev_total_fast_retrans :: uint
  stream_recovers :: uint
  stream_in_segs :: uint
  stream_in_pkts :: uint
  stream_out_segs :: uint
  stream_out_pkts :: uint
  stream_max_rtt :: uint
  stream_min_rtt :: uint
  stream_sum_rtt :: uint
  stream_cnt_rtt :: uint
  stream_repeat_segs :: uint
  start_time :: time
  end_time :: time
  start_time_fixed :: time
  interval_results :: "iperf_interval_results list"

definition zero_results :: iperf_stream_results where
  "zero_results = \<lparr>bytes_received = 0, bytes_sent = 0, bytes_received_this_interval = 0,
     bytes_sent_this_interval = 0, bytes_sent_omit = 0, stream_retrans = 0,
     stream_prev_total_retrans = 0, stream_lost = 0, stream_prev_total_lost = 0,
     stream_early_retrans = 0, stream_prev_total_early_retrans = 0, stream_fast_retrans = 0,
     stream_prev_total_fast_retrans = 0, stream_recovers = 0, stream_in_segs = 0,
     stream_in_pkts = 0, stream_out_segs = 0, stream_out_pkts = 0, stream_max_rtt = 0,
     stream_min_rtt = 0, stream_sum_rtt = 0, stream_cnt_rtt = 0, stream_repeat_segs = 0,
     start_time = 0, end_time = 0, start_time_fixed = 0, interval_results = []\<rparr>"

text \<open>The implementations of the interface \<open>protocol\<close>.\<close>

datatype protocol = TCPProto | rudpProto | kcpProto

record iperf_stream =
  role :: int
  result :: iperf_stream_results
  canSend :: bool
  conn :: conn
  sendTicker :: ITimer
  buffer :: "u8 list"
  rcv :: protocol
  snd' :: protocol

record iperfSetting =
  blksize :: uint
  burst :: bool
  rate :: uint
  pacingTime :: uint
  bytes :: u64
  blocks :: u64
  sndWnd :: uint
  rcvWnd :: uint
  readBufSize :: uint
  writeBufSize :: uint
  flushInterval :: uint
  noCong :: bool
  fastResend :: uint
  dataShards :: uint
  parityShards :: uint

definition zero_setting :: iperfSetting where
  "zero_setting = \<lparr>blksize = 0, burst = False, rate = 0, pacingTime = 0, bytes = 0, blocks = 0,
     sndWnd = 0, rcvWnd = 0, readBufSize = 0, writeBufSize = 0, flushInterval = 0,
     noCong = False, fastResend = 0, dataShards = 0, parityShards = 0\<rparr>"

section \<open>Messages of the control connection\<close>

record stream_params =
  ProtoName :: string
  Reverse :: bool
  Duration :: uint
  NoDelay :: bool
  Interval :: uint
  StreamNum :: uint
  Blksize :: uint
  SndWnd :: uint
  RcvWnd :: uint
  ReadBufSize :: uint
  WriteBufSize :: uint
  FlushInterval :: uint
  NoCong :: bool
  FastResend :: uint
  DataShards :: uint
  ParityShards :: uint
  Burst :: bool
  Rate :: uint
  PacingTime :: uint

definition zero_params :: stream_params where
  "zero_params = \<lparr>ProtoName = [], Reverse = False, Duration = 0, NoDelay = False, Interval = 0,
     StreamNum = 0, Blksize = 0, SndWnd = 0, RcvWnd = 0, ReadBufSize = 0, WriteBufSize = 0,
     FlushInterval = 0, NoCong = False, FastResend = 0, DataShards = 0, ParityShards = 0,
     Burst = False, Rate = 0, PacingTime = 0\<rparr>"

record stream_results_exchange =
  Id' :: uint
  Bytes :: u64
  Retrans :: uint
  Jitter :: uint
  InPkts :: uint
  OutPkts :: uint
  InSegs :: uint
  OutSegs :: uint
  Recovered :: uint
  StartTime :: time
  EndTime :: time

definition zero_exchange :: stream_results_exchange where
  "zero_exchange = \<lparr>Id' = 0, Bytes = 0, Retrans = 0, Jitter = 0, InPkts = 0, OutPkts = 0,
     InSegs = 0, OutSegs = 0, Recovered = 0, StartTime = 0, EndTime = 0\<rparr>"

section \<open>The test and the process around it\<close>

text \<open>
  \<open>statsCallback\<close> and \<open>reporterCallback\<close> record whether the callback is set; when it is,
  it is the one \<open>NewIperfTest\<close> stores.
\<close>

record iperf_test =
  isServer :: bool
  mode :: bool
  reverse :: bool
  addr :: string
  port :: uint
  state :: uint
  duration :: uint
  noDelay :: bool
  interval :: uint
  proto :: "protocol option"
  protocols :: "protocol list"
  listener :: "nat option"
  protoListener :: "nat option"
  ctrlConn :: "conn option"
  ctrlChan :: "uint list"
  setting :: iperfSetting
  streamNum :: uint
  streams :: "iperf_stream list"
  bytesReceived :: u64
  blocksReceived :: u64
  bytesSent :: u64
  blocksSent :: u64
  done' :: bool
  timer :: ITimer
  statsTicker :: ITimer
  reportTicker :: ITimer
  chStats :: "bool list"
  statsCallback :: bool
  reporterCallback :: bool

text \<open>One call of \<open>fmt.Printf\<close>: the format and the arguments.\<close>

datatype fmt_arg = AInt int | AStr string | ABool bool | AFloat f64

datatype out_ev = Printf string "fmt_arg list"

text \<open>
  The process: the test, the heap of listeners (whether each is closed) and of timers, what
  was printed, and the answers of the outside world.
\<close>

record world = iperf_test +
  listeners :: "bool list"
  timers :: "timer_obj list"
  out :: "out_ev list"
  env :: "nat \<Rightarrow> env_sample"
  ticks :: nat

definition env_next :: "(env_sample, world) go" where
  "env_next w = (Ret (env w (ticks w)), w\<lparr>ticks := Suc (ticks w)\<rparr>)"

definition time_Now :: "(time, world) go" where
  "time_Now = go_bind env_next (\<lambda>e. go_return (e_now e))"

definition go_Printf :: "string \<Rightarrow> fmt_arg list \<Rightarrow> (unit, world) go" where
  "go_Printf fmt args = go_modify (\<lambda>w. w\<lparr>out := out w @ [Printf fmt args]\<rparr>)"

lemma env_next_run [go_simps]: "env_next w = (Ret (env w (ticks w)), w\<lparr>ticks := Suc (ticks w)\<rparr>)"
  by (simp add: env_next_def)

lemma time_Now_run [go_simps]:
  "time_Now w = (Ret (e_now (env w (ticks w))), w\<lparr>ticks := Suc (ticks w)\<rparr>)"
  by (simp add: time_Now_def go_simps)

lemma go_Printf_run [go_simps]: "go_Printf fmt args w = (Ret (), w\<lparr>out := out w @ [Printf fmt args]\<rparr>)"
  by (simp add: go_Printf_def go_simps)

section \<open>The channels of a test\<close>

definition ctrlChan_cap :: nat where [simp]: "ctrlChan_cap = 5"
definition chStats_cap :: nat where [simp]: "chStats_cap = 1"

definition ctrl_send :: "uint \<Rightarrow> (unit, world) go" where
  "ctrl_send = chan_send ctrlChan ctrlChan_update ctrlChan_cap"

definition ctrl_recv :: "(uint, world) go" where
  "ctrl_recv = chan_recv ctrlChan ctrlChan_update"

definition stats_send :: "(unit, world) go" where
  "stats_send = chan_send chStats chStats_update chStats_cap True"

definition stats_recv :: "(bool, world) go" where
  "stats_recv = chan_recv chStats chStats_update"

interpretation ctrl: channel_field "ctrlChan :: world \<Rightarrow> uint list" ctrlChan_update ctrlChan_cap
  by unfold_locales (simp_all add: comp_def)

interpretation stats: channel_field "chStats :: world \<Rightarrow> bool list" chStats_update chStats_cap
  by unfold_locales (simp_all add: comp_def)

lemma ctrl_send_run [go_simps]:
  "length (ctrlChan w) < 5 \<Longrightarrow> ctrl_send v w = (Ret (), w\<lparr>ctrlChan := ctrlChan w @ [v]\<rparr>)"
  using ctrl.send_room [of w v] by (simp add: ctrl_send_def)

lemma ctrl_send_full [go_simps]: "\<not> length (ctrlChan w) < 5 \<Longrightarrow> ctrl_send v w = (Blocked, w)"
  using ctrl.send_full [of w v] by (simp add: ctrl_send_def)

lemma stats_send_run [go_simps]: "chStats w = [] \<Longrightarrow> stats_send w = (Ret (), w\<lparr>chStats := [True]\<rparr>)"
  by (simp add: stats_send_def chan_send_def)

lemma stats_send_full [go_simps]: "chStats w \<noteq> [] \<Longrightarrow> stats_send w = (Blocked, w)"
  by (simp add: stats_send_def chan_send_def)

lemma stats_recv_run [go_simps]: "chStats w = b # q \<Longrightarrow> stats_recv w = (Ret b, w\<lparr>chStats := q\<rparr>)"
  by (simp add: stats_recv_def chan_recv_def)

lemma stats_recv_empty [go_simps]: "chStats w = [] \<Longrightarrow> stats_recv w = (Blocked, w)"
  by (simp add: stats_recv_def chan_recv_def)

end
