(* ===== verification/Net_Conn.thy ===== *)
theory Net_Conn
  imports Iperf_Types
begin

text \<open>
  \<open>net.Conn\<close> as the program uses it: reads that return what has arrived up to the size of
  the buffer, writes, \<open>Close\<close> (an error when closed already), and \<open>io.ReadFull\<close>. The last
  section gives access to the control connection and to the streams of a test.
\<close>

named_theorems conn_simps \<open>one operation on a connection\<close>

section \<open>Operations on a connection\<close>

text \<open>The count, the error and the bytes of \<open>c.Read(buf)\<close> with \<open>len(buf) = k\<close>.\<close>

definition conn_read :: "nat \<Rightarrow> (int \<times> net_err option \<times> u8 list, conn) go" where
  "conn_read k c =
     (if c_closed c then (Ret (0, Some OpError, []), c)
      else if k = 0 then (Ret (0, None, []), c)
      else
        (case c_rd c of
           [] \<Rightarrow> (Blocked, c)
         | Chunk bs # r \<Rightarrow>
             (Ret (int (min k (length bs)), None, take k bs),
              c\<lparr>c_rd := (if length bs \<le> k then r else Chunk (drop k bs) # r)\<rparr>)
         | ReadRet n e # r \<Rightarrow> (Ret (n, e, []), c\<lparr>c_rd := r\<rparr>)))"

definition conn_write :: "u8 list \<Rightarrow> (int \<times> net_err option, conn) go" where
  "conn_write bs c =
     (if c_closed c then (Ret (0, Some OpError), c)
      else
        (case c_wr c of
           [] \<Rightarrow> (Ret (int (length bs), None), c\<lparr>c_sent := c_sent c @ bs\<rparr>)
         | WriteRet n e # r \<Rightarrow> (Ret (n, e), c\<lparr>c_wr := r, c_sent := c_sent c @ take (nat n) bs\<rparr>)))"

text \<open>\<open>c.Close()\<close>; the result says whether it reports an error.\<close>

definition conn_close :: "(bool, conn) go" where
  "conn_close c = (if c_closed c then (Ret True, c) else (Ret (c_close_err c), c\<lparr>c_closed := True\<rparr>))"

text \<open>
  \<open>io.ReadFull\<close>: reads until the buffer is full. Every read takes an event of the script or
  fills the buffer.
\<close>

function conn_ReadFull :: "nat \<Rightarrow> u8 list \<Rightarrow> (net_err option \<times> u8 list, conn) go" where
  "conn_ReadFull need acc c =
     (if need = 0 then (Ret (None, acc), c)
      else
        (case conn_read need c of
           (Ret (n, None, bs), c') \<Rightarrow> conn_ReadFull (need - length bs) (acc @ bs) c'
         | (Ret (n, Some e, bs), c') \<Rightarrow> (Ret (Some e, acc @ bs), c')
         | (Blocked, c') \<Rightarrow> (Blocked, c')
         | (Panicked p, c') \<Rightarrow> (Panicked p, c')
         | (Exited x, c') \<Rightarrow> (Exited x, c')))"
  by pat_completeness auto
termination
  by (relation "measure (\<lambda>(need, acc, c). length (c_rd c) + (if need = 0 then 0 else 1))")
    (auto simp: conn_read_def split: if_splits list.splits read_ev.splits)

declare conn_ReadFull.simps [simp del]

lemma conn_write_ok [conn_simps]:
  "\<not> c_closed c \<Longrightarrow> c_wr c = [] \<Longrightarrow>
   conn_write bs c = (Ret (int (length bs), None), c\<lparr>c_sent := c_sent c @ bs\<rparr>)"
  by (simp add: conn_write_def)

lemma conn_write_closed [conn_simps]: "c_closed c \<Longrightarrow> conn_write bs c = (Ret (0, Some OpError), c)"
  by (simp add: conn_write_def)

lemma conn_read_closed [conn_simps]: "c_closed c \<Longrightarrow> conn_read k c = (Ret (0, Some OpError, []), c)"
  by (simp add: conn_read_def)

lemma conn_read_chunk [conn_simps]:
  "\<not> c_closed c \<Longrightarrow> c_rd c = Chunk bs # r \<Longrightarrow> length bs \<le> k \<Longrightarrow> 0 < k \<Longrightarrow>
   conn_read k c = (Ret (int (length bs), None, bs), c\<lparr>c_rd := r\<rparr>)"
  by (simp add: conn_read_def min_def)

lemma conn_write_frame:
  "conn_write bs c = (r, c') \<Longrightarrow>
   c_closed c' = c_closed c \<and> c_rd c' = c_rd c \<and> c_opts c' = c_opts c \<and> c_close_err c' = c_close_err c"
  by (auto simp: conn_write_def split: if_splits list.splits write_ev.splits)

lemma conn_write_returns: "\<exists>n e. fst (conn_write bs c) = Ret (n, e)"
  by (auto simp: conn_write_def split: list.splits write_ev.splits)

lemma conn_read_frame:
  "conn_read k c = (r, c') \<Longrightarrow>
   c_closed c' = c_closed c \<and> c_wr c' = c_wr c \<and> c_sent c' = c_sent c \<and> c_opts c' = c_opts c \<and>
   c_close_err c' = c_close_err c"
  by (auto simp: conn_read_def split: if_splits list.splits read_ev.splits)

section \<open>Byte streams cut into pieces\<close>

text \<open>The bytes that will arrive, when the script reports no error.\<close>

definition arriving :: "u8 list list \<Rightarrow> conn \<Rightarrow> bool" where
  "arriving css c \<longleftrightarrow> \<not> c_closed c \<and> c_rd c = map Chunk css"

text \<open>\<open>ReadFull\<close> delivers the same bytes however the stream was cut.\<close>

lemma ReadFull_pieces:
  "arriving css c \<Longrightarrow> need \<le> length (concat css) \<Longrightarrow>
   \<exists>css'. conn_ReadFull need acc c =
       (Ret (None, acc @ take need (concat css)), c\<lparr>c_rd := map Chunk css'\<rparr>) \<and>
     concat css' = drop need (concat css)"
proof (induction css arbitrary: need acc c)
  case Nil
  then have "c\<lparr>c_rd := map Chunk []\<rparr> = c" by (simp add: arriving_def)
  with Nil show ?case by (intro exI [of _ "[]"]) (simp add: conn_ReadFull.simps)
next
  case (Cons bs css)
  from Cons.prems have rd: "c_rd c = Chunk bs # map Chunk css" "\<not> c_closed c"
    by (simp_all add: arriving_def)
  show ?case
  proof (cases "need = 0")
    case True
    with rd have "c\<lparr>c_rd := map Chunk (bs # css)\<rparr> = c" by simp
    with True show ?thesis by (intro exI [of _ "bs # css"]) (simp add: conn_ReadFull.simps)
  next
    case need: False
    show ?thesis
    proof (cases "length bs \<le> need")
      case True
      let ?c = "c\<lparr>c_rd := map Chunk css\<rparr>"
      have "conn_read need c = (Ret (int (length bs), None, bs), ?c)"
        using rd need True by (simp add: conn_read_chunk)
      then have step: "conn_ReadFull need acc c = conn_ReadFull (need - length bs) (acc @ bs) ?c"
        using need by (simp add: conn_ReadFull.simps [of need])
      have "arriving css ?c" "need - length bs \<le> length (concat css)"
        using rd Cons.prems by (auto simp: arriving_def)
      from Cons.IH [OF this, of "acc @ bs"] show ?thesis
        using step True by (auto simp: take_append drop_append)
    next
      case False
      have "conn_read need c = (Ret (int need, None, take need bs), c\<lparr>c_rd := map Chunk (drop need bs # css)\<rparr>)"
        using rd need False by (simp add: conn_read_def min_def)
      with need False show ?thesis
        by (intro exI [of _ "drop need bs # css"])
          (simp add: conn_ReadFull.simps [of need] conn_ReadFull.simps [of 0])
    qed
  qed
qed

section \<open>The connections of a test\<close>

text \<open>\<open>test.ctrlConn\<close>: a method call on the nil interface panics.\<close>

definition ctrl_conn :: "('a, conn) go \<Rightarrow> ('a, world) go" where
  "ctrl_conn m w =
     (case ctrlConn w of
        None \<Rightarrow> (Panicked NilDeref, w)
      | Some c \<Rightarrow> (case m c of (r, c') \<Rightarrow> (r, w\<lparr>ctrlConn := Some c'\<rparr>)))"

text \<open>The stream with a given index in \<open>test.streams\<close>.\<close>

definition with_stream :: "nat \<Rightarrow> ('a, iperf_stream) go \<Rightarrow> ('a, world) go" where
  "with_stream i m w =
     (if i < length (streams w) then
        (case m (streams w ! i) of (r, sp) \<Rightarrow> (r, w\<lparr>streams := (streams w)[i := sp]\<rparr>))
      else (Panicked IndexOutOfRange, w))"

definition on_conn :: "('a, conn) go \<Rightarrow> ('a, iperf_stream) go" where
  "on_conn m sp = (case m (conn sp) of (r, c) \<Rightarrow> (r, sp\<lparr>conn := c\<rparr>))"

text \<open>\<open>for i, sp := range test.streams\<close> with a body that may return.\<close>

definition each_stream :: "(nat \<Rightarrow> ('r option, world) go) \<Rightarrow> ('r option, world) go" where
  "each_stream body w = go_each body [0..<length (streams w)] w"

lemma ctrl_conn_Some [go_simps]:
  "ctrlConn w = Some c \<Longrightarrow> m c = (r, c') \<Longrightarrow> ctrl_conn m w = (r, w\<lparr>ctrlConn := Some c'\<rparr>)"
  by (simp add: ctrl_conn_def)

lemma ctrl_conn_None [go_simps]: "ctrlConn w = None \<Longrightarrow> ctrl_conn m w = (Panicked NilDeref, w)"
  by (simp add: ctrl_conn_def)

lemma with_stream_run [go_simps]:
  "i < length (streams w) \<Longrightarrow> m (streams w ! i) = (r, sp) \<Longrightarrow>
   with_stream i m w = (r, w\<lparr>streams := (streams w)[i := sp]\<rparr>)"
  by (simp add: with_stream_def)

lemma on_conn_run [go_simps]: "m (conn sp) = (r, c) \<Longrightarrow> on_conn m sp = (r, sp\<lparr>conn := c\<rparr>)"
  by (simp add: on_conn_def)

text \<open>Invariants over the control connection and over one stream.\<close>

lemma keeps_ctrl_conn:
  assumes "\<And>w c r c'. I w \<Longrightarrow> ctrlConn w = Some c \<Longrightarrow> m c = (r, c') \<Longrightarrow> I (w\<lparr>ctrlConn := Some c'\<rparr>)"
  shows "keeps I (ctrl_conn m)"
  using assms by (auto simp: keeps_def ctrl_conn_def split: option.splits prod.splits)

lemma keeps_with_stream:
  assumes "\<And>w r sp. I w \<Longrightarrow> i < length (streams w) \<Longrightarrow> m (streams w ! i) = (r, sp) \<Longrightarrow>
    I (w\<lparr>streams := (streams w)[i := sp]\<rparr>)"
  shows "keeps I (with_stream i m)"
  using assms by (auto simp: keeps_def with_stream_def split: prod.splits)

lemma keeps_each_stream [keeps_intros]:
  assumes "\<And>i. keeps I (body i)"
  shows "keeps I (each_stream body)"
proof (rule keepsI)
  fix w assume "I w"
  with keepsD [OF keeps_each [OF assms]] show "I (snd (each_stream body w))"
    by (simp add: each_stream_def)
qed

text \<open>A loop whose body replaces each stream by a function of it.\<close>

lemma each_update_from:
  assumes body: "\<And>w i. i < length (streams w) \<Longrightarrow> P (streams w ! i) \<Longrightarrow>
      body i w = (Ret None, w\<lparr>streams := (streams w)[i := f (streams w ! i)]\<rparr>)"
    and "k + length is = length (streams w)" "is = [k..<length (streams w)]"
    and "list_all P (drop k (streams w))"
  shows "go_each body is w = (Ret None, w\<lparr>streams := take k (streams w) @ map f (drop k (streams w))\<rparr>)"
  using assms(2-4)
proof (induction "is" arbitrary: k w)
  case Nil
  then show ?case by (simp add: go_simps)
next
  case (Cons i "is")
  have lt: "k < length (streams w)" using Cons.prems(1) by simp
  with Cons.prems(2) have k: "i = k" "is = [Suc k..<length (streams w)]"
    using upt_conv_Cons [OF lt] by simp_all
  have split: "drop k (streams w) = streams w ! k # drop (Suc k) (streams w)"
    using lt by (simp add: Cons_nth_drop_Suc)
  let ?w = "w\<lparr>streams := (streams w)[k := f (streams w ! k)]\<rparr>"
  have b: "body k w = (Ret None, ?w)"
    using Cons.prems(3) split lt by (intro body) simp_all
  have "Suc k + length is = length (streams ?w)" "is = [Suc k..<length (streams ?w)]"
    "list_all P (drop (Suc k) (streams ?w))"
    using Cons.prems k split by simp_all
  from Cons.IH [OF this] b lt k(1) split show ?case
    by (simp add: go_bind_Ret take_Suc_conv_app_nth)
qed

lemma each_update:
  assumes "\<And>w i. i < length (streams w) \<Longrightarrow> P (streams w ! i) \<Longrightarrow>
      body i w = (Ret None, w\<lparr>streams := (streams w)[i := f (streams w ! i)]\<rparr>)"
    and "list_all P (streams w)"
  shows "each_stream body w = (Ret None, w\<lparr>streams := map f (streams w)\<rparr>)"
  using each_update_from [where P = P and body = body and f = f and k = 0 and w = w, OF assms(1)] assms(2)
  by (simp add: each_stream_def)

lemma each_modify:
  "each_stream (\<lambda>i. go_then (with_stream i (go_modify f)) (go_return None)) w =
    (Ret None, w\<lparr>streams := map f (streams w)\<rparr>)"
proof (rule each_update [where P = "\<lambda>_. True"])
  fix w :: world and i assume "i < length (streams w)"
  then have "with_stream i (go_modify f) w = (Ret (), w\<lparr>streams := (streams w)[i := f (streams w ! i)]\<rparr>)"
    by (simp add: with_stream_def go_modify_run)
  then show "go_then (with_stream i (go_modify f)) (go_return None) w =
      (Ret None, w\<lparr>streams := (streams w)[i := f (streams w ! i)]\<rparr>)"
    by (simp only: go_then_run go_bind_Ret go_return_run)
qed (simp add: list_all_iff)

text \<open>Closing the connections of all streams.\<close>

definition closable :: "iperf_stream \<Rightarrow> bool" where
  "closable sp \<longleftrightarrow> \<not> c_closed (conn sp) \<and> \<not> c_close_err (conn sp)"

definition shut :: "iperf_stream \<Rightarrow> iperf_stream" where
  "shut sp = sp\<lparr>conn := (conn sp)\<lparr>c_closed := True\<rparr>\<rparr>"

lemma each_close:
  assumes "list_all closable (streams w)"
  shows "each_stream (\<lambda>i. go_bind (with_stream i (on_conn conn_close)) (\<lambda>err.
      go_return (if err then Some x else None))) w = (Ret None, w\<lparr>streams := map shut (streams w)\<rparr>)"
proof (rule each_update [where P = closable, OF _ assms])
  fix w :: world and i
  assume "i < length (streams w)" "closable (streams w ! i)"
  then have "with_stream i (on_conn conn_close) w =
      (Ret False, w\<lparr>streams := (streams w)[i := shut (streams w ! i)]\<rparr>)"
    by (simp add: closable_def shut_def with_stream_def on_conn_def conn_close_def)
  then show "go_bind (with_stream i (on_conn conn_close)) (\<lambda>err.
      go_return (if err then Some x else None)) w = (Ret None, w\<lparr>streams := (streams w)[i := shut (streams w ! i)]\<rparr>)"
    by (simp add: go_bind_def go_return_def)
qed

end
