(* ===== verification/Protocols.thy ===== *)
theory Protocols
  imports Net_Conn
begin

text \<open>
  The implementations of the interface \<open>protocol\<close>: \<open>iperf_tcp.go\<close>, \<open>iperf_rudp.go\<close>,
  \<open>iperf_kcp.go\<close>, and \<open>tcp_linux.go\<close> and \<open>tcp_other.go\<close>. Operations of the foreign packages
  are answers of the environment; the setters called on a session are recorded in its
  connection. Messages to the log are left out.
\<close>

fun protocol_name :: "protocol \<Rightarrow> string" where
  "protocol_name TCPProto = TCP_NAME"
| "protocol_name rudpProto = RUDP_NAME"
| "protocol_name kcpProto = KCP_NAME"

section \<open>Accepting, listening, connecting\<close>

text \<open>\<open>l.Accept()\<close> on a listener of the heap; \<open>None\<close> is an error.\<close>

definition listener_Accept :: "nat option \<Rightarrow> (conn option, world) go" where
  "listener_Accept l =
     (case l of
        None \<Rightarrow> go_panic NilDeref
      | Some i \<Rightarrow>
          go_bind (go_gets listeners) (\<lambda>ls.
          if i < length ls \<and> ls ! i then go_return None
          else go_bind env_next (\<lambda>e.
            case e_conn e of
              GotConn c \<Rightarrow> go_return (Some c)
            | ConnErr \<Rightarrow> go_return None
            | ConnWait \<Rightarrow> go_block)))"

definition tcp_accept :: "(conn option, world) go" where
  "tcp_accept = go_bind (go_gets protoListener) listener_Accept"

text \<open>
  RUDP and KCP read the four bytes of the accept signal; a wrong signal or an error is only
  logged, and the connection is used all the same.
\<close>

definition read_signal :: "conn \<Rightarrow> (conn option, world) go" where
  "read_signal c =
     (case conn_read 4 c of
        (Ret _, c') \<Rightarrow> go_return (Some c')
      | (Blocked, _) \<Rightarrow> go_block
      | (Panicked p, _) \<Rightarrow> go_panic p
      | (Exited x, _) \<Rightarrow> go_exit x)"

definition rudp_accept :: "(conn option, world) go" where
  "rudp_accept =
     go_bind (go_gets protoListener) (\<lambda>l.
     go_bind (listener_Accept l) (\<lambda>r.
     case r of None \<Rightarrow> go_return None | Some c \<Rightarrow> read_signal c))"

definition kcp_accept :: "(conn option, world) go" where
  "kcp_accept =
     go_bind (go_gets protoListener) (\<lambda>l.
     go_bind (listener_Accept l) (\<lambda>r.
     case r of None \<Rightarrow> go_return None | Some c \<Rightarrow> read_signal c))"

text \<open>A new listener on the heap.\<close>

definition new_listener :: "(nat, world) go" where
  "new_listener w = (Ret (length (listeners w)), w\<lparr>listeners := listeners w @ [False]\<rparr>)"

text \<open>A setter of a foreign package that may fail; the result says whether it did.\<close>

definition foreign_call :: "(bool, world) go" where
  "foreign_call = go_bind env_next (\<lambda>e. go_return (e_err e))"

text \<open>
  \<open>listen\<close>: the listener (possibly nil), or \<open>None\<close> for an error. TCP reuses the control
  listener. KCP overwrites the error of \<open>ListenWithOptions\<close>: when that call fails, the
  setter is called on a nil listener.
\<close>

definition tcp_listen :: "(nat option option, world) go" where
  "tcp_listen = go_bind (go_gets listener) (\<lambda>l. go_return (Some l))"

definition rudp_listen :: "(nat option option, world) go" where
  "rudp_listen =
     go_bind foreign_call (\<lambda>err.
     if err then go_return None else
     go_bind new_listener (\<lambda>l.
     go_bind foreign_call (\<lambda>err1.
     if err1 then go_return None else
     go_bind foreign_call (\<lambda>err2.
     if err2 then go_return None else
     go_return (Some (Some l))))))"

definition kcp_listen :: "(nat option option, world) go" where
  "kcp_listen =
     go_bind foreign_call (\<lambda>err.
     if err then go_panic NilDeref else
     go_bind new_listener (\<lambda>l.
     go_bind foreign_call (\<lambda>err1.
     if err1 then go_return None else
     go_bind foreign_call (\<lambda>err2.
     if err2 then go_return None else
     go_return (Some (Some l))))))"

text \<open>Dialling; \<open>None\<close> is an error.\<close>

definition dial :: "(conn option, world) go" where
  "dial = go_bind env_next (\<lambda>e.
     case e_conn e of GotConn c \<Rightarrow> go_return (Some c) | ConnErr \<Rightarrow> go_return None | ConnWait \<Rightarrow> go_block)"

definition tcp_connect :: "(conn option, world) go" where
  "tcp_connect =
     go_bind foreign_call (\<lambda>resolve_err.
     if resolve_err then go_return None else
     go_bind dial (\<lambda>r.
     case r of
       None \<Rightarrow> go_return None
     | Some c \<Rightarrow>
         go_bind (go_gets duration) (\<lambda>dur.
         go_bind time_Now (\<lambda>now.
         go_bind foreign_call (\<lambda>err.
         if err then go_return None
         else go_return (Some (c\<lparr>c_opts := c_opts c @
           [SetDeadline (time_Add now (duration_of (dur + 5) Second))]\<rparr>)))))))"

text \<open>The accept signal is written to the new session; a failed write is only logged.\<close>

definition write_signal :: "conn \<Rightarrow> conn" where
  "write_signal c = snd (conn_write (PutUint32 ACCEPT_SIGNAL) c)"

definition rudp_connect :: "(conn option, world) go" where
  "rudp_connect =
     go_bind dial (\<lambda>r.
     case r of None \<Rightarrow> go_return None | Some c \<Rightarrow> go_return (Some (write_signal c)))"

definition kcp_connect :: "(conn option, world) go" where
  "kcp_connect =
     go_bind dial (\<lambda>r.
     case r of None \<Rightarrow> go_return None | Some c \<Rightarrow> go_return (Some (write_signal c)))"

section \<open>Sending and receiving\<close>

text \<open>What an error of \<open>Read\<close> or \<open>Write\<close> makes of the result: \<open>- 1\<close> or \<open>- 2\<close>.\<close>

fun err_code :: "net_err \<Rightarrow> int" where
  "err_code OpError = - 1"
| "err_code OtherError = - 2"

definition count_sent :: "int \<Rightarrow> iperf_stream \<Rightarrow> iperf_stream" where
  "count_sent n sp = sp\<lparr>result := (result sp)
     \<lparr>bytes_sent := bytes_sent (result sp) + word_of_int n,
      bytes_sent_this_interval := bytes_sent_this_interval (result sp) + word_of_int n\<rparr>\<rparr>"

definition count_received :: "int \<Rightarrow> iperf_stream \<Rightarrow> iperf_stream" where
  "count_received n sp = sp\<lparr>result := (result sp)
     \<lparr>bytes_received := bytes_received (result sp) + word_of_int n,
      bytes_received_this_interval := bytes_received_this_interval (result sp) + word_of_int n\<rparr>\<rparr>"

definition tcp_send :: "(int, iperf_stream) go" where
  "tcp_send =
     go_bind (go_gets buffer) (\<lambda>buf.
     go_bind (on_conn (conn_write buf)) (\<lambda>(n, err).
     case err of
       Some e \<Rightarrow> go_return (err_code e)
     | None \<Rightarrow>
         if n < 0 then go_return n
         else go_then (go_modify (count_sent n)) (go_return n)))"

definition rudp_send :: "(int, iperf_stream) go" where
  "rudp_send =
     go_bind (go_gets buffer) (\<lambda>buf.
     go_bind (on_conn (conn_write buf)) (\<lambda>(n, err).
     case err of
       Some e \<Rightarrow> go_return (err_code e)
     | None \<Rightarrow>
         if n < 0 then go_return n
         else go_then (go_modify (count_sent n)) (go_return n)))"

definition kcp_send :: "(int, iperf_stream) go" where
  "kcp_send =
     go_bind (go_gets buffer) (\<lambda>buf.
     go_bind (on_conn (conn_write buf)) (\<lambda>(n, err).
     case err of
       Some e \<Rightarrow> go_return (err_code e)
     | None \<Rightarrow>
         if n < 0 then go_return n
         else go_then (go_modify (count_sent n)) (go_return n)))"

text \<open>The bytes read overwrite the front of the buffer; \<open>st\<close> is \<open>sp.test.state\<close>.\<close>

definition fill_buffer :: "u8 list \<Rightarrow> iperf_stream \<Rightarrow> iperf_stream" where
  "fill_buffer bs sp = sp\<lparr>buffer := bs @ drop (length bs) (buffer sp)\<rparr>"

definition tcp_recv :: "uint \<Rightarrow> (int, iperf_stream) go" where
  "tcp_recv st =
     go_bind (go_gets (\<lambda>sp. length (buffer sp))) (\<lambda>k.
     go_bind (on_conn (conn_read k)) (\<lambda>(n, err, bs).
     go_then (go_modify (fill_buffer bs))
     (case err of
        Some e \<Rightarrow> go_return (err_code e)
      | None \<Rightarrow>
          if n < 0 then go_return n
          else if st = TEST_RUNNING then go_then (go_modify (count_received n)) (go_return n)
          else go_return n)))"

definition rudp_recv :: "uint \<Rightarrow> (int, iperf_stream) go" where
  "rudp_recv st =
     go_bind (go_gets (\<lambda>sp. length (buffer sp))) (\<lambda>k.
     go_bind (on_conn (conn_read k)) (\<lambda>(n, err, bs).
     go_then (go_modify (fill_buffer bs))
     (case err of
        Some e \<Rightarrow> go_return (err_code e)
      | None \<Rightarrow>
          if n < 0 then go_return n
          else if st = TEST_RUNNING then go_then (go_modify (count_received n)) (go_return n)
          else go_return n)))"

definition kcp_recv :: "uint \<Rightarrow> (int, iperf_stream) go" where
  "kcp_recv st =
     go_bind (go_gets (\<lambda>sp. length (buffer sp))) (\<lambda>k.
     go_bind (on_conn (conn_read k)) (\<lambda>(n, err, bs).
     go_then (go_modify (fill_buffer bs))
     (case err of
        Some e \<Rightarrow> go_return (err_code e)
      | None \<Rightarrow>
          if n < 0 then go_return n
          else if st = TEST_RUNNING then go_then (go_modify (count_received n)) (go_return n)
          else go_return n)))"

section \<open>Preparing the sessions\<close>

text \<open>
  A setter called on the session of stream \<open>i\<close>: it is recorded, and its error, if it can
  report one, is an answer of the environment.
\<close>

definition set_opt :: "nat \<Rightarrow> sockopt \<Rightarrow> (unit, world) go" where
  "set_opt i opt = with_stream i (on_conn (go_modify (\<lambda>c. c\<lparr>c_opts := c_opts c @ [opt]\<rparr>)))"

definition try_opt :: "nat \<Rightarrow> sockopt \<Rightarrow> (bool, world) go" where
  "try_opt i opt = go_then (set_opt i opt) foreign_call"

text \<open>The value of \<open>return\<close> in a loop, or the value after it.\<close>

definition or_else :: "int \<Rightarrow> int option \<Rightarrow> (int, world) go" where
  "or_else v r = go_return (case r of Some x \<Rightarrow> x | None \<Rightarrow> v)"

definition tcp_init :: "(int, world) go" where
  "tcp_init =
     go_bind (go_gets noDelay) (\<lambda>nd.
     if nd then
       go_bind (each_stream (\<lambda>i.
         go_bind (try_opt i (SetTCPNoDelay nd)) (\<lambda>err.
         go_return (if err then Some (- 1) else None)))) (or_else 0)
     else go_return 0)"

text \<open>
  The RUDP and KCP sessions get the same settings. When a setter fails the remaining
  settings and the remaining streams are skipped, and the result is 0 nevertheless.
\<close>

definition rudp_init :: "(int, world) go" where
  "rudp_init =
     go_bind (each_stream (\<lambda>i.
       go_bind (go_gets (\<lambda>w. (setting w, noDelay w))) (\<lambda>(st, nd).
       go_bind (try_opt i (SetReadBuffer (sint (readBufSize st)))) (\<lambda>err1.
       if err1 then go_return (Some 0) else
       go_bind (try_opt i (SetWriteBuffer (sint (writeBufSize st)))) (\<lambda>err2.
       if err2 then go_return (Some 0) else
       go_then (set_opt i (SetWindowSize (sint (sndWnd st)) (sint (rcvWnd st)))) (
       go_then (set_opt i (SetStreamMode True)) (
       go_bind (try_opt i (SetDSCP 46)) (\<lambda>err3.
       if err3 then go_return (Some 0) else
       go_then (set_opt i (SetMtu 1400)) (
       go_then (set_opt i (SetACKNoDelay False)) (
       go_bind time_Now (\<lambda>now.
       go_bind (try_opt i (SetDeadline (time_Add now Minute))) (\<lambda>err4.
       if err4 then go_return (Some 0) else
       go_then (set_opt i (SetNoDelay (if nd then 1 else 0) (sint (flushInterval st))
           (sint (fastResend st)) (if noCong st then 1 else 0)))
       (go_return None))))))))))))) (or_else 0)"

definition kcp_init :: "(int, world) go" where
  "kcp_init =
     go_bind (each_stream (\<lambda>i.
       go_bind (go_gets (\<lambda>w. (setting w, noDelay w))) (\<lambda>(st, nd).
       go_bind (try_opt i (SetReadBuffer (sint (readBufSize st)))) (\<lambda>err1.
       if err1 then go_return (Some 0) else
       go_bind (try_opt i (SetWriteBuffer (sint (writeBufSize st)))) (\<lambda>err2.
       if err2 then go_return (Some 0) else
       go_then (set_opt i (SetWindowSize (sint (sndWnd st)) (sint (rcvWnd st)))) (
       go_then (set_opt i (SetStreamMode True)) (
       go_bind (try_opt i (SetDSCP 46)) (\<lambda>err3.
       if err3 then go_return (Some 0) else
       go_then (set_opt i (SetMtu 1400)) (
       go_then (set_opt i (SetACKNoDelay False)) (
       go_bind time_Now (\<lambda>now.
       go_bind (try_opt i (SetDeadline (time_Add now Minute))) (\<lambda>err4.
       if err4 then go_return (Some 0) else
       go_then (set_opt i (SetNoDelay (if nd then 1 else 0) (sint (flushInterval st))
           (sint (fastResend st)) (if noCong st then 1 else 0)))
       (go_return None))))))))))))) (or_else 0)"

section \<open>Statistics\<close>

definition note_rtt :: "uint \<Rightarrow> iperf_stream_results \<Rightarrow> iperf_stream_results" where
  "note_rtt r rp = rp
     \<lparr>stream_min_rtt := (if stream_min_rtt rp = 0 \<or> r < stream_min_rtt rp then r else stream_min_rtt rp),
      stream_max_rtt := (if stream_max_rtt rp = 0 \<or> stream_max_rtt rp < r then r else stream_max_rtt rp),
      stream_sum_rtt := stream_sum_rtt rp + r,
      stream_cnt_rtt := stream_cnt_rtt rp + 1\<rparr>"

definition note_retrans :: "uint \<Rightarrow> iperf_stream_results \<Rightarrow> iperf_interval_results \<Rightarrow>
    iperf_stream_results \<times> iperf_interval_results" where
  "note_retrans tot rp tmp =
     (let d = tot - stream_prev_total_retrans rp in
      (rp\<lparr>stream_retrans := stream_retrans rp + d, stream_prev_total_retrans := tot\<rparr>,
       tmp\<lparr>interval_retrans := d\<rparr>))"

definition note_lost :: "uint \<Rightarrow> iperf_stream_results \<Rightarrow> iperf_interval_results \<Rightarrow>
    iperf_stream_results \<times> iperf_interval_results" where
  "note_lost tot rp tmp =
     (let d = tot - stream_prev_total_lost rp in
      (rp\<lparr>stream_lost := stream_lost rp + d, stream_prev_total_lost := tot\<rparr>,
       tmp\<lparr>interval_lost := d\<rparr>))"

definition note_early :: "uint \<Rightarrow> iperf_stream_results \<Rightarrow> iperf_interval_results \<Rightarrow>
    iperf_stream_results \<times> iperf_interval_results" where
  "note_early tot rp tmp =
     (let d = tot - stream_prev_total_early_retrans rp in
      (rp\<lparr>stream_early_retrans := stream_early_retrans rp + d, stream_prev_total_early_retrans := tot\<rparr>,
       tmp\<lparr>interval_early_retrans := d\<rparr>))"

definition note_fast :: "uint \<Rightarrow> iperf_stream_results \<Rightarrow> iperf_interval_results \<Rightarrow>
    iperf_stream_results \<times> iperf_interval_results" where
  "note_fast tot rp tmp =
     (let d = tot - stream_prev_total_fast_retrans rp in
      (rp\<lparr>stream_fast_retrans := stream_fast_retrans rp + d, stream_prev_total_fast_retrans := tot\<rparr>,
       tmp\<lparr>interval_fast_retrans := d\<rparr>))"

text \<open>
  \<open>tcp_linux.go\<close>: an error gives the zero \<open>TCPInfo\<close>. The file names its function
  \<open>save_tcpInfo\<close> where \<open>iperf_tcp.go\<close> calls \<open>saveTCPInfo\<close>, so a build for Linux fails and nothing
  below uses it; the process modelled here is a build with \<open>tcp_other.go\<close>.
\<close>

definition getTCPInfo :: "conn \<Rightarrow> (tcp_info, world) go" where
  "getTCPInfo c =
     (let zero = \<lparr>Tcpi_rtt = 0, Tcpi_rto = 0, Tcpi_total_retrans = 0\<rparr> in
      go_bind foreign_call (\<lambda>err1.
      if c_closed c \<or> err1 then
        go_then (go_Printf ''File err: %v\<newline>'' [AStr ''err'']) (go_return zero)
      else
        go_bind env_next (\<lambda>e.
        if e_err e then
          go_then (go_Printf ''GetsockoptTCPInfo err: %v\<newline>'' [AStr ''err'']) (go_return zero)
        else go_return (e_tcp_info e))))"

definition save_tcpInfo :: "conn \<Rightarrow> iperf_interval_results \<Rightarrow> (iperf_interval_results, world) go" where
  "save_tcpInfo c tmp =
     go_bind (getTCPInfo c) (\<lambda>info. go_return (tmp\<lparr>rtt := ucast (Tcpi_rtt info),
       rto := ucast (Tcpi_rto info), interval_retrans := ucast (Tcpi_total_retrans info)\<rparr>))"

text \<open>\<open>tcp_other.go\<close>.\<close>

definition saveTCPInfo :: "iperf_interval_results \<Rightarrow> (iperf_interval_results, world) go" where
  "saveTCPInfo tmp =
     go_then (go_Printf ''TCP stats not supported on this platform\<newline>'' [])
       (go_return (tmp\<lparr>rtt := 0, rto := 0, interval_retrans := 0\<rparr>))"

text \<open>The callbacks: from the results so far and the interval to both of them updated.\<close>

definition tcp_stats :: "iperf_stream_results \<Rightarrow> iperf_interval_results \<Rightarrow>
    iperf_stream_results \<times> iperf_interval_results" where
  "tcp_stats rp tmp =
     (case note_retrans (interval_retrans tmp) rp tmp of
        (rp1, tmp1) \<Rightarrow> (note_rtt (rtt tmp1) rp1, tmp1))"

definition tcp_statsCallback :: "nat \<Rightarrow> iperf_interval_results \<Rightarrow> (iperf_interval_results, world) go" where
  "tcp_statsCallback i tmp =
     go_bind (go_gets proto) (\<lambda>p.
     if map_option protocol_name p = Some TCP_NAME then
       go_bind (saveTCPInfo tmp) (\<lambda>tmp1.
       with_stream i (\<lambda>sp. case tcp_stats (result sp) tmp1 of
         (rp, tmp2) \<Rightarrow> (Ret tmp2, sp\<lparr>result := rp\<rparr>)))
     else go_return tmp)"

definition rudp_stats :: "env_sample \<Rightarrow> iperf_stream_results \<Rightarrow> iperf_interval_results \<Rightarrow>
    iperf_stream_results \<times> iperf_interval_results" where
  "rudp_stats e rp0 tmp0 =
     (let s = e_rudp_snmp e;
          (rp1, tmp1) = note_retrans (RetransSegs s) rp0 tmp0;
          (rp2, tmp2) = note_lost (LostSegs s) rp1 tmp1;
          (rp3, tmp3) = note_early (EarlyRetransSegs s) rp2 tmp2;
          (rp4, tmp4) = note_fast (FastRetransSegs s) rp3 tmp3;
          rp5 = rp4\<lparr>stream_recovers := FECRecovered s, stream_in_pkts := SnmpInPkts s,
                   stream_out_pkts := SnmpOutPkts s, stream_in_segs := SnmpInSegs s,
                   stream_out_segs := SnmpOutSegs s, stream_repeat_segs := RepeatSegs s\<rparr>;
          tmp5 = tmp4\<lparr>rto := ucast (e_rto e * 1000), rtt := scast (e_srttvar e * 1000)\<rparr>
      in (note_rtt (rtt tmp5) rp5, tmp5))"

definition rudp_statsCallback :: "nat \<Rightarrow> iperf_interval_results \<Rightarrow> (iperf_interval_results, world) go" where
  "rudp_statsCallback i tmp =
     go_bind env_next (\<lambda>e.
     with_stream i (\<lambda>sp. case rudp_stats e (result sp) tmp of
       (rp, tmp1) \<Rightarrow> (Ret tmp1, sp\<lparr>result := rp\<rparr>)))"

definition kcp_stats :: "env_sample \<Rightarrow> iperf_stream_results \<Rightarrow> iperf_interval_results \<Rightarrow>
    iperf_stream_results \<times> iperf_interval_results" where
  "kcp_stats e rp0 tmp0 =
     (let s = e_kcp_snmp e;
          (rp1, tmp1) = note_retrans (RetransSegs s) rp0 tmp0;
          (rp2, tmp2) = note_lost (LostSegs s) rp1 tmp1;
          (rp3, tmp3) = note_early (EarlyRetransSegs s) rp2 tmp2;
          (rp4, tmp4) = note_fast (FastRetransSegs s) rp3 tmp3;
          rp5 = rp4\<lparr>stream_recovers := FECRecovered s, stream_in_pkts := SnmpInPkts s,
                   stream_out_pkts := SnmpOutPkts s, stream_in_segs := SnmpInSegs s,
                   stream_out_segs := SnmpOutSegs s\<rparr>;
          tmp5 = tmp4\<lparr>rtt := scast (e_srttvar e * 1000)\<rparr>
      in (note_rtt (rtt tmp5) rp5, tmp5))"

definition kcp_statsCallback :: "nat \<Rightarrow> iperf_interval_results \<Rightarrow> (iperf_interval_results, world) go" where
  "kcp_statsCallback i tmp =
     go_bind env_next (\<lambda>e.
     with_stream i (\<lambda>sp. case kcp_stats e (result sp) tmp of
       (rp, tmp1) \<Rightarrow> (Ret tmp1, sp\<lparr>result := rp\<rparr>)))"

section \<open>Teardown\<close>

text \<open>
  RUDP prints its counters when the level of the logger is \<open>INFO\<close> or \<open>DEBUG\<close>: the rows of
  \<open>DefaultSnmp.Header()\<close> and \<open>DefaultSnmp.ToSlice()\<close>.
\<close>

definition rudp_teardown :: "(int, world) go" where
  "rudp_teardown =
     go_bind env_next (\<lambda>e.
     if e_verbose e then
       go_bind (go_each (\<lambda>(h, s). go_then (go_Printf (''%s: %v'' @ [CHR 0x09]) [AStr h, AStr s])
         (go_return (None :: unit option))) (e_rows e)) (\<lambda>_.
       go_then (go_Printf ''\<newline>'' []) (
       go_bind (go_gets (\<lambda>w. noCong (setting w))) (\<lambda>nc.
       if nc then go_return 0
       else go_then (go_Printf ''TODO::RUDP#PrintTracker()\<newline>'' []) (go_return 0))))
     else go_return 0)"

definition kcp_teardown :: "(int, world) go" where
  "kcp_teardown = go_return 0"

definition tcp_teardown :: "(int, world) go" where
  "tcp_teardown = go_return 0"

section \<open>Method calls through the interface\<close>

fun proto_accept :: "protocol \<Rightarrow> (conn option, world) go" where
  "proto_accept TCPProto = tcp_accept"
| "proto_accept rudpProto = rudp_accept"
| "proto_accept kcpProto = kcp_accept"

fun proto_listen :: "protocol \<Rightarrow> (nat option option, world) go" where
  "proto_listen TCPProto = tcp_listen"
| "proto_listen rudpProto = rudp_listen"
| "proto_listen kcpProto = kcp_listen"

fun proto_connect :: "protocol \<Rightarrow> (conn option, world) go" where
  "proto_connect TCPProto = tcp_connect"
| "proto_connect rudpProto = rudp_connect"
| "proto_connect kcpProto = kcp_connect"

fun proto_send :: "protocol \<Rightarrow> (int, iperf_stream) go" where
  "proto_send TCPProto = tcp_send"
| "proto_send rudpProto = rudp_send"
| "proto_send kcpProto = kcp_send"

fun proto_recv :: "protocol \<Rightarrow> uint \<Rightarrow> (int, iperf_stream) go" where
  "proto_recv TCPProto = tcp_recv"
| "proto_recv rudpProto = rudp_recv"
| "proto_recv kcpProto = kcp_recv"

fun proto_init :: "protocol \<Rightarrow> (int, world) go" where
  "proto_init TCPProto = tcp_init"
| "proto_init rudpProto = rudp_init"
| "proto_init kcpProto = kcp_init"

fun proto_statsCallback :: "protocol \<Rightarrow> nat \<Rightarrow> iperf_interval_results \<Rightarrow> (iperf_interval_results, world) go" where
  "proto_statsCallback TCPProto = tcp_statsCallback"
| "proto_statsCallback rudpProto = rudp_statsCallback"
| "proto_statsCallback kcpProto = kcp_statsCallback"

fun proto_teardown :: "protocol \<Rightarrow> (int, world) go" where
  "proto_teardown TCPProto = tcp_teardown"
| "proto_teardown rudpProto = rudp_teardown"
| "proto_teardown kcpProto = kcp_teardown"

text \<open>A call \<open>test.proto.f(...)\<close>: a nil \<open>test.proto\<close> panics.\<close>

definition via_proto :: "(protocol \<Rightarrow> ('a, world) go) \<Rightarrow> ('a, world) go" where
  "via_proto f =
     go_bind (go_gets proto) (\<lambda>p. case p of None \<Rightarrow> go_panic NilDeref | Some q \<Rightarrow> f q)"

lemma via_proto_Some [go_simps]: "proto w = Some p \<Longrightarrow> via_proto f w = f p w"
  by (simp add: via_proto_def go_simps)

lemma via_proto_None [go_simps]: "proto w = None \<Longrightarrow> via_proto f w = (Panicked NilDeref, w)"
  by (simp add: via_proto_def go_simps)

lemma print_rows_run:
  "\<exists>xs. go_each (\<lambda>(h, s). go_then (go_Printf f [AStr h, AStr s]) (go_return (None :: unit option))) rows w =
     (Ret None, w\<lparr>out := xs\<rparr>)"
proof (induction rows arbitrary: w)
  case Nil
  have "w = w\<lparr>out := out w\<rparr>" by simp
  then show ?case unfolding go_each.simps go_return_run by blast
next
  case (Cons row rows)
  obtain h s where row: "row = (h, s)" by force
  from Cons.IH [of "w\<lparr>out := out w @ [Printf f [AStr h, AStr s]]\<rparr>"] row show ?case
    by (simp add: go_Printf_def go_then_def go_bind_Ret go_modify_run go_return_run)
qed

lemma teardown_run:
  assumes "proto w = Some p"
  shows "\<exists>t xs. via_proto proto_teardown w = (Ret 0, w\<lparr>ticks := t, out := xs\<rparr>)"
proof (cases p)
  case rudpProto
  let ?e = "env w (ticks w)" and ?w = "w\<lparr>ticks := Suc (ticks w)\<rparr>"
  have run: "via_proto proto_teardown w = rudp_teardown w"
    using assms rudpProto by (simp add: via_proto_Some)
  show ?thesis
  proof (cases "e_verbose ?e")
    case False
    then have "rudp_teardown w = (Ret 0, w\<lparr>ticks := Suc (ticks w), out := out w\<rparr>)"
      by (simp add: rudp_teardown_def env_next_def go_bind_def go_return_def)
    with run show ?thesis by metis
  next
    case True
    obtain xs where "go_each (\<lambda>(h, s). go_then (go_Printf (''%s: %v'' @ [CHR 0x09]) [AStr h, AStr s])
        (go_return (None :: unit option))) (e_rows ?e) ?w = (Ret None, ?w\<lparr>out := xs\<rparr>)"
      using print_rows_run by blast
    with True have "rudp_teardown w = (Ret 0, w\<lparr>ticks := Suc (ticks w), out := (if noCong (setting w)
        then xs @ [Printf ''\<newline>'' []]
        else xs @ [Printf ''\<newline>'' [], Printf ''TODO::RUDP#PrintTracker()\<newline>'' []])\<rparr>)"
      by (simp add: rudp_teardown_def env_next_def go_bind_def go_return_def go_then_def go_Printf_def
          go_modify_def go_gets_def)
    with run show ?thesis by metis
  qed
next
  case TCPProto
  with assms show ?thesis
    by (intro exI [of _ "ticks w"] exI [of _ "out w"]) (simp add: via_proto_Some tcp_teardown_def go_return_def)
next
  case kcpProto
  with assms show ?thesis
    by (intro exI [of _ "ticks w"] exI [of _ "out w"]) (simp add: via_proto_Some kcp_teardown_def go_return_def)
qed

end
