(* ===== verification/Timers.thy ===== *)
theory Timers
  imports Protocols
begin

text \<open>
  The file \<open>timer.go\<close>. \<open>timerCreate\<close> and \<open>tickerCreate\<close> put an object on the heap of the
  process; the goroutine they start is given by its two reactions, to the channel \<open>done\<close> and
  to the runtime timer. When the runtime timer expires is up to the environment. The function
  that \<open>proc\<close> stands for is a parameter of the reaction, because it belongs to the client or
  the server.
\<close>

definition new_timer :: "timer_obj \<Rightarrow> (ITimer, world) go" where
  "new_timer ob w =
     (let r = length (timers w) in
      (Ret \<lparr>it_timer = Some r, it_done = Some r\<rparr>, w\<lparr>timers := timers w @ [ob]\<rparr>))"

definition timerCreate :: "time \<Rightarrow> timer_proc \<Rightarrow> uint \<Rightarrow> (ITimer, world) go" where
  "timerCreate now proc dur =
     go_bind time_Now (\<lambda>t.
     new_timer \<lparr>o_proc = proc, o_periodic = False,
       o_period = wrap64 (time_Sub t now + duration_of dur Millisecond),
       o_armed = True, o_done = [], o_alive = True, o_cnt = 0, o_max = 0\<rparr>)"

text \<open>\<open>time.NewTicker\<close> panics when the period is not positive.\<close>

definition tickerCreate :: "timer_proc \<Rightarrow> uint \<Rightarrow> uint \<Rightarrow> (ITimer, world) go" where
  "tickerCreate proc ival max_times =
     (if duration_of ival Millisecond \<le> 0 then go_panic NonPositiveTicker
      else new_timer \<lparr>o_proc = proc, o_periodic = True, o_period = duration_of ival Millisecond,
        o_armed = True, o_done = [], o_alive = True, o_cnt = 0, o_max = max_times\<rparr>)"

definition upd_timer :: "nat \<Rightarrow> (timer_obj \<Rightarrow> timer_obj) \<Rightarrow> world \<Rightarrow> world" where
  "upd_timer r f w = (if r < length (timers w) then w\<lparr>timers := (timers w)[r := f (timers w ! r)]\<rparr> else w)"

text \<open>\<open>t.timer.Stop()\<close> and \<open>t.done <- true\<close>; the channel has one slot.\<close>

definition timer_Stop :: "ITimer \<Rightarrow> (unit, world) go" where
  "timer_Stop t =
     (case it_timer t of
        None \<Rightarrow> go_panic NilDeref
      | Some r \<Rightarrow> go_modify (upd_timer r (\<lambda>ob. ob\<lparr>o_armed := False\<rparr>)))"

definition timer_signal :: "ITimer \<Rightarrow> (unit, world) go" where
  "timer_signal t w =
     (case it_done t of
        None \<Rightarrow> (Blocked, w)
      | Some r \<Rightarrow>
          if r < length (timers w) \<and> o_done (timers w ! r) = []
          then (Ret (), upd_timer r (\<lambda>ob. ob\<lparr>o_done := [True]\<rparr>) w)
          else (Blocked, w))"

text \<open>The goroutine: \<open>case <-done\<close>, which stops the runtime timer on the way out.\<close>

definition goroutine_done :: "nat \<Rightarrow> (unit, world) go" where
  "goroutine_done r w =
     (if r < length (timers w) \<and> o_alive (timers w ! r) \<and> o_done (timers w ! r) \<noteq> []
      then (Ret (), upd_timer r (\<lambda>ob. ob\<lparr>o_done := tl (o_done ob), o_alive := False, o_armed := False\<rparr>) w)
      else (Blocked, w))"

text \<open>
  The goroutine: the runtime timer has expired. A one-shot timer is disarmed by that; a
  ticker whose count is used up ends instead of calling \<open>proc\<close>.
\<close>

definition goroutine_tick :: "(timer_proc \<Rightarrow> (unit, world) go) \<Rightarrow> nat \<Rightarrow> (unit, world) go" where
  "goroutine_tick run r w =
     (if r < length (timers w) \<and> o_alive (timers w ! r) \<and> o_armed (timers w ! r) then
        (let ob = timers w ! r in
         if \<not> o_periodic ob then
           run (o_proc ob) (upd_timer r (\<lambda>ob. ob\<lparr>o_armed := False\<rparr>) w)
         else if o_max ob \<le> o_cnt ob then
           (Ret (), upd_timer r (\<lambda>ob. ob\<lparr>o_alive := False, o_armed := False\<rparr>) w)
         else
           go_then (run (o_proc ob)) (go_modify (upd_timer r (\<lambda>ob. ob\<lparr>o_cnt := o_cnt ob + 1\<rparr>))) w)
      else (Blocked, w))"

lemma sint_small: "uint n < 2 ^ 63 \<Longrightarrow> sint (n :: u64) = uint n"
proof -
  assume "uint n < 2 ^ 63"
  moreover have "- (2 ^ 63) \<le> uint n" by (rule order.trans [of _ 0]) simp_all
  ultimately show ?thesis using wrap64_id [of "uint n"] by (simp add: wrap64_def)
qed

lemma duration_of_ms:
  assumes "uint n \<le> 9223372036854"
  shows "duration_of n Millisecond = uint n * Millisecond"
proof -
  have "0 \<le> uint n" by simp
  with assms have "- (2 ^ 63) \<le> uint n * Millisecond" "uint n * Millisecond < 2 ^ 63"
    by (auto intro: order.trans [of _ 0])
  with assms show ?thesis by (simp add: duration_of_def sint_small wrap64_id)
qed

lemma upd_timer_timers [simp]:
  "r < length (timers w) \<Longrightarrow> timers (upd_timer r f w) = (timers w)[r := f (timers w ! r)]"
  by (simp add: upd_timer_def)

lemma length_upd_timer [simp]: "length (timers (upd_timer r f w)) = length (timers w)"
  by (simp add: upd_timer_def)

lemma goroutine_tick_dead:
  "r < length (timers w) \<Longrightarrow> \<not> o_alive (timers w ! r) \<Longrightarrow> goroutine_tick run r w = (Blocked, w)"
  by (simp add: goroutine_tick_def)

lemma goroutine_tick_stopped:
  "r < length (timers w) \<Longrightarrow> \<not> o_armed (timers w ! r) \<Longrightarrow> goroutine_tick run r w = (Blocked, w)"
  by (simp add: goroutine_tick_def)

end
