(* ===== verification/Accounting.thy ===== *)
theory Accounting
  imports Timers
begin

text \<open>
  What the rest of the program relies on of an implementation of \<open>protocol\<close>: how \<open>send\<close> and
  \<open>recv\<close> move the byte counters of a stream (locale \<open>stream_io\<close>) and how a statistics
  callback moves the retransmission counters (locale \<open>interval_stats\<close>). Both are interpreted
  on the three implementations. The ledgers below say that the reported intervals add up to
  the totals; they are kept by every operation on a stream.
\<close>

section \<open>Ledgers of a stream\<close>

definition sent_ledger :: "iperf_stream_results \<Rightarrow> bool" where
  "sent_ledger rp \<longleftrightarrow>
     bytes_sent rp = sum_list (map bytes_transfered (interval_results rp)) + bytes_sent_this_interval rp"

definition received_ledger :: "iperf_stream_results \<Rightarrow> bool" where
  "received_ledger rp \<longleftrightarrow>
     bytes_received rp = sum_list (map bytes_transfered (interval_results rp)) + bytes_received_this_interval rp"

text \<open>The ledger of the direction of the test (\<open>True\<close> for the sender).\<close>

definition byte_ledger :: "bool \<Rightarrow> iperf_stream_results \<Rightarrow> bool" where
  "byte_ledger m rp \<longleftrightarrow> (if m then sent_ledger rp else received_ledger rp)"

text \<open>
  The total of each kind of retransmission is what the foreign counter has last shown, and
  it is the sum over the intervals.
\<close>

definition retrans_ledger :: "iperf_stream_results \<Rightarrow> bool" where
  "retrans_ledger rp \<longleftrightarrow>
     stream_retrans rp = stream_prev_total_retrans rp \<and>
     stream_retrans rp = sum_list (map interval_retrans (interval_results rp)) \<and>
     stream_lost rp = stream_prev_total_lost rp \<and>
     stream_lost rp = sum_list (map interval_lost (interval_results rp)) \<and>
     stream_early_retrans rp = stream_prev_total_early_retrans rp \<and>
     stream_early_retrans rp = sum_list (map interval_early_retrans (interval_results rp)) \<and>
     stream_fast_retrans rp = stream_prev_total_fast_retrans rp \<and>
     stream_fast_retrans rp = sum_list (map interval_fast_retrans (interval_results rp))"

text \<open>The intervals follow each other without a gap from the start of the test.\<close>

fun chained :: "time \<Rightarrow> iperf_interval_results list \<Rightarrow> time \<Rightarrow> bool" where
  "chained t [] e \<longleftrightarrow> t = e"
| "chained t (r # rs) e \<longleftrightarrow>
     interval_start_time r = t \<and>
     interval_dur r = time_Sub (interval_end_time r) (interval_start_time r) \<and>
     chained (interval_end_time r) rs e"

definition timeline :: "iperf_stream_results \<Rightarrow> bool" where
  "timeline rp \<longleftrightarrow> (interval_results rp = [] \<or> chained (start_time rp) (interval_results rp) (end_time rp))"

definition rtt_bounds :: "iperf_stream_results \<Rightarrow> bool" where
  "rtt_bounds rp \<longleftrightarrow> list_all (\<lambda>r. rtt r \<le> stream_max_rtt rp) (interval_results rp)"

definition ledgers :: "bool \<Rightarrow> iperf_stream_results \<Rightarrow> bool" where
  "ledgers m rp \<longleftrightarrow> byte_ledger m rp \<and> retrans_ledger rp \<and> timeline rp \<and> rtt_bounds rp"

lemmas ledger_defs = ledgers_def byte_ledger_def sent_ledger_def received_ledger_def
  retrans_ledger_def timeline_def rtt_bounds_def

lemma chained_snoc:
  "chained t (rs @ [r]) e \<longleftrightarrow>
     (\<exists>e0. chained t rs e0 \<and> interval_start_time r = e0 \<and>
        interval_dur r = time_Sub (interval_end_time r) e0 \<and> interval_end_time r = e)"
  by (induction rs arbitrary: t) auto

lemma ledgers_zero: "ledgers m (zero_results\<lparr>start_time := t, start_time_fixed := t\<rparr>)"
  by (simp add: ledger_defs zero_results_def)

lemma ledgers_count_sent: "ledgers True (result sp) \<Longrightarrow> ledgers True (result (count_sent n sp))"
  by (auto simp: ledger_defs count_sent_def)

lemma ledgers_count_received: "ledgers False (result sp) \<Longrightarrow> ledgers False (result (count_received n sp))"
  by (auto simp: ledger_defs count_received_def)

section \<open>The data path of an implementation\<close>

locale stream_io =
  fixes send :: "(int, iperf_stream) go"
    and recv :: "uint \<Rightarrow> (int, iperf_stream) go"
  assumes send_returns: "\<exists>n sp'. send sp = (Ret n, sp')"
    and send_ok: "send sp = (Ret n, sp') \<Longrightarrow> 0 \<le> n \<Longrightarrow> result sp' = result (count_sent n sp)"
    and send_err: "send sp = (Ret n, sp') \<Longrightarrow> n < 0 \<Longrightarrow> result sp' = result sp"
    and recv_ok: "recv st sp = (Ret n, sp') \<Longrightarrow> 0 \<le> n \<Longrightarrow>
      result sp' = (if st = TEST_RUNNING then result (count_received n sp) else result sp)"
    and recv_err: "recv st sp = (Ret n, sp') \<Longrightarrow> n < 0 \<Longrightarrow> result sp' = result sp"
    and recv_stuck: "recv st sp = (r, sp') \<Longrightarrow> (\<nexists>n. r = Ret n) \<Longrightarrow> result sp' = result sp"
    and role_kept: "role (snd (send sp)) = role sp" "role (snd (recv st sp)) = role sp"
begin

lemma send_ledgers:
  assumes "ledgers True (result sp)" shows "ledgers True (result (snd (send sp)))"
proof -
  obtain n sp' where s: "send sp = (Ret n, sp')" using send_returns by blast
  show ?thesis
  proof (cases "0 \<le> n")
    case True
    from send_ok [OF s this] assms s show ?thesis
      by (simp add: ledgers_count_sent)
  next
    case False
    with send_err [OF s] assms s show ?thesis by simp
  qed
qed

lemma recv_ledgers:
  assumes "ledgers False (result sp)" shows "ledgers False (result (snd (recv st sp)))"
proof -
  obtain r sp' where s: "recv st sp = (r, sp')" by force
  show ?thesis
  proof (cases "\<exists>n. r = Ret n \<and> 0 \<le> n")
    case True
    then obtain n where n: "recv st sp = (Ret n, sp')" "0 \<le> n" using s by blast
    from recv_ok [OF n] assms n show ?thesis
      by (simp add: ledgers_count_received)
  next
    case False
    then have "result sp' = result sp"
      using recv_err recv_stuck s by (metis not_le)
    with assms s show ?thesis by simp
  qed
qed

text \<open>What a send adds to the stream is what the caller is told.\<close>

lemma send_total:
  "send sp = (Ret n, sp') \<Longrightarrow>
   bytes_sent (result sp') = bytes_sent (result sp) + (if 0 \<le> n then word_of_int n else 0)"
  using send_ok [of sp n sp'] send_err [of sp n sp'] by (auto simp: count_sent_def not_le)

lemma send_received_same:
  "send sp = (Ret n, sp') \<Longrightarrow> bytes_received (result sp') = bytes_received (result sp)"
  using send_ok [of sp n sp'] send_err [of sp n sp'] by (cases "0 \<le> n") (auto simp: count_sent_def)

lemma recv_total:
  "recv st sp = (Ret n, sp') \<Longrightarrow>
   bytes_received (result sp') =
     bytes_received (result sp) + (if 0 \<le> n \<and> st = TEST_RUNNING then word_of_int n else 0)"
  using recv_ok [of st sp n sp'] recv_err [of st sp n sp']
  by (cases "0 \<le> n") (auto simp: count_received_def)

end

lemma on_conn_result [simp]: "on_conn m sp = (r, sp') \<Longrightarrow> result sp' = result sp \<and> role sp' = role sp \<and> buffer sp' = buffer sp"
  by (auto simp: on_conn_def split: prod.splits)

lemma send_shape:
  "tcp_send sp =
     (case conn_write (buffer sp) (conn sp) of
        (Ret (n, Some e), c) \<Rightarrow> (Ret (err_code e), sp\<lparr>conn := c\<rparr>)
      | (Ret (n, None), c) \<Rightarrow>
          (Ret n, if n < 0 then sp\<lparr>conn := c\<rparr> else count_sent n (sp\<lparr>conn := c\<rparr>))
      | (Blocked, c) \<Rightarrow> (Blocked, sp\<lparr>conn := c\<rparr>)
      | (Panicked p, c) \<Rightarrow> (Panicked p, sp\<lparr>conn := c\<rparr>)
      | (Exited x, c) \<Rightarrow> (Exited x, sp\<lparr>conn := c\<rparr>))"
proof -
  obtain r c where w: "conn_write (buffer sp) (conn sp) = (r, c)" by force
  show ?thesis
  proof (cases r)
    case (Ret x)
    obtain n e where "x = (n, e)" by force
    with w Ret show ?thesis
      by (cases e) (simp_all add: tcp_send_def go_simps on_conn_run go_bind_Ret)
  qed (use w in \<open>simp_all add: tcp_send_def go_simps on_conn_run go_bind_def\<close>)
qed

lemma recv_shape:
  "tcp_recv st sp =
     (case conn_read (length (buffer sp)) (conn sp) of
        (Ret (n, Some e, bs), c) \<Rightarrow> (Ret (err_code e), fill_buffer bs (sp\<lparr>conn := c\<rparr>))
      | (Ret (n, None, bs), c) \<Rightarrow>
          (Ret n, if 0 \<le> n \<and> st = TEST_RUNNING then count_received n (fill_buffer bs (sp\<lparr>conn := c\<rparr>))
                  else fill_buffer bs (sp\<lparr>conn := c\<rparr>))
      | (Blocked, c) \<Rightarrow> (Blocked, sp\<lparr>conn := c\<rparr>)
      | (Panicked p, c) \<Rightarrow> (Panicked p, sp\<lparr>conn := c\<rparr>)
      | (Exited x, c) \<Rightarrow> (Exited x, sp\<lparr>conn := c\<rparr>))"
proof -
  obtain r c where w: "conn_read (length (buffer sp)) (conn sp) = (r, c)" by force
  show ?thesis
  proof (cases r)
    case (Ret x)
    obtain n e bs where "x = (n, e, bs)" by (cases x) auto
    with w Ret show ?thesis
      by (cases e) (auto simp: tcp_recv_def go_simps on_conn_run go_bind_Ret)
  qed (use w in \<open>simp_all add: tcp_recv_def go_simps on_conn_run go_bind_def\<close>)
qed

text \<open>The three implementations have the same data path.\<close>

lemma send_same: "rudp_send = tcp_send" "kcp_send = tcp_send"
  by (simp_all add: rudp_send_def kcp_send_def tcp_send_def)

lemma recv_same: "rudp_recv = tcp_recv" "kcp_recv = tcp_recv"
  by (simp_all add: rudp_recv_def kcp_recv_def tcp_recv_def fun_eq_iff)

lemma err_code_neg [simp]: "err_code e < 0" "\<not> 0 \<le> err_code e"
  by (cases e; simp)+

interpretation tcp_io: stream_io tcp_send tcp_recv
proof unfold_locales
  fix sp :: iperf_stream and st n sp' r
  show "\<exists>n sp'. tcp_send sp = (Ret n, sp')"
    using conn_write_returns [of "buffer sp" "conn sp"]
    by (auto simp: send_shape split: prod.splits outcome.splits option.splits)
  show "tcp_send sp = (Ret n, sp') \<Longrightarrow> 0 \<le> n \<Longrightarrow> result sp' = result (count_sent n sp)"
    by (auto simp: send_shape count_sent_def split: prod.splits outcome.splits option.splits if_splits)
  show "tcp_send sp = (Ret n, sp') \<Longrightarrow> n < 0 \<Longrightarrow> result sp' = result sp"
    by (auto simp: send_shape split: prod.splits outcome.splits option.splits if_splits)
  show "tcp_recv st sp = (Ret n, sp') \<Longrightarrow> 0 \<le> n \<Longrightarrow>
      result sp' = (if st = TEST_RUNNING then result (count_received n sp) else result sp)"
    by (auto simp: recv_shape count_received_def fill_buffer_def split: prod.splits outcome.splits option.splits if_splits)
  show "tcp_recv st sp = (Ret n, sp') \<Longrightarrow> n < 0 \<Longrightarrow> result sp' = result sp"
    by (auto simp: recv_shape fill_buffer_def split: prod.splits outcome.splits option.splits if_splits)
  show "tcp_recv st sp = (r, sp') \<Longrightarrow> (\<nexists>n. r = Ret n) \<Longrightarrow> result sp' = result sp"
    by (auto simp: recv_shape fill_buffer_def split: prod.splits outcome.splits option.splits if_splits)
  show "role (snd (tcp_send sp)) = role sp"
    by (auto simp: send_shape count_sent_def split: prod.splits outcome.splits option.splits)
  show "role (snd (tcp_recv st sp)) = role sp"
    by (auto simp: recv_shape count_received_def fill_buffer_def split: prod.splits outcome.splits option.splits)
qed

interpretation rudp_io: stream_io rudp_send rudp_recv
  unfolding send_same recv_same by (rule tcp_io.stream_io_axioms)

interpretation kcp_io: stream_io kcp_send kcp_recv
  unfolding send_same recv_same by (rule tcp_io.stream_io_axioms)

text \<open>Through the interface.\<close>

interpretation io: stream_io "proto_send p" "proto_recv q" for p q
proof -
  have "proto_send p = tcp_send" "proto_recv q = tcp_recv"
    by (cases p; simp add: send_same) (cases q; simp add: recv_same)
  then show "stream_io (proto_send p) (proto_recv q)"
    using tcp_io.stream_io_axioms by simp
qed

section \<open>The statistics of an implementation\<close>

definition retrans_delta ::
  "iperf_stream_results \<Rightarrow> iperf_stream_results \<Rightarrow> iperf_interval_results \<Rightarrow> bool" where
  "retrans_delta rp rp' tmp \<longleftrightarrow>
     stream_retrans rp' = stream_retrans rp + interval_retrans tmp \<and>
     stream_prev_total_retrans rp' = stream_prev_total_retrans rp + interval_retrans tmp \<and>
     stream_lost rp' = stream_lost rp + interval_lost tmp \<and>
     stream_prev_total_lost rp' = stream_prev_total_lost rp + interval_lost tmp \<and>
     stream_early_retrans rp' = stream_early_retrans rp + interval_early_retrans tmp \<and>
     stream_prev_total_early_retrans rp' = stream_prev_total_early_retrans rp + interval_early_retrans tmp \<and>
     stream_fast_retrans rp' = stream_fast_retrans rp + interval_fast_retrans tmp \<and>
     stream_prev_total_fast_retrans rp' = stream_prev_total_fast_retrans rp + interval_fast_retrans tmp"

definition same_bytes :: "iperf_stream_results \<Rightarrow> iperf_stream_results \<Rightarrow> bool" where
  "same_bytes rp rp' \<longleftrightarrow>
     bytes_sent rp' = bytes_sent rp \<and> bytes_received rp' = bytes_received rp \<and>
     bytes_sent_this_interval rp' = bytes_sent_this_interval rp \<and>
     bytes_received_this_interval rp' = bytes_received_this_interval rp \<and>
     interval_results rp' = interval_results rp \<and>
     start_time rp' = start_time rp \<and> end_time rp' = end_time rp"

definition same_span :: "iperf_interval_results \<Rightarrow> iperf_interval_results \<Rightarrow> bool" where
  "same_span tmp tmp' \<longleftrightarrow>
     interval_start_time tmp' = interval_start_time tmp \<and>
     interval_end_time tmp' = interval_end_time tmp \<and> interval_dur tmp' = interval_dur tmp"

text \<open>The losses a callback has not filled in are still zero.\<close>

definition no_losses :: "iperf_interval_results \<Rightarrow> bool" where
  "no_losses tmp \<longleftrightarrow>
     interval_lost tmp = 0 \<and> interval_early_retrans tmp = 0 \<and> interval_fast_retrans tmp = 0"

text \<open>The end of an interval: the bytes of the direction of the test, and fresh counters.\<close>

definition close_interval :: "bool \<Rightarrow> iperf_interval_results \<Rightarrow> iperf_stream_results \<Rightarrow> iperf_stream_results" where
  "close_interval m tmp rp = rp
     \<lparr>interval_results := interval_results rp @
        [tmp\<lparr>bytes_transfered := (if m = IPERF_RECEIVER then bytes_received_this_interval rp
                                else bytes_sent_this_interval rp)\<rparr>],
      bytes_sent_this_interval := 0, bytes_received_this_interval := 0\<rparr>"

definition interval_start :: "iperf_stream_results \<Rightarrow> time" where
  "interval_start rp = (if interval_results rp = [] then start_time rp else end_time rp)"

locale interval_stats =
  fixes stats :: "iperf_stream_results \<Rightarrow> iperf_interval_results \<Rightarrow>
    iperf_stream_results \<times> iperf_interval_results"
  assumes bytes_kept: "stats rp tmp = (rp', tmp') \<Longrightarrow> same_bytes rp rp'"
    and span_kept: "stats rp tmp = (rp', tmp') \<Longrightarrow> same_span tmp tmp'"
    and deltas: "stats rp tmp = (rp', tmp') \<Longrightarrow> no_losses tmp \<Longrightarrow> retrans_delta rp rp' tmp'"
    and max_rtt: "stats rp tmp = (rp', tmp') \<Longrightarrow>
      rtt tmp' \<le> stream_max_rtt rp' \<and> stream_max_rtt rp \<le> stream_max_rtt rp'"
begin

lemma close_ledgers:
  assumes l: "ledgers m rp" and st: "stats (rp\<lparr>end_time := now\<rparr>) tmp = (rp', tmp')"
    and tmp: "interval_start_time tmp = interval_start rp" "interval_end_time tmp = now"
      "interval_dur tmp = time_Sub now (interval_start rp)" "no_losses tmp"
  shows "ledgers m (close_interval m tmp' rp')"
proof -
  note facts = bytes_kept [OF st, unfolded same_bytes_def] span_kept [OF st, unfolded same_span_def]
    deltas [OF st tmp(4), unfolded retrans_delta_def]
  have "byte_ledger m (close_interval m tmp' rp')"
    using l facts by (auto simp: ledgers_def byte_ledger_def sent_ledger_def received_ledger_def close_interval_def)
  moreover have "retrans_ledger (close_interval m tmp' rp')"
    using l facts by (auto simp: ledgers_def retrans_ledger_def close_interval_def)
  moreover have "timeline (close_interval m tmp' rp')"
    using l facts tmp
    by (auto simp: ledgers_def timeline_def close_interval_def chained_snoc interval_start_def)
  moreover have "rtt_bounds (close_interval m tmp' rp')"
    using l facts max_rtt [OF st]
    by (auto simp: ledgers_def rtt_bounds_def close_interval_def list_all_iff)
  ultimately show ?thesis by (simp add: ledgers_def)
qed

end

lemmas stats_defs = note_rtt_def note_retrans_def note_lost_def note_early_def note_fast_def

lemma max_note: "(x :: uint) \<le> (if y = 0 \<or> y < x then x else y) \<and> y \<le> (if y = 0 \<or> y < x then x else y)"
  by (auto simp: not_less)

interpretation tcp_st: interval_stats tcp_stats
  by unfold_locales
    (use max_note in \<open>auto simp: tcp_stats_def note_retrans_def note_rtt_def same_bytes_def same_span_def
       no_losses_def retrans_delta_def Let_def\<close>)

interpretation rudp_st: interval_stats "rudp_stats e" for e
  by unfold_locales
    (use max_note in \<open>auto simp: rudp_stats_def stats_defs same_bytes_def same_span_def
       no_losses_def retrans_delta_def Let_def\<close>)

interpretation kcp_st: interval_stats "kcp_stats e" for e
  by unfold_locales
    (use max_note in \<open>auto simp: kcp_stats_def stats_defs same_bytes_def same_span_def
       no_losses_def retrans_delta_def Let_def\<close>)

end
