(* ===== verification/Control.thy ===== *)
theory Control
  imports Accounting
begin

text \<open>
  The operations of \<open>iperf_api.go\<close> that set up a test and change its control state:
  construction, the choice of protocol and direction, announcing a control state to the peer,
  streams, the start of a test, and pacing.
\<close>

section \<open>Construction\<close>

definition NewIperfTest :: "(nat \<Rightarrow> env_sample) \<Rightarrow> world" where
  "NewIperfTest e = \<lparr>isServer = False, mode = False, reverse = False, addr = [], port = 0,
     state = 0, duration = 0, noDelay = False, interval = 0, proto = None, protocols = [],
     listener = None, protoListener = None, ctrlConn = None, ctrlChan = [],
     setting = zero_setting, streamNum = 0, streams = [], bytesReceived = 0,
     blocksReceived = 0, bytesSent = 0, blocksSent = 0, done' = False, timer = nil_timer,
     statsTicker = nil_timer, reportTicker = nil_timer, chStats = [], statsCallback = True,
     reporterCallback = True, listeners = [], timers = [], out = [], env = e, ticks = 0\<rparr>"

definition Init :: "(unit, world) go" where
  "Init = go_modify (\<lambda>w. w\<lparr>protocols := protocols w @ [TCPProto, rudpProto, kcpProto]\<rparr>)"

definition setProtocol :: "string \<Rightarrow> (int, world) go" where
  "setProtocol protoName w =
     (case find (\<lambda>p. protoName = protocol_name p) (protocols w) of
        Some p \<Rightarrow> (Ret 0, w\<lparr>proto := Some p\<rparr>)
      | None \<Rightarrow> (Ret (- 1), w))"

definition setTestReverse :: "bool \<Rightarrow> (unit, world) go" where
  "setTestReverse r = go_modify (\<lambda>w. w\<lparr>reverse := r,
     mode := (if r then (if isServer w then IPERF_SENDER else IPERF_RECEIVER)
              else (if isServer w then IPERF_RECEIVER else IPERF_SENDER))\<rparr>)"

section \<open>Control states\<close>

text \<open>The state is stored, passed to the main loop, and written to the peer in four bytes.\<close>

definition setSendState :: "uint \<Rightarrow> (int, world) go" where
  "setSendState st =
     go_then (go_modify (\<lambda>w. w\<lparr>state := st\<rparr>)) (
     go_then (ctrl_send st) (
     go_bind (ctrl_conn (conn_write (PutUint32 (ucast st)))) (\<lambda>(n, err).
     if err \<noteq> None then go_return (- 1) else go_return 0)))"

section \<open>Streams\<close>

text \<open>\<open>make([]byte, n)\<close> panics beyond the address space of the allocator (48 bits on amd64).\<close>

definition max_alloc :: nat where "max_alloc = 2 ^ 48"

definition too_large :: "uint \<Rightarrow> nat \<Rightarrow> bool" where
  "too_large n sz = (max_alloc < unat n * sz)"

lemma too_large_iff [simp]: "too_large n sz \<longleftrightarrow> max_alloc < unat n * sz"
  by (simp add: too_large_def)

lemma too_large_code [code]: "too_large n sz = (0x1000000000000 < uint n * int sz)"
proof -
  have "uint n * int sz = int (unat n * sz)" by simp
  moreover have "(0x1000000000000 :: int) = int max_alloc" by (simp add: max_alloc_def)
  ultimately show ?thesis unfolding too_large_def by (metis of_nat_less_iff)
qed

definition newStream :: "conn \<Rightarrow> int \<Rightarrow> (iperf_stream, world) go" where
  "newStream c sender_flag =
     via_proto (\<lambda>p.
     go_bind (go_gets (\<lambda>w. blksize (setting w))) (\<lambda>blk.
     if too_large blk 1 then go_panic MakeSliceLen else
     (let hello = bytes_of ''hello world!''; buf = replicate (unat blk) 0;
          k = min (length hello) (length buf) in
      go_return \<lparr>role = sender_flag, result = zero_results, canSend = False, conn = c,
        sendTicker = nil_timer, buffer = take k hello @ drop k buf, rcv = p, snd' = p\<rparr>)))"

text \<open>Closing stops at the first stream whose \<open>Close\<close> reports an error.\<close>

definition closeAllStreams :: "(int, world) go" where
  "closeAllStreams =
     go_bind (each_stream (\<lambda>i.
       go_bind (with_stream i (on_conn conn_close)) (\<lambda>err.
       go_return (if err then Some (- 1) else None)))) (or_else 0)"

definition set_start :: "time \<Rightarrow> iperf_stream \<Rightarrow> iperf_stream" where
  "set_start now sp = sp\<lparr>result := (result sp)\<lparr>start_time := now, start_time_fixed := now\<rparr>\<rparr>"

text \<open>The result of \<open>proto.init\<close> is ignored.\<close>

definition initTest :: "(int, world) go" where
  "initTest =
     go_bind (via_proto proto_init) (\<lambda>_.
     go_bind time_Now (\<lambda>now.
     go_bind (each_stream (\<lambda>i.
       go_then (with_stream i (go_modify (set_start now))) (go_return None))) (or_else 0)))"

definition start_sender :: "nat \<Rightarrow> (int option, world) go" where
  "start_sender i =
     go_then (with_stream i (go_modify (\<lambda>sp. sp\<lparr>canSend := True\<rparr>))) (
     go_bind (go_gets setting) (\<lambda>st.
     if rate st \<noteq> 0 then
       if pacingTime st = 0 \<or> burst st then go_return (Some (- 1))
       else
         go_bind time_Now (\<lambda>_.
         go_bind (tickerCreate (SendTick i) (pacingTime st) (- 1)) (\<lambda>t.
         go_then (with_stream i (go_modify (\<lambda>sp. sp\<lparr>sendTicker := t\<rparr>))) (go_return None)))
     else go_return None))"

definition createSenderTicker :: "(int, world) go" where
  "createSenderTicker = go_bind (each_stream start_sender) (or_else 0)"

section \<open>Pacing\<close>

text \<open>The throughput so far in bits per second.\<close>

definition bits_per_second :: "time \<Rightarrow> iperf_stream_results \<Rightarrow> f64" where
  "bits_per_second now rp =
     f64_div (f64_of_uint (bytes_sent rp * 8)) (Seconds (time_Sub now (start_time rp)))"

definition throttle :: "uint \<Rightarrow> time \<Rightarrow> iperf_stream \<Rightarrow> iperf_stream" where
  "throttle r now sp =
     (let bps = bits_per_second now (result sp) in
      if f64_less bps (f64_of_uint r) \<and> \<not> canSend sp then sp\<lparr>canSend := True\<rparr>
      else if f64_less (f64_of_uint r) bps \<and> canSend sp then sp\<lparr>canSend := False\<rparr>
      else sp)"

definition checkThrottle :: "nat \<Rightarrow> time \<Rightarrow> (unit, world) go" where
  "checkThrottle i now =
     go_bind (go_gets (\<lambda>w. (done' w, rate (setting w)))) (\<lambda>(d, r).
     if d then go_return ()
     else with_stream i (go_modify (throttle r now)))"

section \<open>Lemmas\<close>

lemma setProtocol_known:
  "protocols w = [TCPProto, rudpProto, kcpProto] \<Longrightarrow>
   setProtocol (protocol_name p) w = (Ret 0, w\<lparr>proto := Some p\<rparr>)"
  by (cases p) (simp_all add: setProtocol_def proto_names)

lemma setProtocol_unknown:
  "(\<And>p. name \<noteq> protocol_name p) \<Longrightarrow> setProtocol name w = (Ret (- 1), w)"
  by (simp add: setProtocol_def find_None_iff split: option.splits)

lemma setSendState_run:
  assumes "length (ctrlChan w) < 5" "ctrlConn w = Some c" "\<not> c_closed c" "c_wr c = []"
  shows "setSendState st w =
    (Ret 0, w\<lparr>state := st, ctrlChan := ctrlChan w @ [st],
              ctrlConn := Some (c\<lparr>c_sent := c_sent c @ PutUint32 (ucast st)\<rparr>)\<rparr>)"
  using assms by (simp add: setSendState_def go_simps conn_write_ok go_bind_Ret)

lemma setSendState_closed:
  assumes "length (ctrlChan w) < 5" "ctrlConn w = Some c" "c_closed c"
  shows "\<exists>w'. setSendState st w = (Ret (- 1), w')"
  using assms by (simp add: setSendState_def go_simps conn_write_closed go_bind_Ret)

lemma setSendState_full:
  "\<not> length (ctrlChan w) < 5 \<Longrightarrow> setSendState st w = (Blocked, w\<lparr>state := st\<rparr>)"
  by (simp add: setSendState_def go_simps go_bind_Blocked)

section \<open>A small test\<close>

text \<open>
  Concrete values used to apply the theorems: an open connection with nothing to read, an
  environment whose clock stands still, and a sending TCP test with two streams and blocks
  of four bytes.
\<close>

definition quiet_conn :: conn where
  "quiet_conn = \<lparr>c_remote = ''10.0.0.2:40000'', c_rd = [], c_wr = [], c_sent = [], c_closed = False, c_close_err = False, c_opts = []\<rparr>"

definition zero_snmp :: snmp where
  "zero_snmp = \<lparr>RetransSegs = 0, LostSegs = 0, EarlyRetransSegs = 0, FastRetransSegs = 0,
     FECRecovered = 0, SnmpInPkts = 0, SnmpInSegs = 0, SnmpOutPkts = 0, SnmpOutSegs = 0, RepeatSegs = 0\<rparr>"

definition quiet_env :: env_sample where
  "quiet_env = \<lparr>e_now = 0, e_conn = GotConn quiet_conn, e_err = False, e_rudp_snmp = zero_snmp,
     e_kcp_snmp = zero_snmp, e_rto = 0, e_srttvar = 0,
     e_tcp_info = \<lparr>Tcpi_rtt = 0, Tcpi_rto = 0, Tcpi_total_retrans = 0\<rparr>,
     e_verbose = False, e_rows = []\<rparr>"

definition small_stream :: "int \<Rightarrow> iperf_stream" where
  "small_stream rl = \<lparr>role = rl, result = zero_results, canSend = True, conn = quiet_conn,
     sendTicker = nil_timer, buffer = [1, 2, 3, 4], rcv = TCPProto, snd' = TCPProto\<rparr>"

definition small_test :: world where
  "small_test = (NewIperfTest (\<lambda>_. quiet_env))
     \<lparr>mode := IPERF_SENDER, proto := Some TCPProto, protocols := [TCPProto, rudpProto, kcpProto],
      duration := 10, interval := 1000, streamNum := 2, setting := zero_setting\<lparr>blksize := 4, burst := True\<rparr>,
      ctrlConn := Some quiet_conn, streams := [small_stream SENDER_STREAM, small_stream SENDER_STREAM]\<rparr>"

end
