(* ===== verification/Streams.thy ===== *)
theory Streams
  imports Control
begin

text \<open>
  The data phase of a test, from \<open>iperf_api.go\<close>: the statistics callback, and the loops
  \<open>iperfSend\<close> and \<open>iperfRecv\<close> that the goroutine of each stream runs. A pass through the loop
  body is one computation; it yields \<open>True\<close> when the goroutine returns. The theorems hold for
  every interleaving of the passes of all the streams with the statistics callback.
\<close>

section \<open>The statistics callback\<close>

definition stats_of_stream :: "nat \<Rightarrow> (unit, world) go" where
  "stats_of_stream i =
     go_bind (with_stream i (go_gets result)) (\<lambda>rp.
     go_bind time_Now (\<lambda>now.
     go_then (with_stream i (go_modify (\<lambda>sp. sp\<lparr>result := (result sp)\<lparr>end_time := now\<rparr>\<rparr>))) (
     go_bind (via_proto (\<lambda>p. proto_statsCallback p i
       (zero_interval\<lparr>interval_start_time := interval_start rp, interval_end_time := now,
          interval_dur := time_Sub now (interval_start rp)\<rparr>))) (\<lambda>tmp.
     go_bind (go_gets mode) (\<lambda>m.
     with_stream i (go_modify (\<lambda>sp. sp\<lparr>result := close_interval m tmp (result sp)\<rparr>)))))))"

definition iperfStatsCallback :: "(unit, world) go" where
  "iperfStatsCallback =
     go_bind (each_stream (\<lambda>i. go_then (stats_of_stream i) (go_return (None :: unit option)))) (\<lambda>_.
     stats_send)"

section \<open>The sending and the receiving loop\<close>

text \<open>The pause between two sends: a millisecond, or what the rate asks for.\<close>

definition send_interval :: "iperfSetting \<Rightarrow> iperf_stream \<Rightarrow> duration" where
  "send_interval st sp =
     (if \<not> burst st \<and> rate st \<noteq> 0
      then sint ((word_of_nat (length (buffer sp)) * 8 * 1000000000 :: u64) div rate st)
      else 1000000)"

definition iperfSend_start :: "nat \<Rightarrow> (unit, world) go" where
  "iperfSend_start i =
     go_bind (go_gets setting) (\<lambda>st.
     go_bind (with_stream i (go_gets (send_interval st))) (\<lambda>d.
     if d \<le> 0 then go_panic NonPositiveTicker else go_return ()))"

definition send_finished :: "world \<Rightarrow> bool" where
  "send_finished w \<longleftrightarrow>
     (duration w \<noteq> 0 \<and> done' w) \<or>
     (bytes (setting w) \<noteq> 0 \<and> bytes (setting w) \<le> bytesSent w) \<or>
     (blocks (setting w) \<noteq> 0 \<and> blocks (setting w) \<le> blocksSent w)"

text \<open>The part of the pass after the send: pacing, and the test for the end.\<close>

definition send_rest :: "nat \<Rightarrow> (bool, world) go" where
  "send_rest i =
     go_bind (go_gets (\<lambda>w. burst (setting w))) (\<lambda>b.
     go_then (if b then go_return () else go_bind time_Now (checkThrottle i)) (
     go_bind (go_gets send_finished) (\<lambda>fin.
     if fin then go_then (ctrl_send TEST_END) (go_return True) else go_return False)))"

definition iperfSend :: "nat \<Rightarrow> (bool, world) go" where
  "iperfSend i =
     go_bind (with_stream i (go_gets canSend)) (\<lambda>can.
     if can then
       go_bind (with_stream i (\<lambda>sp. proto_send (snd' sp) sp)) (\<lambda>n.
       if n < 0 then go_return True
       else
         go_then (go_modify (\<lambda>w. w\<lparr>bytesSent := bytesSent w + word_of_int n,
                                   blocksSent := blocksSent w + 1\<rparr>))
         (send_rest i))
     else send_rest i)"

definition iperfRecv :: "nat \<Rightarrow> (bool, world) go" where
  "iperfRecv i =
     go_bind (go_gets state) (\<lambda>st.
     go_bind (with_stream i (\<lambda>sp. proto_recv (rcv sp) st sp)) (\<lambda>n.
     if n < 0 then go_return True
     else
       go_then (go_modify (\<lambda>w. if state w = TEST_RUNNING
           then w\<lparr>bytesReceived := bytesReceived w + word_of_int n,
                  blocksReceived := blocksReceived w + 1\<rparr> else w)) (
       go_bind (go_gets done') (\<lambda>d.
       if d then go_then (ctrl_send TEST_END) (go_return True) else go_return False))))"

section \<open>What every pass keeps\<close>

definition sum_sent :: "world \<Rightarrow> u64" where
  "sum_sent w = sum_list (map (\<lambda>sp. bytes_sent (result sp)) (streams w))"

definition sum_received :: "world \<Rightarrow> u64" where
  "sum_received w = sum_list (map (\<lambda>sp. bytes_received (result sp)) (streams w))"

text \<open>
  The books of a test in a given direction: the ledgers of each stream, and the counters of
  the test against those of its streams.
\<close>

definition books :: "bool \<Rightarrow> world \<Rightarrow> bool" where
  "books m w \<longleftrightarrow> mode w = m \<and> proto w \<noteq> None \<and> list_all (\<lambda>sp. ledgers m (result sp)) (streams w) \<and>
     bytesSent w = sum_sent w \<and> bytesReceived w = sum_received w"

lemma sum_list_update_word:
  "i < length xs \<Longrightarrow> sum_list (map f (xs[i := y])) = sum_list (map f xs) + f y - (f (xs ! i) :: u64)"
  by (induction xs arbitrary: i) (auto split: nat.splits simp: algebra_simps)

lemma sum_sent_update:
  "i < length (streams w) \<Longrightarrow>
   sum_sent (w\<lparr>streams := (streams w)[i := sp]\<rparr>) =
     sum_sent w + bytes_sent (result sp) - bytes_sent (result (streams w ! i))"
  by (simp add: sum_sent_def sum_list_update_word [where f = "\<lambda>sp. bytes_sent (result sp)"])

lemma sum_received_update:
  "i < length (streams w) \<Longrightarrow>
   sum_received (w\<lparr>streams := (streams w)[i := sp]\<rparr>) =
     sum_received w + bytes_received (result sp) - bytes_received (result (streams w ! i))"
  by (simp add: sum_received_def sum_list_update_word [where f = "\<lambda>sp. bytes_received (result sp)"])

lemma list_all_update: "list_all P xs \<Longrightarrow> P y \<Longrightarrow> list_all P (xs[i := y])"
  by (auto simp: list_all_iff dest: set_update_subset_insert [THEN subsetD])

lemma list_all_nth': "list_all P xs \<Longrightarrow> i < length xs \<Longrightarrow> P (xs ! i)"
  by (simp add: list_all_length)

lemma books_ledger: "books m w \<Longrightarrow> i < length (streams w) \<Longrightarrow> ledgers m (result (streams w ! i))"
  using list_all_nth' [of "\<lambda>sp. ledgers m (result sp)" "streams w" i] by (simp add: books_def)

text \<open>Replacing a stream by one with the same counters and good ledgers.\<close>

lemma books_update:
  assumes "books m w" "i < length (streams w)" "ledgers m (result sp)"
    and "bytes_sent (result sp) = bytes_sent (result (streams w ! i))"
    and "bytes_received (result sp) = bytes_received (result (streams w ! i))"
  shows "books m (w\<lparr>streams := (streams w)[i := sp]\<rparr>)"
  using assms sum_sent_update [of i w sp] sum_received_update [of i w sp]
  by (simp add: books_def list_all_update)

lemma books_frame:
  "books m w \<Longrightarrow> mode w' = mode w \<Longrightarrow> proto w' = proto w \<Longrightarrow> streams w' = streams w \<Longrightarrow>
   bytesSent w' = bytesSent w \<Longrightarrow> bytesReceived w' = bytesReceived w \<Longrightarrow> books m w'"
  by (simp add: books_def sum_sent_def sum_received_def)

lemma keeps_books_ctrl_send [keeps_intros]: "keeps (books m) (ctrl_send v)"
  by (rule keepsI) (auto simp: ctrl_send_def chan_send_def intro: books_frame)

lemma keeps_books_stats_send [keeps_intros]: "keeps (books m) stats_send"
  by (rule keepsI) (auto simp: stats_send_def chan_send_def intro: books_frame)

lemma keeps_books_env [keeps_intros]: "keeps (books m) env_next"
  by (rule keepsI) (auto simp: env_next_def intro: books_frame)

lemma keeps_books_now [keeps_intros]: "keeps (books m) time_Now"
  unfolding time_Now_def by (intro keeps_intros)

lemma keeps_books_printf [keeps_intros]: "keeps (books m) (go_Printf f args)"
  by (rule keepsI) (auto simp: go_Printf_def go_simps intro: books_frame)

lemma keeps_books_read_stream [keeps_intros]: "keeps (books m) (with_stream i (go_gets f))"
  by (rule keeps_with_stream) (simp add: go_simps)

lemma throttle_result [simp]: "result (throttle r now sp) = result sp"
  by (simp add: throttle_def Let_def)

lemma keeps_books_throttle [keeps_intros]: "keeps (books m) (checkThrottle i now)"
  unfolding checkThrottle_def
  by (intro keeps_intros keeps_with_stream)
    (auto simp: go_simps split: prod.splits
      intro!: keeps_intros keeps_with_stream books_update elim: list_all_nth' simp: books_def)

section \<open>One pass of each loop keeps the books\<close>

lemma keeps_books_send_rest [keeps_intros]: "keeps (books m) (send_rest i)"
  unfolding send_rest_def by (intro keeps_intros)

lemma books_after_send:
  assumes b: "books True w" and i: "i < length (streams w)"
    and s: "proto_send p (streams w ! i) = (Ret n, sp)" and n: "0 \<le> n"
  shows "books True (w\<lparr>streams := (streams w)[i := sp], bytesSent := bytesSent w + word_of_int n,
    blocksSent := blocksSent w + 1\<rparr>)"
proof -
  have "ledgers True (result sp)"
    using io.send_ledgers [of "streams w ! i" p] books_ledger [OF b i] s by simp
  then have "list_all (\<lambda>sp. ledgers True (result sp)) ((streams w)[i := sp])"
    using b by (simp add: books_def list_all_update)
  moreover have "sum_sent (w\<lparr>streams := (streams w)[i := sp]\<rparr>) = sum_sent w + word_of_int n"
    using sum_sent_update [OF i] io.send_total [OF s] n by simp
  moreover have "sum_received (w\<lparr>streams := (streams w)[i := sp]\<rparr>) = sum_received w"
    using sum_received_update [OF i] io.send_received_same [OF s] by simp
  ultimately show ?thesis
    using b by (simp add: books_def sum_sent_def sum_received_def)
qed

lemma keeps_books_iperfSend: "keeps (books True) (iperfSend i)"
proof (rule keepsI)
  fix w assume b: "books True w"
  show "books True (snd (iperfSend i w))"
  proof (cases "i < length (streams w)")
    case False
    with b show ?thesis
      by (simp add: iperfSend_def with_stream_def go_bind_Panicked)
  next
    case i: True
    let ?sp = "streams w ! i"
    have can: "with_stream i (go_gets canSend) w = (Ret (canSend ?sp), w)"
      using i by (simp add: with_stream_def go_simps)
    obtain n sp where s: "proto_send (snd' ?sp) ?sp = (Ret n, sp)"
      using io.send_returns by blast
    then have ws: "with_stream i (\<lambda>sp. proto_send (snd' sp) sp) w = (Ret n, w\<lparr>streams := (streams w)[i := sp]\<rparr>)"
      using i by (simp add: with_stream_def)
    consider "\<not> canSend ?sp" | "canSend ?sp" "n < 0" | "canSend ?sp" "0 \<le> n" by linarith
    then show ?thesis
    proof cases
      case 1
      with can have "iperfSend i w = send_rest i w"
        by (simp add: iperfSend_def go_bind_Ret)
      with keepsD [OF keeps_books_send_rest b] show ?thesis by simp
    next
      case 2
      with can ws have "iperfSend i w = (Ret True, w\<lparr>streams := (streams w)[i := sp]\<rparr>)"
        by (simp add: iperfSend_def go_bind_Ret go_simps)
      with books_update [OF b i, of sp] io.send_err [OF s] 2 books_ledger [OF b i] show ?thesis by simp
    next
      case 3
      let ?w = "w\<lparr>streams := (streams w)[i := sp], bytesSent := bytesSent w + word_of_int n,
        blocksSent := blocksSent w + 1\<rparr>"
      from 3 can ws have "iperfSend i w = send_rest i ?w"
        by (simp add: iperfSend_def go_bind_Ret go_simps)
      with keepsD [OF keeps_books_send_rest books_after_send [OF b i s]] 3 show ?thesis by simp
    qed
  qed
qed

lemma books_after_recv:
  assumes b: "books False w" and i: "i < length (streams w)"
    and r: "proto_recv p (state w) (streams w ! i) = (Ret n, sp)" and n: "0 \<le> n"
    and sent: "bytes_sent (result sp) = bytes_sent (result (streams w ! i))"
  shows "books False (let w1 = w\<lparr>streams := (streams w)[i := sp]\<rparr> in
    if state w = TEST_RUNNING then w1\<lparr>bytesReceived := bytesReceived w1 + word_of_int n,
      blocksReceived := blocksReceived w1 + 1\<rparr> else w1)"
proof -
  have "ledgers False (result sp)"
    using io.recv_ledgers [of "streams w ! i" p "state w"] books_ledger [OF b i] r by simp
  then have "list_all (\<lambda>sp. ledgers False (result sp)) ((streams w)[i := sp])"
    using b by (simp add: books_def list_all_update)
  moreover have "sum_received (w\<lparr>streams := (streams w)[i := sp]\<rparr>) =
      sum_received w + (if state w = TEST_RUNNING then word_of_int n else 0)"
    using sum_received_update [OF i] io.recv_total [OF r] n by simp
  moreover have "sum_sent (w\<lparr>streams := (streams w)[i := sp]\<rparr>) = sum_sent w"
    using sum_sent_update [OF i, of sp] sent by simp
  ultimately show ?thesis
    using b by (simp add: books_def sum_sent_def sum_received_def Let_def)
qed

lemma recv_received_stuck:
  "proto_recv p st sp = (r, sp') \<Longrightarrow> (\<nexists>n. r = Ret n \<and> 0 \<le> n) \<Longrightarrow> result sp' = result sp"
  using io.recv_err [of p st sp _ sp'] io.recv_stuck [of p st sp r sp'] by (metis not_le)

lemma recv_sent_same:
  assumes "proto_recv p st sp = (r, sp')"
  shows "bytes_sent (result sp') = bytes_sent (result sp)"
proof (cases "\<exists>n. r = Ret n \<and> 0 \<le> n")
  case True
  with assms io.recv_ok [of p st sp _ sp'] show ?thesis by (auto simp: count_received_def)
next
  case False
  with recv_received_stuck [OF assms] show ?thesis by simp
qed

lemma keeps_books_iperfRecv: "keeps (books False) (iperfRecv i)"
proof (rule keepsI)
  fix w assume b: "books False w"
  show "books False (snd (iperfRecv i w))"
  proof (cases "i < length (streams w)")
    case False
    with b show ?thesis
      by (simp add: iperfRecv_def with_stream_def go_simps go_bind_Panicked)
  next
    case i: True
    let ?sp = "streams w ! i"
    obtain r sp where s: "proto_recv (rcv ?sp) (state w) ?sp = (r, sp)" by force
    then have ws: "with_stream i (\<lambda>sp. proto_recv (rcv sp) (state w) sp) w = (r, w\<lparr>streams := (streams w)[i := sp]\<rparr>)"
      using i by (simp add: with_stream_def)
    show ?thesis
    proof (cases "\<exists>n. r = Ret n \<and> 0 \<le> n")
      case False
      have "snd (iperfRecv i w) = w\<lparr>streams := (streams w)[i := sp]\<rparr>"
        using ws False by (cases r) (auto simp: iperfRecv_def go_simps go_bind_def not_le)
      with books_update [OF b i, of sp] recv_received_stuck [OF s False] books_ledger [OF b i]
      show ?thesis by simp
    next
      case True
      then obtain n where n: "r = Ret n" "0 \<le> n" by blast
      let ?w = "let w1 = w\<lparr>streams := (streams w)[i := sp]\<rparr> in
        if state w = TEST_RUNNING then w1\<lparr>bytesReceived := bytesReceived w1 + word_of_int n,
          blocksReceived := blocksReceived w1 + 1\<rparr> else w1"
      let ?rest = "go_bind (go_gets done') (\<lambda>d.
        if d then go_then (ctrl_send TEST_END) (go_return True) else go_return False)"
      have "iperfRecv i w = ?rest ?w"
        using ws n by (simp add: iperfRecv_def go_simps go_bind_Ret Let_def)
      moreover have "keeps (books False) ?rest" by (intro keeps_intros)
      moreover have "books False ?w"
        using books_after_recv [OF b i _ n(2) recv_sent_same [OF s]] s n by simp
      ultimately show ?thesis by (simp add: keeps_def)
    qed
  qed
qed

section \<open>The statistics callback closes an interval\<close>

text \<open>
  What a callback of an implementation does to the process: it replaces the results of its
  stream by those of a function that satisfies the contract \<open>interval_stats\<close>, uses answers of
  the environment, and may print.
\<close>

definition env_only :: "world \<Rightarrow> world \<Rightarrow> bool" where
  "env_only w w' \<longleftrightarrow> w' = w\<lparr>ticks := ticks w', out := out w'\<rparr>"

lemma saved_tcp_info:
  "\<exists>tmp1 w'. saveTCPInfo tmp w = (Ret tmp1, w') \<and>
     env_only w w' \<and> same_span tmp tmp1 \<and> no_losses tmp1 = no_losses tmp"
  by (simp add: saveTCPInfo_def go_simps env_only_def same_span_def no_losses_def)

lemma with_results_run:
  "i < length (streams w) \<Longrightarrow> f (result (streams w ! i)) = (rp, tmp) \<Longrightarrow>
   with_stream i (\<lambda>sp. case f (result sp) of (rp, tmp) \<Rightarrow> (Ret tmp, sp\<lparr>result := rp\<rparr>)) w =
     (Ret tmp, w\<lparr>streams := (streams w)[i := (streams w ! i)\<lparr>result := rp\<rparr>]\<rparr>)"
  by (simp add: with_stream_def)

lemma env_onlyE:
  assumes "env_only w w'" obtains t xs where "w' = w\<lparr>ticks := t, out := xs\<rparr>"
  using assms by (auto simp: env_only_def)

lemma proto_stats_run:
  assumes p: "proto w = Some p" and i: "i < length (streams w)"
  shows "\<exists>stats tmp1 rp' tmp' t xs. interval_stats stats \<and>
    proto_statsCallback p i tmp w = (Ret tmp',
      w\<lparr>streams := (streams w)[i := (streams w ! i)\<lparr>result := rp'\<rparr>], ticks := t, out := xs\<rparr>) \<and>
    stats (result (streams w ! i)) tmp1 = (rp', tmp') \<and>
    same_span tmp tmp1 \<and> no_losses tmp1 = no_losses tmp"
proof (cases p)
  case TCPProto
  let ?sp = "streams w ! i"
  obtain tmp1 w' where s: "saveTCPInfo tmp w = (Ret tmp1, w')"
    and e: "env_only w w'" "same_span tmp tmp1" "no_losses tmp1 = no_losses tmp"
    using saved_tcp_info by blast
  from e(1) obtain t xs where w': "w' = w\<lparr>ticks := t, out := xs\<rparr>" by (rule env_onlyE)
  obtain rp' tmp' where st: "tcp_stats (result ?sp) tmp1 = (rp', tmp')" by force
  have "proto_statsCallback p i tmp w = (Ret tmp',
      w\<lparr>streams := (streams w)[i := ?sp\<lparr>result := rp'\<rparr>], ticks := t, out := xs\<rparr>)"
    using p i s st w'
    by (simp add: TCPProto tcp_statsCallback_def go_simps go_bind_Ret with_results_run)
  with st e show ?thesis using tcp_st.interval_stats_axioms by blast
next
  case rudpProto
  let ?sp = "streams w ! i" and ?e = "env w (ticks w)"
  obtain rp' tmp' where st: "rudp_stats ?e (result ?sp) tmp = (rp', tmp')" by force
  have "proto_statsCallback p i tmp w = (Ret tmp',
      w\<lparr>streams := (streams w)[i := ?sp\<lparr>result := rp'\<rparr>], ticks := Suc (ticks w), out := out w\<rparr>)"
    using i st by (simp add: rudpProto rudp_statsCallback_def go_simps go_bind_Ret with_results_run)
  moreover have "same_span tmp tmp" by (simp add: same_span_def)
  ultimately show ?thesis using st rudp_st.interval_stats_axioms by blast
next
  case kcpProto
  let ?sp = "streams w ! i" and ?e = "env w (ticks w)"
  obtain rp' tmp' where st: "kcp_stats ?e (result ?sp) tmp = (rp', tmp')" by force
  have "proto_statsCallback p i tmp w = (Ret tmp',
      w\<lparr>streams := (streams w)[i := ?sp\<lparr>result := rp'\<rparr>], ticks := Suc (ticks w), out := out w\<rparr>)"
    using i st by (simp add: kcpProto kcp_statsCallback_def go_simps go_bind_Ret with_results_run)
  moreover have "same_span tmp tmp" by (simp add: same_span_def)
  ultimately show ?thesis using st kcp_st.interval_stats_axioms by blast
qed

text \<open>One stream: a new interval with the bytes since the last one, the totals unchanged.\<close>

definition interval_closed :: "bool \<Rightarrow> iperf_stream \<Rightarrow> iperf_stream \<Rightarrow> bool" where
  "interval_closed m sp sp' \<longleftrightarrow>
     (let rp = result sp; rp' = result sp' in
      sp' = sp\<lparr>result := rp'\<rparr> \<and>
      (\<exists>r. interval_results rp' = interval_results rp @ [r] \<and>
         bytes_transfered r = (if m then bytes_sent_this_interval rp else bytes_received_this_interval rp) \<and>
         interval_start_time r = interval_start rp \<and> interval_end_time r = end_time rp') \<and>
      bytes_sent rp' = bytes_sent rp \<and> bytes_received rp' = bytes_received rp \<and>
      start_time rp' = start_time rp \<and>
      bytes_sent_this_interval rp' = 0 \<and> bytes_received_this_interval rp' = 0 \<and>
      (ledgers m rp \<longrightarrow> ledgers m rp'))"

lemma close_interval_closed:
  assumes st: "interval_stats stats" "stats ((result sp)\<lparr>end_time := now\<rparr>) tmp1 = (rp', tmp')"
    and sp: "same_span (zero_interval\<lparr>interval_start_time := interval_start (result sp),
      interval_end_time := now, interval_dur := time_Sub now (interval_start (result sp))\<rparr>) tmp1"
    and nl: "no_losses tmp1"
  shows "interval_closed m sp (sp\<lparr>result := close_interval m tmp' rp'\<rparr>)"
proof -
  note b = interval_stats.bytes_kept [OF st, unfolded same_bytes_def]
    and t = interval_stats.span_kept [OF st, unfolded same_span_def]
  from sp have tmp1: "interval_start_time tmp1 = interval_start (result sp)"
    "interval_end_time tmp1 = now" "interval_dur tmp1 = time_Sub now (interval_start (result sp))"
    by (simp_all add: same_span_def)
  have "ledgers m (result sp) \<longrightarrow> ledgers m (close_interval m tmp' rp')"
    using interval_stats.close_ledgers [OF st(1) _ st(2) tmp1 nl] by blast
  with b t tmp1 show ?thesis
    by (simp add: interval_closed_def Let_def close_interval_def)
qed

lemma stats_of_stream_run:
  assumes p: "proto w = Some p" and i: "i < length (streams w)"
  shows "\<exists>sp' t xs. stats_of_stream i w =
      (Ret (), w\<lparr>streams := (streams w)[i := sp'], ticks := t, out := xs\<rparr>) \<and>
    interval_closed (mode w) (streams w ! i) sp'"
proof -
  let ?sp = "streams w ! i"
  let ?now = "e_now (env w (ticks w))"
  let ?sp1 = "?sp\<lparr>result := (result ?sp)\<lparr>end_time := ?now\<rparr>\<rparr>"
  let ?w1 = "w\<lparr>ticks := Suc (ticks w), streams := (streams w)[i := ?sp1]\<rparr>"
  let ?tmp = "zero_interval\<lparr>interval_start_time := interval_start (result ?sp),
    interval_end_time := ?now, interval_dur := time_Sub ?now (interval_start (result ?sp))\<rparr>"
  have "proto ?w1 = Some p" "i < length (streams ?w1)" using p i by simp_all
  from proto_stats_run [OF this, of ?tmp] obtain stats tmp1 rp' tmp' t xs where
    st: "interval_stats stats" "stats (result (streams ?w1 ! i)) tmp1 = (rp', tmp')"
    and run: "proto_statsCallback p i ?tmp ?w1 = (Ret tmp',
      ?w1\<lparr>streams := (streams ?w1)[i := (streams ?w1 ! i)\<lparr>result := rp'\<rparr>], ticks := t, out := xs\<rparr>)"
    and tmp: "same_span ?tmp tmp1" "no_losses tmp1 = no_losses ?tmp" by blast
  let ?sp' = "?sp\<lparr>result := close_interval (mode w) tmp' rp'\<rparr>"
  have "stats_of_stream i w =
      (Ret (), w\<lparr>streams := (streams w)[i := ?sp'], ticks := t, out := xs\<rparr>)"
    using i p run
    by (simp add: stats_of_stream_def with_stream_def go_simps go_bind_Ret)
  moreover have "no_losses tmp1" unfolding tmp(2) by (simp add: no_losses_def zero_interval_def)
  then have "interval_closed (mode w) ?sp ?sp'"
    using close_interval_closed [OF st(1) _ tmp(1)] st(2) i by simp
  ultimately show ?thesis by blast
qed

lemma stats_loop_run:
  assumes "proto w = Some p" and "k + length xs = length (streams w)"
    and "xs = [k..<length (streams w)]"
  shows "\<exists>ss t os. go_each (\<lambda>i. go_then (stats_of_stream i) (go_return (None :: unit option))) xs w =
      (Ret None, w\<lparr>streams := take k (streams w) @ ss, ticks := t, out := os\<rparr>) \<and>
    list_all2 (interval_closed (mode w)) (drop k (streams w)) ss"
  using assms
proof (induction xs arbitrary: k w)
  case Nil
  from Nil have "go_each (\<lambda>i. go_then (stats_of_stream i) (go_return (None :: unit option))) [] w =
      (Ret None, w\<lparr>streams := take k (streams w) @ [], ticks := ticks w, out := out w\<rparr>)"
    by (simp add: go_simps)
  moreover have "list_all2 (interval_closed (mode w)) (drop k (streams w)) []"
    using Nil by simp
  ultimately show ?case by blast
next
  case (Cons i xs)
  have lt: "k < length (streams w)" using Cons.prems(2) by simp
  with Cons.prems(3) have k: "i = k" "k < length (streams w)" "xs = [Suc k..<length (streams w)]"
    using upt_conv_Cons [OF lt] by simp_all
  obtain sp' t os where s: "stats_of_stream k w =
      (Ret (), w\<lparr>streams := (streams w)[k := sp'], ticks := t, out := os\<rparr>)"
    and c: "interval_closed (mode w) (streams w ! k) sp'"
    using stats_of_stream_run [OF Cons.prems(1) k(2)] by blast
  let ?w = "w\<lparr>streams := (streams w)[k := sp'], ticks := t, out := os\<rparr>"
  have "proto ?w = Some p" "Suc k + length xs = length (streams ?w)" "xs = [Suc k..<length (streams ?w)]"
    using Cons.prems k by simp_all
  from Cons.IH [OF this] obtain ss t' os' where
    r: "go_each (\<lambda>i. go_then (stats_of_stream i) (go_return (None :: unit option))) xs ?w =
      (Ret None, ?w\<lparr>streams := take (Suc k) (streams ?w) @ ss, ticks := t', out := os'\<rparr>)"
    and ss: "list_all2 (interval_closed (mode w)) (drop (Suc k) (streams ?w)) ss" by auto
  have "take (Suc k) ((streams w)[k := sp']) = take k (streams w) @ [sp']"
    using k(2) by (simp add: take_Suc_conv_app_nth)
  with r s k(1) have "go_each (\<lambda>i. go_then (stats_of_stream i) (go_return (None :: unit option))) (i # xs) w =
      (Ret None, w\<lparr>streams := take k (streams w) @ (sp' # ss), ticks := t', out := os'\<rparr>)"
    by (simp add: go_simps go_bind_Ret)
  moreover have "list_all2 (interval_closed (mode w)) (drop k (streams w)) (sp' # ss)"
    using c ss k(2) by (simp flip: Cons_nth_drop_Suc)
  ultimately show ?case by blast
qed

lemma iperfStatsCallback_run:
  assumes p: "proto w = Some p"
  shows "\<exists>ss t os. list_all2 (interval_closed (mode w)) (streams w) ss \<and>
    iperfStatsCallback w =
      (let w1 = w\<lparr>streams := ss, ticks := t, out := os\<rparr> in
       if chStats w = [] then (Ret (), w1\<lparr>chStats := [True]\<rparr>) else (Blocked, w1))"
proof -
  from stats_loop_run [OF p, of 0] obtain ss t os where
    "each_stream (\<lambda>i. go_then (stats_of_stream i) (go_return (None :: unit option))) w =
      (Ret None, w\<lparr>streams := ss, ticks := t, out := os\<rparr>)"
    and "list_all2 (interval_closed (mode w)) (streams w) ss"
    by (auto simp: each_stream_def)
  then show ?thesis
    by (intro exI [of _ ss] exI [of _ t] exI [of _ os] conjI)
      (simp_all add: iperfStatsCallback_def go_simps go_bind_Ret Let_def)
qed

lemma interval_closed_sums:
  assumes "list_all2 (interval_closed m) sps ss"
  shows "map (\<lambda>sp. bytes_sent (result sp)) ss = map (\<lambda>sp. bytes_sent (result sp)) sps \<and>
    map (\<lambda>sp. bytes_received (result sp)) ss = map (\<lambda>sp. bytes_received (result sp)) sps"
  using assms by induction (auto simp: interval_closed_def Let_def)

lemma interval_closed_ledgers:
  assumes "list_all2 (interval_closed m) sps ss" "list_all (\<lambda>sp. ledgers m (result sp)) sps"
  shows "list_all (\<lambda>sp. ledgers m (result sp)) ss"
  using assms by induction (auto simp: interval_closed_def Let_def)

lemma keeps_books_iperfStatsCallback: "keeps (books m) iperfStatsCallback"
proof (rule keepsI)
  fix w assume b: "books m w"
  then obtain p where p: "proto w = Some p" by (auto simp: books_def)
  from iperfStatsCallback_run [OF p] obtain ss t os where
    ss: "list_all2 (interval_closed m) (streams w) ss"
    and run: "iperfStatsCallback w =
      (let w1 = w\<lparr>streams := ss, ticks := t, out := os\<rparr> in
       if chStats w = [] then (Ret (), w1\<lparr>chStats := [True]\<rparr>) else (Blocked, w1))"
    using b by (auto simp: books_def)
  have "books m (w\<lparr>streams := ss\<rparr>)"
    using b interval_closed_sums [OF ss] interval_closed_ledgers [OF ss]
    by (simp add: books_def sum_sent_def sum_received_def)
  then show "books m (snd (iperfStatsCallback w))"
    using run by (auto simp: Let_def intro: books_frame)
qed

section \<open>Every interleaving\<close>

text \<open>
  While a test runs, the goroutines of the streams, the tickers, the timer and the main loop
  act on it. One event is one pass of one of them; any order of events can happen. A stream
  of a sending test is only sent on, one of a receiving test only received from (\<open>role\<close>).
\<close>

datatype data_ev =
  SendPass nat | RecvPass nat | StatsTick | RateTick nat time | DrainCtrl | TimeUp

fun data_go :: "data_ev \<Rightarrow> (unit, world) go" where
  "data_go (SendPass i) = go_bind (iperfSend i) (\<lambda>_. go_return ())"
| "data_go (RecvPass i) = go_bind (iperfRecv i) (\<lambda>_. go_return ())"
| "data_go StatsTick = iperfStatsCallback"
| "data_go (RateTick i now) = checkThrottle i now"
| "data_go DrainCtrl = go_bind ctrl_recv (\<lambda>_. go_return ())"
| "data_go TimeUp = go_modify (\<lambda>w. w\<lparr>done' := True\<rparr>)"

fun data_allowed :: "bool \<Rightarrow> data_ev \<Rightarrow> bool" where
  "data_allowed m (SendPass i) = m"
| "data_allowed m (RecvPass i) = (\<not> m)"
| "data_allowed m _ = True"

inductive data_run :: "bool \<Rightarrow> world \<Rightarrow> world \<Rightarrow> bool" for m where
  data_start: "data_run m w w"
| data_step: "data_run m w u \<Longrightarrow> data_allowed m ev \<Longrightarrow> data_run m w (snd (data_go ev u))"

text \<open>A test whose streams have just been started by \<open>initTest\<close>.\<close>

definition fresh_stream :: "iperf_stream \<Rightarrow> bool" where
  "fresh_stream sp \<longleftrightarrow> (\<exists>t. result sp = zero_results\<lparr>start_time := t, start_time_fixed := t\<rparr>)"

definition fresh_test :: "bool \<Rightarrow> world \<Rightarrow> bool" where
  "fresh_test m w \<longleftrightarrow> mode w = m \<and> proto w \<noteq> None \<and> list_all fresh_stream (streams w) \<and>
     bytesSent w = 0 \<and> bytesReceived w = 0"

lemma books_fresh:
  assumes "fresh_test m w" shows "books m w"
proof -
  have "list_all (\<lambda>sp. ledgers m (result sp)) sps \<and>
      sum_list (map (\<lambda>sp. bytes_sent (result sp)) sps) = 0 \<and>
      sum_list (map (\<lambda>sp. bytes_received (result sp)) sps) = 0" if "list_all fresh_stream sps" for sps
    using that by (induction sps) (auto simp: fresh_stream_def ledgers_zero, simp_all add: zero_results_def)
  with assms show ?thesis
    by (simp add: fresh_test_def books_def sum_sent_def sum_received_def)
qed

lemma keeps_books_ctrl_recv [keeps_intros]: "keeps (books m) ctrl_recv"
  by (rule keepsI) (auto simp: ctrl_recv_def chan_recv_def intro: books_frame split: list.splits)

lemma keeps_books_done: "keeps (books m) (go_modify (\<lambda>w. w\<lparr>done' := True\<rparr>))"
  by (rule keeps_modify) (auto intro: books_frame)

lemma keeps_books_data: "data_allowed m ev \<Longrightarrow> keeps (books m) (data_go ev)"
  by (cases ev)
    (auto intro!: keeps_intros keeps_books_iperfStatsCallback keeps_books_done
      intro: keeps_books_iperfSend keeps_books_iperfRecv)

lemma books_run: "data_run m w w' \<Longrightarrow> books m w \<Longrightarrow> books m w'"
  by (induction rule: data_run.induct) (auto dest: keepsD [OF keeps_books_data])

section \<open>Properties\<close>

definition interval_bytes :: "iperf_stream \<Rightarrow> u64" where
  "interval_bytes sp = sum_list (map bytes_transfered (interval_results (result sp)))"

lemma closed_bytes:
  assumes "list_all2 (interval_closed m) sps ss" "list_all (\<lambda>sp. ledgers m (result sp)) ss"
  shows "map interval_bytes ss =
    map (\<lambda>sp. if m then bytes_sent (result sp) else bytes_received (result sp)) ss"
  using assms
  by induction
    (auto simp: interval_closed_def Let_def interval_bytes_def ledgers_def byte_ledger_def
      sent_ledger_def received_ledger_def)

text \<open>
  C1: In a test started by \<open>initTest\<close>, whatever the order in which the goroutines of the
  streams, the tickers and the timer act, when the statistics callback has run the bytes of
  all reported intervals of all streams add up to the total the test has counted in its
  direction (modulo \<open>2 ^ 64\<close>, like every counter of the program).
\<close>

theorem intervals_add_up:
  assumes "fresh_test m w" "data_run m w u" "iperfStatsCallback u = (r, v)"
  shows "sum_list (map interval_bytes (streams v)) = (if m then bytesSent v else bytesReceived v)"
proof -
  have u: "books m u" using books_run books_fresh assms by blast
  then obtain p where p: "proto u = Some p" "mode u = m" by (auto simp: books_def)
  have v: "books m v" using keeps_run [OF keeps_books_iperfStatsCallback u assms(3)] .
  from iperfStatsCallback_run [OF p(1)] assms(3) p(2) have
    "list_all2 (interval_closed m) (streams u) (streams v)"
    by (auto simp: Let_def split: if_splits)
  from closed_bytes [OF this] v have "map interval_bytes (streams v) =
      map (\<lambda>sp. if m then bytes_sent (result sp) else bytes_received (result sp)) (streams v)"
    by (simp add: books_def)
  from arg_cong [OF this, of sum_list] v show ?thesis
    by (cases m) (simp_all only: books_def sum_sent_def sum_received_def if_True if_False)
qed

text \<open>
  C11: In every state such a test can reach, each stream's books are in order: the bytes of
  its closed intervals and of the open one add up to its total; each of the four totals of
  retransmissions and losses is the sum over its intervals and agrees with the last reading
  of the foreign counter; the intervals follow each other without gap or overlap from the
  start of the test; no interval has a larger round trip time than the recorded maximum.
\<close>

theorem stream_books_in_order:
  assumes "fresh_test m w" "data_run m w u" "i < length (streams u)"
  shows "byte_ledger m (result (streams u ! i)) \<and> retrans_ledger (result (streams u ! i)) \<and>
    timeline (result (streams u ! i)) \<and> rtt_bounds (result (streams u ! i))"
  using books_ledger [OF books_run [OF assms(2) books_fresh [OF assms(1)]] assms(3)]
  by (simp add: ledgers_def)

text \<open>What a pass leaves in the control channel.\<close>

lemma send_rest_end:
  assumes "send_rest i w = (Ret b, w')"
  shows "b = send_finished w' \<and> ctrlChan w' = ctrlChan w @ (if b then [TEST_END] else [])"
proof -
  obtain r w1 where t: "(if burst (setting w) then go_return () else go_bind time_Now (checkThrottle i)) w = (r, w1)"
    by force
  have w1: "ctrlChan w1 = ctrlChan w"
    using t by (auto simp: go_simps go_bind_Ret checkThrottle_def with_stream_def split: if_splits)
  show ?thesis
  proof (cases r)
    case (Ret u)
    with t assms have rest: "(if send_finished w1 then go_then (ctrl_send TEST_END) (go_return True) else go_return False) w1 = (Ret b, w')"
      by (simp add: send_rest_def go_simps go_bind_Ret)
    show ?thesis
    proof (cases "send_finished w1")
      case False
      with rest w1 show ?thesis by (auto simp: go_simps)
    next
      case True
      with rest have "length (ctrlChan w1) < 5 \<and> b \<and> w' = w1\<lparr>ctrlChan := ctrlChan w1 @ [TEST_END]\<rparr>"
        by (cases "length (ctrlChan w1) < 5") (auto simp: go_simps go_bind_Ret go_bind_Blocked)
      with True w1 show ?thesis by (auto simp: send_finished_def)
    qed
  qed (use t assms in \<open>simp_all add: send_rest_def go_simps go_bind_def\<close>)
qed

lemma iperfSend_shape:
  assumes "iperfSend i w = (Ret b, w')"
  shows "if ctrlChan w' = ctrlChan w
    then b = (canSend (streams w ! i) \<and> (\<exists>n. n < 0 \<and> fst (proto_send (snd' (streams w ! i)) (streams w ! i)) = Ret n)) \<and>
      (\<not> b \<longrightarrow> \<not> send_finished w')
    else b \<and> send_finished w' \<and> ctrlChan w' = ctrlChan w @ [TEST_END]"
proof -
  have i: "i < length (streams w)"
    using assms by (cases "i < length (streams w)") (auto simp: iperfSend_def with_stream_def go_bind_Panicked)
  let ?sp = "streams w ! i"
  obtain n sp where s: "proto_send (snd' ?sp) ?sp = (Ret n, sp)"
    using io.send_returns by blast
  have can: "with_stream i (go_gets canSend) w = (Ret (canSend ?sp), w)"
    using i by (simp add: with_stream_def go_simps)
  have ws: "with_stream i (\<lambda>sp. proto_send (snd' sp) sp) w = (Ret n, w\<lparr>streams := (streams w)[i := sp]\<rparr>)"
    using i s by (simp add: with_stream_def)
  consider "\<not> canSend ?sp" | "canSend ?sp" "n < 0" | "canSend ?sp" "0 \<le> n" by linarith
  then show ?thesis
  proof cases
    case 1
    with can assms have "send_rest i w = (Ret b, w')" by (simp add: iperfSend_def go_bind_Ret)
    from send_rest_end [OF this] 1 show ?thesis by auto
  next
    case 2
    with can ws assms s show ?thesis by (auto simp: iperfSend_def go_bind_Ret go_simps)
  next
    case 3
    with can ws assms obtain w1 where "send_rest i w1 = (Ret b, w')" "ctrlChan w1 = ctrlChan w"
      by (auto simp: iperfSend_def go_bind_Ret go_simps)
    with send_rest_end 3 s show ?thesis by (auto split: if_splits)
  qed
qed

text \<open>
  C22: A sending goroutine ends in exactly two ways. It ends with \<open>TEST_END\<close> queued for the main
  loop when the test is over (the timer has set \<open>done\<close>, or the byte or block limit is
  reached). It ends without queueing anything when the send failed; nobody then counts this
  stream. Otherwise it goes on, and the test is not over.
\<close>

theorem iperfSend_ends:
  assumes "iperfSend i w = (Ret b, w')"
  shows "if ctrlChan w' = ctrlChan w
    then b = (canSend (streams w ! i) \<and> (\<exists>n. n < 0 \<and> fst (proto_send (snd' (streams w ! i)) (streams w ! i)) = Ret n)) \<and>
      (\<not> b \<longrightarrow> \<not> send_finished w')
    else b \<and> send_finished w' \<and> ctrlChan w' = ctrlChan w @ [TEST_END]"
  using iperfSend_shape [OF assms] .

text \<open>
  C25: Pacing. With a rate and no burst, the pause of a sending goroutine is the time one block
  takes at that rate, rounded down to a nanosecond (as long as the block size is below a
  gibibyte, so that the product of the code does not overflow). When the rate asks for more
  than one block per nanosecond the pause is zero and \<open>time.NewTicker\<close> crashes the process.
\<close>

theorem send_interval_paces:
  assumes "i < length (streams w)" "\<not> burst (setting w)" "rate (setting w) \<noteq> 0"
    and "length (buffer (streams w ! i)) \<le> 1073741824"
  shows "let d = send_interval (setting w) (streams w ! i); r = uint (rate (setting w));
      bit_ns = int (length (buffer (streams w ! i))) * 8000000000 in
    d * r \<le> bit_ns \<and> bit_ns < (d + 1) * r \<and>
    iperfSend_start i w = (if bit_ns < r then (Panicked NonPositiveTicker, w) else (Ret (), w))"
proof -
  let ?n = "length (buffer (streams w ! i))" and ?r = "rate (setting w)"
  let ?d = "send_interval (setting w) (streams w ! i)"
  let ?L = "int ?n * 8000000000"
  have L: "0 \<le> ?L" "?L < 2 ^ 63" using assms(4) by simp_all
  have "uint (word_of_nat ?n * 8 * 1000000000 :: u64) = ?L"
  proof -
    have "(word_of_nat ?n * 8 * 1000000000 :: u64) = word_of_int ?L" by simp
    moreover have "take_bit 64 ?L = ?L" using L by (intro take_bit_int_eq_self) simp_all
    ultimately show ?thesis by (simp only: uint_word_of_int_eq) simp
  qed
  then have q: "uint ((word_of_nat ?n * 8 * 1000000000 :: u64) div ?r) = ?L div uint ?r"
    by (simp add: uint_div_distrib)
  have r: "0 < uint ?r" using assms(3) by (simp add: word_neq_0_conv word_less_def)
  have "?L div uint ?r \<le> ?L" using zdiv_mono2 [of ?L 1 "uint ?r"] L(1) r by simp
  then have "uint ((word_of_nat ?n * 8 * 1000000000 :: u64) div ?r) < 2 ^ 63"
    using q L(2) by linarith
  then have d: "?d = ?L div uint ?r"
    using assms(2,3) q by (simp add: send_interval_def sint_small)
  have "?L = ?d * uint ?r + ?L mod uint ?r" unfolding d by simp
  moreover have "0 \<le> ?L mod uint ?r" "?L mod uint ?r < uint ?r" using r by simp_all
  ultimately have b: "?d * uint ?r \<le> ?L" "?L < (?d + 1) * uint ?r" by (simp_all add: algebra_simps)
  have "?d \<le> 0 \<longleftrightarrow> ?L < uint ?r"
    unfolding d using pos_imp_zdiv_pos_iff [OF r, of ?L] by linarith
  moreover have "iperfSend_start i w = (if ?d \<le> 0 then (Panicked NonPositiveTicker, w) else (Ret (), w))"
    using assms(1) by (simp add: iperfSend_start_def with_stream_def go_simps go_bind_Ret)
  ultimately show ?thesis using b by (simp add: Let_def)
qed

text \<open>
  C17: The end of a test reaches every stream. Once \<open>done\<close> is set (in a test with a duration),
  the next pass of a stream's goroutine is its last: a sender whose send does not fail, or
  that is throttled, and a receiver that receives anything, queue their \<open>TEST_END\<close> and return.
\<close>

theorem done_ends_streams:
  assumes "done' w" "duration w \<noteq> 0" "length (ctrlChan w) < 5" "i < length (streams w)"
  shows "(\<not> canSend (streams w ! i) \<or> (\<exists>n. 0 \<le> n \<and> fst (proto_send (snd' (streams w ! i)) (streams w ! i)) = Ret n) \<longrightarrow>
      (\<exists>w'. iperfSend i w = (Ret True, w') \<and> ctrlChan w' = ctrlChan w @ [TEST_END])) \<and>
    ((\<exists>n. 0 \<le> n \<and> fst (proto_recv (rcv (streams w ! i)) (state w) (streams w ! i)) = Ret n) \<longrightarrow>
      (\<exists>w'. iperfRecv i w = (Ret True, w') \<and> ctrlChan w' = ctrlChan w @ [TEST_END]))"
proof -
  let ?sp = "streams w ! i"
  have rest: "\<exists>w'. send_rest i u = (Ret True, w') \<and> ctrlChan w' = ctrlChan w @ [TEST_END]"
    if "done' u" "duration u \<noteq> 0" "ctrlChan u = ctrlChan w" for u
  proof -
    let ?pace = "if burst (setting u) then go_return () else go_bind time_Now (checkThrottle i)"
    have "\<exists>t. ?pace u = (Ret (), u\<lparr>ticks := t\<rparr>)"
      using that(1) by (auto simp: go_simps go_bind_Ret checkThrottle_def intro: exI [of _ "ticks u"])
    then obtain t where "?pace u = (Ret (), u\<lparr>ticks := t\<rparr>)" by blast
    moreover have "send_finished (u\<lparr>ticks := t\<rparr>)" using that by (simp add: send_finished_def)
    ultimately show ?thesis
      using that(3) assms(3) by (simp add: send_rest_def go_simps go_bind_Ret)
  qed
  have can: "with_stream i (go_gets canSend) w = (Ret (canSend ?sp), w)"
    using assms(4) by (simp add: with_stream_def go_simps)
  have send: "\<exists>w'. iperfSend i w = (Ret True, w') \<and> ctrlChan w' = ctrlChan w @ [TEST_END]"
    if h: "\<not> canSend ?sp \<or> (\<exists>n. 0 \<le> n \<and> fst (proto_send (snd' ?sp) ?sp) = Ret n)"
  proof (cases "canSend ?sp")
    case False
    with can rest [of w] assms(1,2) show ?thesis by (simp add: iperfSend_def go_bind_Ret)
  next
    case True
    with h obtain n sp where s: "proto_send (snd' ?sp) ?sp = (Ret n, sp)" "0 \<le> n" by (metis prod.collapse)
    let ?w = "w\<lparr>streams := (streams w)[i := sp], bytesSent := bytesSent w + word_of_int n,
      blocksSent := blocksSent w + 1\<rparr>"
    have ws: "with_stream i (\<lambda>sp. proto_send (snd' sp) sp) w = (Ret n, w\<lparr>streams := (streams w)[i := sp]\<rparr>)"
      using s(1) assms(4) by (simp add: with_stream_def)
    have "iperfSend i w = send_rest i ?w"
      using True can ws s(2) by (simp add: iperfSend_def go_bind_Ret go_simps)
    with rest [of ?w] assms(1,2) show ?thesis by simp
  qed
  have "\<exists>w'. iperfRecv i w = (Ret True, w') \<and> ctrlChan w' = ctrlChan w @ [TEST_END]"
    if h: "\<exists>n. 0 \<le> n \<and> fst (proto_recv (rcv ?sp) (state w) ?sp) = Ret n"
  proof -
    from h obtain n sp where s: "proto_recv (rcv ?sp) (state w) ?sp = (Ret n, sp)" "0 \<le> n" by (metis prod.collapse)
    let ?w = "w\<lparr>streams := (streams w)[i := sp]\<rparr>"
    let ?w1 = "if state w = TEST_RUNNING then ?w\<lparr>bytesReceived := bytesReceived w + word_of_int n,
      blocksReceived := blocksReceived w + 1\<rparr> else ?w"
    have ws: "with_stream i (\<lambda>sp. proto_recv (rcv sp) (state w) sp) w = (Ret n, ?w)"
      using s(1) assms(4) by (simp add: with_stream_def)
    have "iperfRecv i w = go_bind (go_gets done') (\<lambda>d.
        if d then go_then (ctrl_send TEST_END) (go_return True) else go_return False) ?w1"
      using ws s(2) by (simp add: iperfRecv_def go_bind_Ret go_simps)
    moreover have "done' ?w1" "ctrlChan ?w1 = ctrlChan w" using assms(1) by simp_all
    ultimately show ?thesis
      using assms(3) by (simp add: go_bind_first go_then_run go_bind_Ret ctrl_send_run go_return_run)
  qed
  with send show ?thesis by blast
qed

section \<open>The properties on a small test\<close>

definition small_sent :: world where
  "small_sent = snd (data_go (SendPass 1) (snd (data_go (SendPass 0) small_test)))"

lemma small_fresh: "fresh_test True small_test"
proof -
  have "zero_results = zero_results\<lparr>start_time := 0, start_time_fixed := 0\<rparr>"
    by (simp add: zero_results_def)
  then have "fresh_stream (small_stream SENDER_STREAM)"
    unfolding fresh_stream_def small_stream_def by (intro exI [of _ 0]) simp
  then show ?thesis
    by (simp add: fresh_test_def small_test_def NewIperfTest_def)
qed

lemma small_run: "data_run True small_test small_sent"
  unfolding small_sent_def by (intro data_step data_start) simp_all

theorem intervals_add_up_witness:
  "sum_list (map interval_bytes (streams (snd (iperfStatsCallback small_sent)))) =
     bytesSent (snd (iperfStatsCallback small_sent)) \<and> bytesSent small_sent = 8"
proof
  show "sum_list (map interval_bytes (streams (snd (iperfStatsCallback small_sent)))) =
      bytesSent (snd (iperfStatsCallback small_sent))"
    using intervals_add_up [OF small_fresh small_run, of "fst (iperfStatsCallback small_sent)"
      "snd (iperfStatsCallback small_sent)"] by simp
  show "bytesSent small_sent = 8" by code_simp
qed

theorem stream_books_in_order_witness:
  "byte_ledger True (result (streams small_sent ! 0)) \<and> bytes_sent (result (streams small_sent ! 0)) = 4"
proof
  have "0 < length (streams small_sent)" by code_simp
  from stream_books_in_order [OF small_fresh small_run this]
  show "byte_ledger True (result (streams small_sent ! 0))" by blast
  show "bytes_sent (result (streams small_sent ! 0)) = 4" by code_simp
qed

theorem iperfSend_ends_witness:
  "iperfSend 0 (small_test\<lparr>done' := True\<rparr>) = (Ret True, snd (iperfSend 0 (small_test\<lparr>done' := True\<rparr>))) \<and>
   ctrlChan (snd (iperfSend 0 (small_test\<lparr>done' := True\<rparr>))) = [TEST_END]"
proof -
  let ?w = "small_test\<lparr>done' := True\<rparr>"
  have r: "fst (iperfSend 0 ?w) = Ret True" "ctrlChan (snd (iperfSend 0 ?w)) \<noteq> ctrlChan ?w" "ctrlChan ?w = []"
    by code_simp+
  then have "iperfSend 0 ?w = (Ret True, snd (iperfSend 0 ?w))" by (metis prod.collapse)
  from this iperfSend_ends [OF this] r(2,3) show ?thesis by simp
qed

theorem send_interval_paces_witness:
  "iperfSend_start 0 (small_test\<lparr>setting := zero_setting\<lparr>blksize := 4, rate := 1000\<rparr>\<rparr>) =
     (Ret (), small_test\<lparr>setting := zero_setting\<lparr>blksize := 4, rate := 1000\<rparr>\<rparr>) \<and>
   send_interval (zero_setting\<lparr>blksize := 4, rate := 1000\<rparr>) (small_stream SENDER_STREAM) = 32000000"
proof -
  let ?w = "small_test\<lparr>setting := zero_setting\<lparr>blksize := 4, rate := 1000\<rparr>\<rparr>"
  have f: "streams ?w ! 0 = small_stream SENDER_STREAM" "0 < length (streams ?w)" "\<not> burst (setting ?w)"
    "rate (setting ?w) = 1000" "length (buffer (small_stream SENDER_STREAM)) = 4"
    by (simp_all add: small_test_def zero_setting_def small_stream_def)
  then have "rate (setting ?w) \<noteq> 0" "length (buffer (streams ?w ! 0)) \<le> 1073741824" by simp_all
  from send_interval_paces [OF f(2,3) this] f show ?thesis by (simp add: Let_def)
qed

theorem done_ends_streams_witness:
  "\<exists>w'. iperfSend 0 (small_test\<lparr>done' := True\<rparr>) = (Ret True, w') \<and> ctrlChan w' = [TEST_END]"
proof -
  let ?w = "small_test\<lparr>done' := True\<rparr>"
  have f: "done' ?w" "duration ?w \<noteq> 0" "length (ctrlChan ?w) < 5" "0 < length (streams ?w)" "ctrlChan ?w = []"
    by code_simp+
  have "fst (proto_send (snd' (streams ?w ! 0)) (streams ?w ! 0)) = Ret 4" by code_simp
  with done_ends_streams [OF f(1-4)] f(5) show ?thesis by auto
qed

end
