(* ===== verification/Meters.thy ===== *)
theory Meters
  imports Streams
begin

text \<open>
  What the data phase of a test promises, as an abstract specification, and the proof that
  the code implements it. A meter is the list of the byte counts of the closed intervals of
  a stream and the count of the open one; the specification has one meter per stream and a
  total. It can do three things: move bytes on one stream, close all intervals at once, or
  nothing.
\<close>

section \<open>The specification\<close>

record meter =
  m_closed :: "u64 list"
  m_open :: u64

record bank =
  meters :: "meter list"
  total_bytes :: u64

definition meter_add :: "u64 \<Rightarrow> meter \<Rightarrow> meter" where
  "meter_add n mt = mt\<lparr>m_open := m_open mt + n\<rparr>"

definition meter_close :: "meter \<Rightarrow> meter" where
  "meter_close mt = mt\<lparr>m_closed := m_closed mt @ [m_open mt], m_open := 0\<rparr>"

definition meter_sum :: "meter \<Rightarrow> u64" where
  "meter_sum mt = sum_list (m_closed mt) + m_open mt"

definition bank_move :: "nat \<Rightarrow> u64 \<Rightarrow> bank \<Rightarrow> bank" where
  "bank_move i n b = b\<lparr>meters := (meters b)[i := meter_add n (meters b ! i)], total_bytes := total_bytes b + n\<rparr>"

definition bank_close :: "bank \<Rightarrow> bank" where
  "bank_close b = b\<lparr>meters := map meter_close (meters b)\<rparr>"

inductive bank_step :: "bank \<Rightarrow> bank \<Rightarrow> bool" where
  bank_stay: "bank_step b b"
| bank_moves: "i < length (meters b) \<Longrightarrow> bank_step b (bank_move i n b)"
| bank_closes: "bank_step b (bank_close b)"

text \<open>The specification keeps its own books: the total is what the meters show.\<close>

definition balanced :: "bank \<Rightarrow> bool" where
  "balanced b \<longleftrightarrow> total_bytes b = sum_list (map meter_sum (meters b))"

lemma meter_sum_add: "meter_sum (meter_add n mt) = meter_sum mt + n"
  by (simp add: meter_sum_def meter_add_def)

lemma meter_sum_close: "meter_sum (meter_close mt) = meter_sum mt"
  by (simp add: meter_sum_def meter_close_def)

lemma balanced_step: "bank_step b b' \<Longrightarrow> balanced b \<Longrightarrow> balanced b'"
proof (induction rule: bank_step.induct)
  case (bank_moves i b n)
  then show ?case
    using sum_list_update_word [OF bank_moves(1), of meter_sum "meter_add n (meters b ! i)"]
    by (simp add: balanced_def bank_move_def meter_sum_add)
qed (simp_all add: balanced_def bank_close_def comp_def meter_sum_close)

section \<open>The abstraction of a test\<close>

text \<open>The meter of a stream, and the bank of a test, in the direction of the test.\<close>

definition meter_of :: "bool \<Rightarrow> iperf_stream \<Rightarrow> meter" where
  "meter_of m sp = \<lparr>m_closed = map bytes_transfered (interval_results (result sp)),
     m_open = (if m then bytes_sent_this_interval (result sp) else bytes_received_this_interval (result sp))\<rparr>"

definition bank_of :: "bool \<Rightarrow> world \<Rightarrow> bank" where
  "bank_of m w = \<lparr>meters = map (meter_of m) (streams w),
     total_bytes = (if m then bytesSent w else bytesReceived w)\<rparr>"

definition bank_view :: "bool \<Rightarrow> bank \<Rightarrow> world \<Rightarrow> bool" where
  "bank_view m b w \<longleftrightarrow> bank_of m w = b"

lemma meter_of_result: "result sp' = result sp \<Longrightarrow> meter_of m sp' = meter_of m sp"
  by (simp add: meter_of_def)

lemma bank_same_result:
  assumes "result sp = result (streams w ! i)"
  shows "bank_of m (w\<lparr>streams := (streams w)[i := sp]\<rparr>) = bank_of m w"
proof (cases "i < length (streams w)")
  case True
  then have "map (meter_of m) ((streams w)[i := sp]) = map (meter_of m) (streams w)"
    using meter_of_result [OF assms] by (simp add: map_update list_update_same_conv)
  then show ?thesis by (simp add: bank_of_def)
qed (simp add: bank_of_def list_update_beyond)

lemma bank_count_sent:
  assumes "i < length (streams w)" "result sp = result (count_sent n (streams w ! i))"
  shows "bank_of True (w\<lparr>streams := (streams w)[i := sp], bytesSent := bytesSent w + word_of_int n,
      blocksSent := blocksSent w + 1\<rparr>) = bank_move i (word_of_int n) (bank_of True w)"
  using assms by (simp add: bank_of_def bank_move_def map_update meter_of_def meter_add_def count_sent_def)

lemma bank_count_received:
  assumes "i < length (streams w)" "result sp = result (count_received n (streams w ! i))"
  shows "bank_of False (w\<lparr>streams := (streams w)[i := sp], bytesReceived := bytesReceived w + word_of_int n,
      blocksReceived := blocksReceived w + 1\<rparr>) = bank_move i (word_of_int n) (bank_of False w)"
  using assms by (simp add: bank_of_def bank_move_def map_update meter_of_def meter_add_def count_received_def)

text \<open>What does not touch the counters does not touch the bank.\<close>

lemma bank_frame:
  "streams w' = streams w \<Longrightarrow> bytesSent w' = bytesSent w \<Longrightarrow> bytesReceived w' = bytesReceived w \<Longrightarrow>
   bank_of m w' = bank_of m w"
  by (simp add: bank_of_def)

lemma bank_ctrl_send [keeps_intros]: "keeps (bank_view m b) (ctrl_send v)"
  by (rule keepsI) (auto simp: bank_view_def ctrl_send_def chan_send_def intro: bank_frame)

lemma bank_ctrl_recv [keeps_intros]: "keeps (bank_view m b) ctrl_recv"
  by (rule keepsI) (auto simp: bank_view_def ctrl_recv_def chan_recv_def intro: bank_frame split: list.splits)

lemma bank_now [keeps_intros]: "keeps (bank_view m b) time_Now"
  by (rule keepsI) (auto simp: bank_view_def time_Now_def env_next_def go_simps intro: bank_frame)

lemma bank_throttle [keeps_intros]: "keeps (bank_view m b) (checkThrottle i now)"
  unfolding checkThrottle_def
  by (auto split: prod.splits intro!: keeps_intros keeps_with_stream
      simp: bank_view_def go_simps bank_same_result)

lemma bank_send_rest [keeps_intros]: "keeps (bank_view m b) (send_rest i)"
  unfolding send_rest_def by (intro keeps_intros)

lemma bank_kept: "keeps (bank_view m (bank_of m w)) f \<Longrightarrow> bank_of m (snd (f w)) = bank_of m w"
  using keepsD [of "bank_view m (bank_of m w)" f w] by (simp add: bank_view_def)

section \<open>Every event is a step of the specification\<close>

lemma bank_iperfSend: "bank_step (bank_of True w) (bank_of True (snd (iperfSend i w)))"
proof (cases "i < length (streams w)")
  case False
  then show ?thesis by (simp add: iperfSend_def with_stream_def go_bind_Panicked bank_stay)
next
  case i: True
  let ?sp = "streams w ! i"
  obtain n sp where s: "proto_send (snd' ?sp) ?sp = (Ret n, sp)" using io.send_returns by blast
  have can: "with_stream i (go_gets canSend) w = (Ret (canSend ?sp), w)"
    and ws: "with_stream i (\<lambda>sp. proto_send (snd' sp) sp) w = (Ret n, w\<lparr>streams := (streams w)[i := sp]\<rparr>)"
    using i s by (simp_all add: with_stream_def go_simps)
  consider "\<not> canSend ?sp" | "canSend ?sp" "n < 0" | "canSend ?sp" "0 \<le> n" by linarith
  then show ?thesis
  proof cases
    case 1
    with can have "iperfSend i w = send_rest i w" by (simp add: iperfSend_def go_bind_Ret)
    with bank_kept [OF bank_send_rest] show ?thesis by (metis bank_stay)
  next
    case 2
    with can ws have "snd (iperfSend i w) = w\<lparr>streams := (streams w)[i := sp]\<rparr>"
      by (simp add: iperfSend_def go_bind_Ret go_simps)
    with bank_same_result [OF io.send_err [OF s]] 2 show ?thesis by (simp add: bank_stay)
  next
    case 3
    let ?w = "w\<lparr>streams := (streams w)[i := sp], bytesSent := bytesSent w + word_of_int n,
      blocksSent := blocksSent w + 1\<rparr>"
    have "iperfSend i w = send_rest i ?w"
      using 3 can ws by (simp add: iperfSend_def go_bind_Ret go_simps)
    then have "bank_of True (snd (iperfSend i w)) = bank_move i (word_of_int n) (bank_of True w)"
      using bank_kept [OF bank_send_rest, where w = ?w] bank_count_sent [OF i io.send_ok [OF s 3(2)]] by simp
    moreover have "i < length (meters (bank_of True w))" using i by (simp add: bank_of_def)
    ultimately show ?thesis by (simp add: bank_moves)
  qed
qed

lemma bank_iperfRecv: "bank_step (bank_of False w) (bank_of False (snd (iperfRecv i w)))"
proof (cases "i < length (streams w)")
  case False
  then show ?thesis by (simp add: iperfRecv_def with_stream_def go_simps go_bind_Panicked bank_stay)
next
  case i: True
  let ?sp = "streams w ! i"
  obtain r sp where s: "proto_recv (rcv ?sp) (state w) ?sp = (r, sp)" by force
  then have ws: "with_stream i (\<lambda>sp. proto_recv (rcv sp) (state w) sp) w = (r, w\<lparr>streams := (streams w)[i := sp]\<rparr>)"
    using i by (simp add: with_stream_def)
  let ?w = "w\<lparr>streams := (streams w)[i := sp]\<rparr>"
  let ?rest = "go_bind (go_gets done') (\<lambda>d.
    if d then go_then (ctrl_send TEST_END) (go_return True) else go_return False)"
  show ?thesis
  proof (cases "\<exists>n. r = Ret n \<and> 0 \<le> n")
    case False
    have "snd (iperfRecv i w) = ?w"
      using ws False by (cases r) (auto simp: iperfRecv_def go_simps go_bind_def not_le)
    with bank_same_result [OF recv_received_stuck [OF s False]] show ?thesis by (simp add: bank_stay)
  next
    case True
    then obtain n where n: "r = Ret n" "0 \<le> n" by blast
    let ?w1 = "if state w = TEST_RUNNING then ?w\<lparr>bytesReceived := bytesReceived w + word_of_int n,
      blocksReceived := blocksReceived w + 1\<rparr> else ?w"
    have rest: "keeps (bank_view False b) ?rest" for b by (intro keeps_intros)
    have "iperfRecv i w = ?rest ?w1" using ws n by (simp add: iperfRecv_def go_simps go_bind_Ret)
    then have eq: "bank_of False (snd (iperfRecv i w)) = bank_of False ?w1"
      using bank_kept [OF rest] by simp
    have ok: "result sp = (if state w = TEST_RUNNING then result (count_received n ?sp) else result ?sp)"
      using io.recv_ok [OF s [unfolded n(1)] n(2)] .
    show ?thesis
    proof (cases "state w = TEST_RUNNING")
      case True
      with eq ok bank_count_received [OF i, of sp n] have
        "bank_of False (snd (iperfRecv i w)) = bank_move i (word_of_int n) (bank_of False w)" by simp
      moreover have "i < length (meters (bank_of False w))" using i by (simp add: bank_of_def)
      ultimately show ?thesis by (simp add: bank_moves)
    next
      case False
      with eq ok bank_same_result [of sp w i False] show ?thesis by (simp add: bank_stay)
    qed
  qed
qed

lemma interval_closed_meters:
  "list_all2 (interval_closed m) sps ss \<Longrightarrow> map (meter_of m) ss = map meter_close (map (meter_of m) sps)"
  by (induction rule: list_all2_induct)
    (auto simp: interval_closed_def Let_def meter_of_def meter_close_def)

lemma bank_stats:
  assumes "proto w = Some p" "mode w = m"
  shows "bank_of m (snd (iperfStatsCallback w)) = bank_close (bank_of m w)"
proof -
  from iperfStatsCallback_run [OF assms(1)] obtain ss t os where
    "list_all2 (interval_closed m) (streams w) ss"
    "iperfStatsCallback w = (let w1 = w\<lparr>streams := ss, ticks := t, out := os\<rparr> in
       if chStats w = [] then (Ret (), w1\<lparr>chStats := [True]\<rparr>) else (Blocked, w1))"
    using assms(2) by blast
  with interval_closed_meters show ?thesis
    by (simp add: bank_of_def bank_close_def Let_def)
qed

lemma snd_discard: "snd (go_bind f (\<lambda>_. go_return ()) w) = snd (f w)"
  by (auto simp: go_bind_def go_return_def split: prod.splits outcome.splits)

lemma bank_data:
  assumes "proto w \<noteq> None" "mode w = m" "data_allowed m ev"
  shows "bank_step (bank_of m w) (bank_of m (snd (data_go ev w)))"
proof (cases ev)
  case (SendPass i)
  with assms(3) bank_iperfSend [of w i] show ?thesis by (simp add: snd_discard)
next
  case (RecvPass i)
  with assms(3) bank_iperfRecv [of w i] show ?thesis by (simp add: snd_discard)
next
  case StatsTick
  from assms(1) obtain p where "proto w = Some p" by blast
  from bank_stats [OF this assms(2)] StatsTick show ?thesis by (simp add: bank_closes)
next
  case (RateTick i now)
  with bank_kept [OF bank_throttle, where w = w] show ?thesis by (simp add: bank_stay)
next
  case DrainCtrl
  with bank_kept [OF bank_ctrl_recv, where w = w] show ?thesis by (simp add: snd_discard bank_stay)
next
  case TimeUp
  have "bank_of m (w\<lparr>done' := True\<rparr>) = bank_of m w" by (rule bank_frame) simp_all
  with TimeUp show ?thesis by (simp add: go_simps bank_stay)
qed


lemma bank_run:
  assumes "data_run m w u" "fresh_test m w" shows "balanced (bank_of m u)"
  using assms
proof (induction rule: data_run.induct)
  case (data_start w)
  have "sum_list (map (\<lambda>sp. meter_sum (meter_of m sp)) sps) = 0" if "list_all fresh_stream sps" for sps
    using that by (induction sps) (auto simp: fresh_stream_def meter_of_def meter_sum_def, simp_all add: zero_results_def)
  with data_start show ?case
    by (simp add: fresh_test_def balanced_def bank_of_def comp_def)
next
  case (data_step w u ev)
  then have "books m u" using books_run books_fresh by blast
  then have "proto u \<noteq> None" "mode u = m" by (simp_all add: books_def)
  from balanced_step [OF bank_data [OF this data_step(2)]] data_step show ?case by blast
qed




end
