(* ===== verification/Go_Flag.thy ===== *)
theory Go_Flag
  imports Go_Encoding
begin

text \<open>
  The package \<open>flag\<close> and the conversions of \<open>strconv\<close> behind it: \<open>ParseBool\<close>, \<open>ParseUint\<close> with
  the base taken from the prefix, and \<open>FlagSet.Parse\<close> with \<open>ExitOnError\<close> for a table of flags.
\<close>

section \<open>Values of flags\<close>

definition ParseBool :: "string \<Rightarrow> bool option" where
  "ParseBool s =
     (if s \<in> {''1'', ''t'', ''T'', ''TRUE'', ''true'', ''True''} then Some True
      else if s \<in> {''0'', ''f'', ''F'', ''FALSE'', ''false'', ''False''} then Some False
      else None)"

text \<open>\<open>lower(c)\<close> sets the bit that distinguishes lower from upper case letters.\<close>

fun lower_bit :: "char \<Rightarrow> char" where
  "lower_bit (Char b0 b1 b2 b3 b4 b5 b6 b7) = Char b0 b1 b2 b3 b4 True b6 b7"

definition digit_of :: "char \<Rightarrow> int option" where
  "digit_of c =
     (if is_digit c then Some (int (digit_val c))
      else
        (let k = (of_char (lower_bit c) :: nat) in
         if 97 \<le> k \<and> k \<le> 122 then Some (int k - 87) else None))"

text \<open>The digits in a base; underscores are skipped and noted.\<close>

fun scan_uint :: "int \<Rightarrow> string \<Rightarrow> int \<Rightarrow> bool \<Rightarrow> (int \<times> bool) option" where
  "scan_uint base [] n u = Some (n, u)"
| "scan_uint base (c # s) n u =
     (if c = CHR ''_'' then scan_uint base s n True
      else
        (case digit_of c of
           None \<Rightarrow> None
         | Some d \<Rightarrow>
             if base \<le> d \<or> 0x10000000000000000 \<le> n * base + d then None
             else scan_uint base s (n * base + d) u))"

text \<open>\<open>underscoreOK\<close>: underscores only between digits, or between the prefix and a digit.\<close>

datatype underscore_state = SawBegin | SawDigit | SawUnderscore | SawOther

fun underscores_from :: "bool \<Rightarrow> underscore_state \<Rightarrow> string \<Rightarrow> bool" where
  "underscores_from hex saw [] \<longleftrightarrow> saw \<noteq> SawUnderscore"
| "underscores_from hex saw (c # s) \<longleftrightarrow>
     (let k = (of_char (lower_bit c) :: nat) in
      if is_digit c \<or> hex \<and> 97 \<le> k \<and> k \<le> 102 then underscores_from hex SawDigit s
      else if c = CHR ''_'' then saw = SawDigit \<and> underscores_from hex SawUnderscore s
      else saw \<noteq> SawUnderscore \<and> underscores_from hex SawOther s)"

definition prefix_char :: "string \<Rightarrow> char option" where
  "prefix_char s =
     (if 2 \<le> length s \<and> hd s = CHR ''0'' \<and> lower_bit (s ! 1) \<in> {CHR ''b'', CHR ''o'', CHR ''x''}
      then Some (lower_bit (s ! 1)) else None)"

definition underscoreOK :: "string \<Rightarrow> bool" where
  "underscoreOK s0 =
     (let s = (if s0 \<noteq> [] \<and> hd s0 \<in> {CHR ''-'', CHR ''+''} then tl s0 else s0) in
      case prefix_char s of
        None \<Rightarrow> underscores_from False SawBegin s
      | Some c \<Rightarrow> underscores_from (c = CHR ''x'') SawDigit (drop 2 s))"

text \<open>The base and the digits, for \<open>base = 0\<close>.\<close>

definition uint_base :: "string \<Rightarrow> int \<times> string" where
  "uint_base s =
     (if hd s = CHR ''0'' then
        (case if 3 \<le> length s then prefix_char s else None of
           Some c \<Rightarrow> (if c = CHR ''b'' then 2 else if c = CHR ''o'' then 8 else 16, drop 2 s)
         | None \<Rightarrow> (8, tl s))
      else (10, s))"

definition ParseUint_any :: "string \<Rightarrow> uint option" where
  "ParseUint_any s =
     (if s = [] then None
      else
        (case uint_base s of (base, digits) \<Rightarrow>
           (case scan_uint base digits 0 False of
              None \<Rightarrow> None
            | Some (n, u) \<Rightarrow> if u \<and> \<not> underscoreOK s then None else Some (word_of_int n))))"

section \<open>Parsing a command line\<close>

datatype 'f flag_kind =
  BoolFlag "bool \<Rightarrow> 'f \<Rightarrow> 'f"
| UintFlag "uint \<Rightarrow> 'f \<Rightarrow> 'f"
| StringFlag "string \<Rightarrow> 'f \<Rightarrow> 'f"

fun set_flag :: "'f flag_kind \<Rightarrow> string \<Rightarrow> 'f \<Rightarrow> 'f option" where
  "set_flag (BoolFlag f) s x = map_option (\<lambda>b. f b x) (ParseBool s)"
| "set_flag (UintFlag f) s x = map_option (\<lambda>n. f n x) (ParseUint_any s)"
| "set_flag (StringFlag f) s x = Some (f s x)"

text \<open>One step: the end of the flags, an error, a request for help, or a flag that was set.\<close>

datatype 'f flag_step = FlagEnd | FlagErr | FlagHelp | FlagSeen string 'f "string list"

definition seen_or_err :: "string \<Rightarrow> 'f option \<Rightarrow> string list \<Rightarrow> 'f flag_step" where
  "seen_or_err nm r rest = (case r of None \<Rightarrow> FlagErr | Some x \<Rightarrow> FlagSeen nm x rest)"

text \<open>The name is cut at an equals sign after its first character.\<close>

definition split_value :: "string \<Rightarrow> string \<times> string option" where
  "split_value name =
     (let rest = tl name; v = dropWhile (\<lambda>c. c \<noteq> CHR ''='') rest in
      (hd name # takeWhile (\<lambda>c. c \<noteq> CHR ''='') rest, if v = [] then None else Some (tl v)))"

definition take_flag :: "(string \<times> 'f flag_kind) list \<Rightarrow> string \<Rightarrow> string option \<Rightarrow> 'f \<Rightarrow> string list \<Rightarrow> 'f flag_step" where
  "take_flag table nm val x rest =
     (case map_of table nm of
        None \<Rightarrow> if nm = ''help'' \<or> nm = ''h'' then FlagHelp else FlagErr
      | Some (BoolFlag f) \<Rightarrow>
          seen_or_err nm (set_flag (BoolFlag f) (case val of None \<Rightarrow> ''true'' | Some v \<Rightarrow> v) x) rest
      | Some k \<Rightarrow>
          (case val of
             Some v \<Rightarrow> seen_or_err nm (set_flag k v x) rest
           | None \<Rightarrow> (case rest of [] \<Rightarrow> FlagErr | v # rest' \<Rightarrow> seen_or_err nm (set_flag k v x) rest')))"

definition parseOne :: "(string \<times> 'f flag_kind) list \<Rightarrow> 'f \<Rightarrow> string list \<Rightarrow> 'f flag_step" where
  "parseOne table x args =
     (case args of
        [] \<Rightarrow> FlagEnd
      | s # rest \<Rightarrow>
          if length s < 2 \<or> hd s \<noteq> CHR ''-'' then FlagEnd
          else if s = ''--'' then FlagEnd
          else
            (let name = drop (if s ! 1 = CHR ''-'' then 2 else 1) s in
             if name = [] \<or> hd name = CHR ''-'' \<or> hd name = CHR ''='' then FlagErr
             else (case split_value name of (nm, val) \<Rightarrow> take_flag table nm val x rest)))"

text \<open>The flags with the names that were set (\<open>flag.Visit\<close>), or the exit code.\<close>

datatype 'f flag_result = FlagsDone 'f "string list" | FlagsExit int

lemma seen_rest: "seen_or_err nm r rest = FlagSeen nm' x rest' \<Longrightarrow> rest' = rest"
  by (auto simp: seen_or_err_def split: option.splits)

lemma take_flag_shorter:
  "take_flag table nm val x rest = FlagSeen nm' x' rest' \<Longrightarrow> length rest' \<le> length rest"
  by (auto simp: take_flag_def dest!: seen_rest split: option.splits flag_kind.splits list.splits if_splits)

lemma parseOne_shorter: "parseOne table x args = FlagSeen nm x' rest \<Longrightarrow> length rest < length args"
  by (auto simp: parseOne_def Let_def less_Suc_eq_le dest!: take_flag_shorter split: list.splits if_splits prod.splits)

function Parse :: "(string \<times> 'f flag_kind) list \<Rightarrow> 'f \<Rightarrow> string list \<Rightarrow> string list \<Rightarrow> 'f flag_result" where
  "Parse table x seen args =
     (case parseOne table x args of
        FlagEnd \<Rightarrow> FlagsDone x seen
      | FlagErr \<Rightarrow> FlagsExit 2
      | FlagHelp \<Rightarrow> FlagsExit 0
      | FlagSeen nm x' rest \<Rightarrow> Parse table x' (nm # seen) rest)"
  by pat_completeness auto
termination
  by (relation "measure (\<lambda>(table, x, seen, args). length args)") (auto dest: parseOne_shorter)

declare Parse.simps [simp del]

section \<open>Numbers on the command line\<close>

lemma digit_of_digit: "is_digit c \<Longrightarrow> digit_of c = Some (int (digit_val c))"
  by (simp add: digit_of_def)

lemma digit_not_underscore: "is_digit c \<Longrightarrow> c \<noteq> CHR ''_''"
  by (auto simp: is_digit_def)

lemma digit_val_less: "is_digit c \<Longrightarrow> digit_val c < 10"
  by (auto simp: is_digit_def digit_val_def)

lemma foldl_digits_ge: "n \<le> foldl (\<lambda>n c. 10 * n + digit_val c) n s"
proof (induction s arbitrary: n)
  case (Cons c s)
  have "n \<le> 10 * n + digit_val c" by simp
  also have "\<dots> \<le> foldl (\<lambda>n c. 10 * n + digit_val c) (10 * n + digit_val c) s" by (rule Cons.IH)
  finally show ?case by simp
qed simp

lemma scan_uint_digits:
  assumes "list_all is_digit s" "foldl (\<lambda>n c. 10 * n + digit_val c) n s < 2 ^ 64"
  shows "scan_uint 10 s (int n) u = Some (int (foldl (\<lambda>n c. 10 * n + digit_val c) n s), u)"
  using assms
proof (induction s arbitrary: n)
  case (Cons c s)
  have lt: "10 * n + digit_val c < 2 ^ 64"
    using Cons.prems(2) foldl_digits_ge [of "10 * n + digit_val c" s] by simp
  have "int n * 10 + int (digit_val c) = int (10 * n + digit_val c)" by simp
  moreover have "int (10 * n + digit_val c) < int (2 ^ 64)" using lt by (simp only: of_nat_less_iff)
  then have "\<not> 0x10000000000000000 \<le> int (10 * n + digit_val c)" by simp
  moreover have "\<not> 10 \<le> int (digit_val c)" using Cons.prems(1) digit_val_less [of c] by simp
  ultimately show ?case
    using Cons.prems Cons.IH [of "10 * n + digit_val c"]
    by (simp add: digit_of_digit digit_not_underscore mult.commute [of 10])
qed simp

lemma dec_nat_hd:
  "0 < n \<Longrightarrow> hd (dec_nat n) \<noteq> CHR ''0''"
proof (induction n rule: dec_nat.induct)
  case (1 n)
  show ?case
  proof (cases "n < 10")
    case True
    have "digit_char n \<noteq> CHR ''0''"
      using 1(2) True of_char_digit_char [of n] by auto
    with True show ?thesis by (subst dec_nat.simps) simp
  next
    case False
    with 1 show ?thesis by (subst dec_nat.simps) (simp add: hd_append)
  qed
qed

text \<open>A number in decimal is read as that number.\<close>

lemma ParseUint_any_decimal: "ParseUint_any (dec_nat (unat w)) = Some w"
proof (cases "unat w = 0")
  case True
  moreover have "digit_char 0 = CHR ''0''" by code_simp
  ultimately have "dec_nat (unat w) = ''0''" by (subst dec_nat.simps) simp
  moreover have "ParseUint_any ''0'' = Some 0" by code_simp
  ultimately show ?thesis using True by (simp add: unat_eq_0)
next
  case False
  then have "uint_base (dec_nat (unat w)) = (10, dec_nat (unat w))"
    using dec_nat_hd [of "unat w"] by (simp add: uint_base_def)
  moreover have "foldl (\<lambda>n c. 10 * n + digit_val c) 0 (dec_nat (unat w)) < 2 ^ 64"
    using unat_u64_less [of w] digits_val_dec_nat [of "unat w"] by (simp add: digits_val_def)
  then have "scan_uint 10 (dec_nat (unat w)) 0 False = Some (int (unat w), False)"
    using scan_uint_digits [OF dec_nat_digits, of 0 "unat w" False] digits_val_dec_nat [of "unat w"]
    by (simp add: digits_val_def)
  ultimately show ?thesis by (simp add: ParseUint_any_def)
qed

end
