(* ===== verification/Exchange.thy ===== *)
theory Exchange
  imports Streams
begin

text \<open>
  The exchange of the parameters before a test and of the results after it, over the control
  connection (\<open>iperf_api.go\<close>, lines 117 to 351). Parameters travel as one JSON object that is
  read with a single \<open>Read\<close>; results travel as a JSON array behind a length in four bytes and
  are read with \<open>io.ReadFull\<close>.
\<close>

section \<open>Parameters\<close>

definition JUint :: "u64 \<Rightarrow> json" where
  "JUint w = JNum (FormatUint w)"

definition params_json :: "stream_params \<Rightarrow> json" where
  "params_json p = JObj
     [(''ProtoName'', JStr (ProtoName p)), (''Reverse'', JBool (Reverse p)),
      (''Duration'', JUint (Duration p)), (''NoDelay'', JBool (NoDelay p)),
      (''Interval'', JUint (Interval p)), (''StreamNum'', JUint (StreamNum p)),
      (''Blksize'', JUint (Blksize p)), (''SndWnd'', JUint (SndWnd p)),
      (''RcvWnd'', JUint (RcvWnd p)), (''ReadBufSize'', JUint (ReadBufSize p)),
      (''WriteBufSize'', JUint (WriteBufSize p)), (''FlushInterval'', JUint (FlushInterval p)),
      (''NoCong'', JBool (NoCong p)), (''FastResend'', JUint (FastResend p)),
      (''DataShards'', JUint (DataShards p)), (''ParityShards'', JUint (ParityShards p)),
      (''Burst'', JBool (Burst p)), (''Rate'', JUint (Rate p)), (''PacingTime'', JUint (PacingTime p))]"

definition params_fields :: "(string \<times> stream_params decoder) list" where
  "params_fields =
     [(''ProtoName'', dec_string ProtoName_update), (''Reverse'', dec_bool Reverse_update),
      (''Duration'', dec_uint Duration_update), (''NoDelay'', dec_bool NoDelay_update),
      (''Interval'', dec_uint Interval_update), (''StreamNum'', dec_uint StreamNum_update),
      (''Blksize'', dec_uint Blksize_update), (''SndWnd'', dec_uint SndWnd_update),
      (''RcvWnd'', dec_uint RcvWnd_update), (''ReadBufSize'', dec_uint ReadBufSize_update),
      (''WriteBufSize'', dec_uint WriteBufSize_update), (''FlushInterval'', dec_uint FlushInterval_update),
      (''NoCong'', dec_bool NoCong_update), (''FastResend'', dec_uint FastResend_update),
      (''DataShards'', dec_uint DataShards_update), (''ParityShards'', dec_uint ParityShards_update),
      (''Burst'', dec_bool Burst_update), (''Rate'', dec_uint Rate_update),
      (''PacingTime'', dec_uint PacingTime_update)]"

definition decode_params :: "json \<Rightarrow> stream_params option" where
  "decode_params j = decode_struct params_fields j zero_params"

text \<open>What the client announces.\<close>

definition params_of :: "protocol \<Rightarrow> world \<Rightarrow> stream_params" where
  "params_of p w = \<lparr>ProtoName = protocol_name p, Reverse = reverse w, Duration = duration w,
     NoDelay = noDelay w, Interval = interval w, StreamNum = streamNum w,
     Blksize = blksize (setting w), SndWnd = sndWnd (setting w), RcvWnd = rcvWnd (setting w),
     ReadBufSize = readBufSize (setting w), WriteBufSize = writeBufSize (setting w),
     FlushInterval = flushInterval (setting w), NoCong = noCong (setting w),
     FastResend = fastResend (setting w), DataShards = dataShards (setting w),
     ParityShards = parityShards (setting w), Burst = burst (setting w), Rate = rate (setting w),
     PacingTime = pacingTime (setting w)\<rparr>"

definition sendParams :: "(int, world) go" where
  "sendParams =
     via_proto (\<lambda>p.
     go_bind (go_gets (params_of p)) (\<lambda>params.
     go_bind (ctrl_conn (conn_write (json_Marshal (params_json params)))) (\<lambda>(n, err).
     if err \<noteq> None then go_return (- 1) else go_return 0)))"

text \<open>What the server takes over; \<open>bytes\<close> and \<open>blocks\<close> of the settings are not exchanged.\<close>

definition apply_params :: "stream_params \<Rightarrow> world \<Rightarrow> world" where
  "apply_params p w = w
     \<lparr>duration := Duration p, noDelay := NoDelay p, interval := Interval p, streamNum := StreamNum p,
      setting := (setting w)
        \<lparr>blksize := Blksize p, burst := Burst p, rate := Rate p, pacingTime := PacingTime p,
         sndWnd := SndWnd p, rcvWnd := RcvWnd p, writeBufSize := WriteBufSize p,
         readBufSize := ReadBufSize p, flushInterval := FlushInterval p, noCong := NoCong p,
         fastResend := FastResend p, dataShards := DataShards p, parityShards := ParityShards p\<rparr>\<rparr>"

text \<open>The result of \<open>setProtocol\<close> is ignored.\<close>

definition take_params :: "stream_params \<Rightarrow> (int, world) go" where
  "take_params p =
     go_bind (setProtocol (ProtoName p)) (\<lambda>_.
     go_then (setTestReverse (Reverse p)) (
     go_then (go_modify (apply_params p)) (go_return 0)))"

text \<open>One \<open>Read\<close> into 1024 bytes, and \<open>buf[:n]\<close>.\<close>

definition getParams :: "(int, world) go" where
  "getParams =
     go_bind (ctrl_conn (conn_read 1024)) (\<lambda>(n, err, bs).
     if err \<noteq> None then go_return (- 1)
     else if n < 0 \<or> 1024 < n then go_panic IndexOutOfRange
     else
       (case json_Unmarshal decode_params (take (nat n) (bs @ replicate (1024 - length bs) 0)) of
          None \<Rightarrow> go_return (- 1)
        | Some params \<Rightarrow> take_params params))"

definition exchangeParams :: "(int, world) go" where
  "exchangeParams =
     go_bind (go_gets isServer) (\<lambda>srv.
     go_bind (if srv then getParams else sendParams) (\<lambda>r.
     go_return (if r < 0 then - 1 else 0)))"

section \<open>Results\<close>

definition time_json :: "time \<Rightarrow> json option" where
  "time_json t = map_option JStr (time_text t)"

definition result_json :: "stream_results_exchange \<Rightarrow> json option" where
  "result_json r =
     Option.bind (time_json (StartTime r)) (\<lambda>st.
     Option.bind (time_json (EndTime r)) (\<lambda>en.
     Some (JObj
       [(''Id'', JUint (Id' r)), (''Bytes'', JUint (Bytes r)), (''Retrans'', JUint (Retrans r)),
        (''Jitter'', JUint (Jitter r)), (''InPkts'', JUint (InPkts r)), (''OutPkts'', JUint (OutPkts r)),
        (''InSegs'', JUint (InSegs r)), (''OutSegs'', JUint (OutSegs r)),
        (''Recovered'', JUint (Recovered r)), (''StartTime'', st), (''EndTime'', en)])))"

definition results_json :: "stream_results_exchange list \<Rightarrow> json option" where
  "results_json rs = map_option JArr (those (map result_json rs))"

definition result_fields :: "(string \<times> stream_results_exchange decoder) list" where
  "result_fields =
     [(''Id'', dec_uint Id'_update), (''Bytes'', dec_uint Bytes_update),
      (''Retrans'', dec_uint Retrans_update), (''Jitter'', dec_uint Jitter_update),
      (''InPkts'', dec_uint InPkts_update), (''OutPkts'', dec_uint OutPkts_update),
      (''InSegs'', dec_uint InSegs_update), (''OutSegs'', dec_uint OutSegs_update),
      (''Recovered'', dec_uint Recovered_update), (''StartTime'', dec_time StartTime_update),
      (''EndTime'', dec_time EndTime_update)]"

definition decode_results :: "json \<Rightarrow> stream_results_exchange list option" where
  "decode_results = decode_slice (decode_struct result_fields) zero_exchange"

definition stream_result :: "bool \<Rightarrow> nat \<Rightarrow> iperf_stream \<Rightarrow> stream_results_exchange" where
  "stream_result m i sp =
     (let rp = result sp in
      \<lparr>Id' = word_of_nat i,
       Bytes = (if m = IPERF_RECEIVER then bytes_received rp else bytes_sent rp),
       Retrans = stream_retrans rp, Jitter = 0, InPkts = stream_in_pkts rp,
       OutPkts = stream_out_pkts rp, InSegs = stream_in_segs rp, OutSegs = stream_out_segs rp,
       Recovered = stream_recovers rp, StartTime = start_time rp, EndTime = end_time rp\<rparr>)"

text \<open>
  \<open>make(stream_results_array, n)\<close>: an element has 120 bytes; \<open>make\<close> panics beyond the
  address space.
\<close>

definition make_results :: "(unit, world) go" where
  "make_results = go_bind (go_gets streamNum) (\<lambda>n.
     if too_large n 120 then go_panic MakeSliceLen else go_return ())"

definition all_results :: "world \<Rightarrow> stream_results_exchange list" where
  "all_results w =
     map (\<lambda>(i, sp). stream_result (mode w) i sp) (enumerate 0 (streams w)) @
     replicate (unat (streamNum w) - length (streams w)) zero_exchange"

definition sendResults :: "(int, world) go" where
  "sendResults =
     go_then make_results (
     go_bind (go_gets (\<lambda>w. unat (streamNum w) < length (streams w))) (\<lambda>over.
     if over then go_panic IndexOutOfRange else
     go_bind (go_gets all_results) (\<lambda>rs.
     case results_json rs of
       None \<Rightarrow> go_return (- 1)
     | Some j \<Rightarrow>
         (let bytes = json_Marshal j in
          go_bind (ctrl_conn (conn_write (PutUint32 (word_of_nat (length bytes))))) (\<lambda>(n, err).
          if err \<noteq> None then go_return (- 1) else
          go_bind (ctrl_conn (conn_write bytes)) (\<lambda>(n, err).
          if err \<noteq> None then go_return (- 1) else go_return 0))))))"

text \<open>What one entry of the peer changes in the stream with the same index.\<close>

definition store_result :: "bool \<Rightarrow> stream_results_exchange \<Rightarrow> iperf_stream \<Rightarrow> iperf_stream" where
  "store_result m r sp = sp\<lparr>result :=
     (if m = IPERF_RECEIVER
      then (result sp)\<lparr>bytes_sent := Bytes r, stream_retrans := Retrans r,
        stream_out_segs := OutSegs r, stream_out_pkts := OutPkts r\<rparr>
      else (result sp)\<lparr>bytes_received := Bytes r, stream_in_segs := InSegs r,
        stream_in_pkts := InPkts r, stream_recovers := Recovered r\<rparr>)\<rparr>"

definition store_results :: "stream_results_exchange list \<Rightarrow> (unit option, world) go" where
  "store_results rs =
     go_each (\<lambda>(i, r).
       go_bind (go_gets mode) (\<lambda>m.
       go_then (with_stream i (go_modify (store_result m r))) (go_return None))) (enumerate 0 rs)"

definition getResults :: "(int, world) go" where
  "getResults =
     go_then make_results (
     go_bind (ctrl_conn (conn_ReadFull 4 [])) (\<lambda>(err, lengthBuf).
     if err \<noteq> None then go_return (- 1) else
     (case Uint32 lengthBuf of
        None \<Rightarrow> go_panic IndexOutOfRange
      | Some len \<Rightarrow>
          go_bind (ctrl_conn (conn_ReadFull (unat len) [])) (\<lambda>(err, buf).
          if err \<noteq> None then go_return (- 1) else
          (case json_Unmarshal decode_results buf of
             None \<Rightarrow> go_return (- 1)
           | Some rs \<Rightarrow> go_then (store_results rs) (go_return 0))))))"

definition exchangeResults :: "(int, world) go" where
  "exchangeResults =
     go_bind (go_gets isServer) (\<lambda>srv.
     if \<not> srv then
       go_bind sendResults (\<lambda>r.
       if r < 0 then go_return (- 1) else
       go_bind getResults (\<lambda>r. go_return (if r < 0 then - 1 else 0)))
     else
       go_bind getResults (\<lambda>r.
       if r < 0 then go_return (- 1) else
       go_bind sendResults (\<lambda>r. go_return (if r < 0 then - 1 else 0))))"

section \<open>Documents are read back as they were written\<close>

lemma JUint_decode [simp]: "dec_uint upd (JUint w) a = Some (upd (\<lambda>_. w) a)"
  by (simp add: JUint_def dec_uint_JNum)

lemma JUint_ok [simp]: "json_ok (JUint w)"
  by (simp add: JUint_def json_ok_FormatUint del: json_ok.simps)

lemmas plain_lits = plain_def plain_char_def

lemma plain_protocol_name [simp]: "plain (protocol_name p)"
  by (cases p) (simp_all add: proto_names plain_lits)

lemma params_json_ok: "plain (ProtoName p) \<Longrightarrow> json_ok (params_json p)"
  unfolding params_json_def by (simp add: plain_lits)

lemma decode_params_json: "plain (ProtoName p) \<Longrightarrow> decode_params (params_json p) = Some p"
  by (simp add: decode_params_def params_json_def decode_struct_def params_fields_def find_field_def
      unquote_plain plain_lits dec_bool_JBool dec_string_JStr zero_params_def)

lemma JUint_print [simp]: "json_print (JUint w) = FormatUint w"
  by (simp add: JUint_def)

lemma length_bool_print [simp]: "length (if b then ''true'' else ''false'') \<le> 5"
  by simp

text \<open>Every parameter object fits the buffer of 1024 bytes.\<close>

lemma params_size:
  assumes "length (ProtoName p) \<le> 20"
  shows "length (json_Marshal (params_json p)) \<le> 1024"
proof -
  note n = length_FormatUint
  have "length (json_print (params_json p)) \<le>
      length (ProtoName p) + 249 + 5 * 4 +
      length (FormatUint (Duration p)) + length (FormatUint (Interval p)) + length (FormatUint (StreamNum p)) +
      length (FormatUint (Blksize p)) + length (FormatUint (SndWnd p)) + length (FormatUint (RcvWnd p)) +
      length (FormatUint (ReadBufSize p)) + length (FormatUint (WriteBufSize p)) +
      length (FormatUint (FlushInterval p)) + length (FormatUint (FastResend p)) +
      length (FormatUint (DataShards p)) + length (FormatUint (ParityShards p)) +
      length (FormatUint (Rate p)) + length (FormatUint (PacingTime p))"
    by (simp add: params_json_def json_quote_def)
  with assms n [of "Duration p"] n [of "Interval p"] n [of "StreamNum p"] n [of "Blksize p"]
    n [of "SndWnd p"] n [of "RcvWnd p"] n [of "ReadBufSize p"] n [of "WriteBufSize p"]
    n [of "FlushInterval p"] n [of "FastResend p"] n [of "DataShards p"] n [of "ParityShards p"]
    n [of "Rate p"] n [of "PacingTime p"]
  show ?thesis by (simp add: json_Marshal_def)
qed

lemma params_nonempty: "json_Marshal (params_json p) \<noteq> []"
  by (simp add: json_Marshal_def params_json_def bytes_of_def)

lemma length_protocol_name [simp]: "length (protocol_name p) \<le> 20"
  by (cases p) (simp_all add: proto_names)

lemma ProtoName_params_of [simp]: "ProtoName (params_of p w) = protocol_name p"
  by (simp add: params_of_def)

text \<open>The parameters of \<open>q\<close> arrive in one piece.\<close>

lemma getParams_whole:
  assumes "ctrlConn w = Some c" "\<not> c_closed c" "c_rd c = Chunk (json_Marshal (params_json q)) # r"
    and "plain (ProtoName q)" "length (ProtoName q) \<le> 20"
  shows "getParams w = take_params q (w\<lparr>ctrlConn := Some (c\<lparr>c_rd := r\<rparr>)\<rparr>)"
proof -
  let ?bs = "json_Marshal (params_json q)"
  have len: "length ?bs \<le> 1024" by (rule params_size [OF assms(5)])
  then have "conn_read 1024 c = (Ret (int (length ?bs), None, ?bs), c\<lparr>c_rd := r\<rparr>)"
    using assms by (intro conn_read_chunk) simp_all
  then have "ctrl_conn (conn_read 1024) w =
      (Ret (int (length ?bs), None, ?bs), w\<lparr>ctrlConn := Some (c\<lparr>c_rd := r\<rparr>)\<rparr>)"
    using assms(1) by (simp add: go_simps)
  moreover have "json_Unmarshal decode_params ?bs = Some q"
    by (simp add: json_Unmarshal_Marshal params_json_ok decode_params_json assms)
  ultimately show ?thesis
    using len by (simp add: getParams_def go_bind_Ret)
qed

definition same_params :: "world \<Rightarrow> world \<Rightarrow> bool" where
  "same_params w w' \<longleftrightarrow>
     proto w' = proto w \<and> reverse w' = reverse w \<and> duration w' = duration w \<and>
     noDelay w' = noDelay w \<and> interval w' = interval w \<and> streamNum w' = streamNum w \<and>
     (setting w')\<lparr>bytes := bytes (setting w), blocks := blocks (setting w)\<rparr> = setting w"

lemma take_params_of:
  assumes "protocols w = [TCPProto, rudpProto, kcpProto]" "proto u = Some p"
  shows "\<exists>w'. take_params (params_of p u) w = (Ret 0, w') \<and> same_params u w' \<and>
    mode w' = (if reverse u then isServer w else \<not> isServer w) \<and>
    ctrlConn w' = ctrlConn w \<and> ctrlChan w' = ctrlChan w \<and> isServer w' = isServer w"
  using assms
  by (simp add: take_params_def setProtocol_known setTestReverse_def go_bind_Ret go_simps
      same_params_def apply_params_def params_of_def)

lemma string_of_append: "string_of (a @ b) = string_of a @ string_of b"
  by (simp add: string_of_def)

lemma sendParams_run:
  assumes "proto u = Some p" "ctrlConn u = Some cu" "\<not> c_closed cu" "c_wr cu = []"
  shows "sendParams u = (Ret 0, u\<lparr>ctrlConn :=
    Some (cu\<lparr>c_sent := c_sent cu @ json_Marshal (params_json (params_of p u))\<rparr>)\<rparr>)"
  using assms by (simp add: sendParams_def go_simps conn_write_ok go_bind_Ret)

text \<open>
  C8: When the client's parameter message arrives in one piece, the server takes over the
  client's protocol, direction, duration, interval, number of streams and settings (all but
  the byte and block limits), and is sender exactly when the client is receiver.
\<close>

theorem params_agree:
  assumes client: "proto u = Some p" "\<not> isServer u" "mode u = (\<not> reverse u)"
      "ctrlConn u = Some cu" "\<not> c_closed cu" "c_wr cu = []"
    and sent: "sendParams u = (Ret 0, u\<lparr>ctrlConn := Some (cu\<lparr>c_sent := c_sent cu @ msg\<rparr>)\<rparr>)"
    and server: "isServer w" "protocols w = [TCPProto, rudpProto, kcpProto]"
      "ctrlConn w = Some c" "\<not> c_closed c" "c_rd c = Chunk msg # r"
  shows "\<exists>w'. getParams w = (Ret 0, w') \<and> same_params u w' \<and> mode w' = (\<not> mode u) \<and>
    ctrlConn w' = Some (c\<lparr>c_rd := r\<rparr>)"
proof -
  let ?w = "w\<lparr>ctrlConn := Some (c\<lparr>c_rd := r\<rparr>)\<rparr>"
  let ?m = "json_Marshal (params_json (params_of p u))"
  have "u\<lparr>ctrlConn := Some (cu\<lparr>c_sent := c_sent cu @ ?m\<rparr>)\<rparr> =
      u\<lparr>ctrlConn := Some (cu\<lparr>c_sent := c_sent cu @ msg\<rparr>)\<rparr>"
    using sent sendParams_run [OF client(1,4,5,6)] by simp
  from arg_cong [OF this, of ctrlConn] have "c_sent (cu\<lparr>c_sent := c_sent cu @ ?m\<rparr>) =
      c_sent (cu\<lparr>c_sent := c_sent cu @ msg\<rparr>)" by simp
  then have msg: "msg = ?m" by simp
  have "getParams w = take_params (params_of p u) ?w"
    using server msg by (intro getParams_whole) simp_all
  with take_params_of [of ?w u p] server client show ?thesis by auto
qed

text \<open>
  C38: When the parameter message is split by the network, so that the first \<open>Read\<close> of the
  server delivers only a proper part of it, \<open>getParams\<close> fails and the test is not set up: the
  only change is that those bytes are gone. A message split in two is therefore never read.
\<close>

theorem params_split_rejected:
  assumes "ctrlConn w = Some c" "\<not> c_closed c" "c_rd c = Chunk part # r"
    and "json_Marshal (params_json q) = part @ rest" "rest \<noteq> []"
    and "plain (ProtoName q)" "length (ProtoName q) \<le> 20"
  shows "getParams w = (Ret (- 1), w\<lparr>ctrlConn := Some (c\<lparr>c_rd := r\<rparr>)\<rparr>)"
proof -
  have "length part \<le> 1024"
    using params_size [OF assms(7)] assms(4) by simp
  then have rd: "ctrl_conn (conn_read 1024) w =
      (Ret (int (length part), None, part), w\<lparr>ctrlConn := Some (c\<lparr>c_rd := r\<rparr>)\<rparr>)"
    using assms(1-3) by (simp add: go_simps conn_read_chunk)
  obtain ms where ms: "params_json q = JObj ms" by (simp add: params_json_def)
  have "json_print (params_json q) = string_of part @ string_of rest"
    using arg_cong [OF assms(4), of string_of] by (simp add: json_Marshal_def string_of_append)
  moreover have "string_of rest \<noteq> []" using assms(5) by (simp add: string_of_def)
  ultimately have "json_parse (string_of part) = None"
    using json_parse_truncated params_json_ok [OF assms(6)] unfolding ms by blast
  then have "json_Unmarshal decode_params part = None" by (simp add: json_Unmarshal_def)
  with rd \<open>length part \<le> 1024\<close> show ?thesis
    by (simp add: getParams_def go_bind_Ret go_simps)
qed

section \<open>Results\<close>

lemma result_json_good:
  assumes "result_json r = Some j"
  shows "json_ok j \<and> decode_struct result_fields j zero_exchange = Some r"
  using assms
  by (auto simp: result_json_def time_json_def bind_eq_Some_conv plain_lits dec_time_text
      time_text_plain [unfolded plain_def] decode_struct_def result_fields_def find_field_def
      unquote_plain zero_exchange_def)

lemma those_Cons: "those (x # xs) = Some ys \<longleftrightarrow> (\<exists>y ys'. x = Some y \<and> those xs = Some ys' \<and> ys = y # ys')"
  by (auto split: option.splits)

lemma results_json_good:
  assumes "results_json rs = Some j"
  shows "json_ok j \<and> decode_results j = Some rs"
proof -
  have "list_all json_ok js \<and> those (map (\<lambda>v. decode_struct result_fields v zero_exchange) js) = Some rs"
    if "those (map result_json rs) = Some js" for js
    using that
  proof (induction rs arbitrary: js)
    case (Cons r rs)
    then obtain j' js' where "result_json r = Some j'" "those (map result_json rs) = Some js'" "js = j' # js'"
      by (auto simp only: list.map those_Cons)
    with Cons.IH result_json_good [of r j'] show ?case by simp
  qed simp
  with assms show ?thesis
    by (auto simp: results_json_def decode_results_def decode_slice_def list_all_iff)
qed

text \<open>The size of a result message.\<close>

lemma length_result_json:
  assumes "result_json r = Some j"
  shows "length (json_print j) \<le> 500"
proof -
  note n = length_FormatUint
  from assms obtain st en where t: "time_text (StartTime r) = Some st" "time_text (EndTime r) = Some en"
    and j: "length (json_print j) \<le> 200 + length (FormatUint (Id' r)) + length (FormatUint (Bytes r)) +
      length (FormatUint (Retrans r)) + length (FormatUint (Jitter r)) + length (FormatUint (InPkts r)) +
      length (FormatUint (OutPkts r)) + length (FormatUint (InSegs r)) + length (FormatUint (OutSegs r)) +
      length (FormatUint (Recovered r)) + length st + length en"
    by (auto simp: result_json_def time_json_def bind_eq_Some_conv json_quote_def)
  with length_time_text [OF t(1)] length_time_text [OF t(2)]
    n [of "Id' r"] n [of "Bytes r"] n [of "Retrans r"] n [of "Jitter r"] n [of "InPkts r"]
    n [of "OutPkts r"] n [of "InSegs r"] n [of "OutSegs r"] n [of "Recovered r"]
  show ?thesis by linarith
qed

lemma length_comma_sep: "length (comma_sep xs) \<le> sum_list (map (\<lambda>x. Suc (length x)) xs)"
  by (induction xs rule: comma_sep.induct) auto

lemma length_results_json:
  assumes "results_json rs = Some j"
  shows "length (json_Marshal j) \<le> 501 * length rs + 2"
proof -
  have "sum_list (map (\<lambda>x. Suc (length x)) (map json_print js)) \<le> 501 * length rs"
    if "those (map result_json rs) = Some js" for js
    using that
  proof (induction rs arbitrary: js)
    case (Cons r rs)
    then obtain j' js' where "result_json r = Some j'" "those (map result_json rs) = Some js'" "js = j' # js'"
      by (auto simp only: list.map those_Cons)
    with Cons.IH length_result_json [of r j'] show ?case by fastforce
  qed simp
  moreover from assms obtain js where "j = JArr js" "those (map result_json rs) = Some js"
    by (auto simp: results_json_def)
  ultimately show ?thesis
    using length_comma_sep [of "map json_print js"] by (fastforce simp: json_Marshal_def)
qed

lemma make_results_ok: "unat (streamNum w) * 120 \<le> max_alloc \<Longrightarrow> make_results w = (Ret (), w)"
  by (simp add: make_results_def go_simps)

text \<open>The results \<open>rs\<close> arrive behind their length, cut into any pieces.\<close>

lemma getResults_pieces:
  assumes "results_json rs = Some j" "bs = json_Marshal j" "length bs < 2 ^ 32"
    and "ctrlConn w = Some c" "arriving css c"
    and "concat css = PutUint32 (word_of_nat (length bs)) @ bs @ rest"
    and "unat (streamNum w) * 120 \<le> max_alloc"
  shows "\<exists>css'. concat css' = rest \<and>
    getResults w = go_then (store_results rs) (go_return 0) (w\<lparr>ctrlConn := Some (c\<lparr>c_rd := map Chunk css'\<rparr>)\<rparr>)"
proof -
  let ?len = "PutUint32 (word_of_nat (length bs))"
  from ReadFull_pieces [OF assms(5), of 4 "[]"] assms(6) obtain css1 where
    r1: "conn_ReadFull 4 [] c = (Ret (None, ?len), c\<lparr>c_rd := map Chunk css1\<rparr>)"
    and c1: "concat css1 = bs @ rest" by auto
  have "arriving css1 (c\<lparr>c_rd := map Chunk css1\<rparr>)" using assms(5) by (simp add: arriving_def)
  from ReadFull_pieces [OF this, of "length bs" "[]"] c1 obtain css2 where
    r2: "conn_ReadFull (length bs) [] (c\<lparr>c_rd := map Chunk css1\<rparr>) = (Ret (None, bs), c\<lparr>c_rd := map Chunk css2\<rparr>)"
    and c2: "concat css2 = rest" by auto
  have len: "unat (word_of_nat (length bs) :: u32) = length bs"
    using assms(3) by (simp add: unat_of_nat take_bit_nat_eq_self flip: take_bit_eq_mod)
  have "json_Unmarshal decode_results bs = Some rs"
    using results_json_good [OF assms(1)] by (simp add: assms(2) json_Unmarshal_Marshal)
  then have "getResults w = go_then (store_results rs) (go_return 0) (w\<lparr>ctrlConn := Some (c\<lparr>c_rd := map Chunk css2\<rparr>)\<rparr>)"
    using r1 r2 len assms(4)
    by (simp add: getResults_def go_simps go_bind_Ret make_results_ok [OF assms(7)] ctrl_conn_Some)
  with c2 show ?thesis by blast
qed

lemma store_results_from:
  assumes "k + length rs \<le> length (streams w)"
  shows "go_each (\<lambda>(i, r). go_bind (go_gets mode) (\<lambda>m.
      go_then (with_stream i (go_modify (store_result m r))) (go_return None))) (enumerate k rs) w =
    (Ret None :: unit option outcome, w\<lparr>streams := take k (streams w) @
      map2 (store_result (mode w)) rs (drop k (streams w)) @ drop (k + length rs) (streams w)\<rparr>)"
  using assms
proof (induction rs arbitrary: k w)
  case (Cons r rs)
  let ?sp = "store_result (mode w) r (streams w ! k)"
  let ?w = "w\<lparr>streams := (streams w)[k := ?sp]\<rparr>"
  have k: "k < length (streams w)" using Cons.prems by simp
  have "Suc k + length rs \<le> length (streams ?w)" using Cons.prems by simp
  from Cons.IH [OF this] k show ?case
    by (simp add: go_simps go_bind_Ret with_stream_def take_Suc_conv_app_nth drop_update_cancel
        flip: Cons_nth_drop_Suc)
qed (simp add: go_simps)

lemma store_results_run:
  "length rs \<le> length (streams w) \<Longrightarrow>
   store_results rs w = (Ret None, w\<lparr>streams :=
     map2 (store_result (mode w)) rs (streams w) @ drop (length rs) (streams w)\<rparr>)"
  using store_results_from [of 0 rs w] by (simp add: store_results_def)

lemma sendResults_run:
  assumes "results_json (all_results u) = Some j" "length (streams u) \<le> unat (streamNum u)"
    and "unat (streamNum u) * 120 \<le> max_alloc"
    and "ctrlConn u = Some cu" "\<not> c_closed cu" "c_wr cu = []"
  shows "sendResults u = (Ret 0, u\<lparr>ctrlConn := Some (cu\<lparr>c_sent := c_sent cu @
    PutUint32 (word_of_nat (length (json_Marshal j))) @ json_Marshal j\<rparr>)\<rparr>)"
  using assms
  by (simp add: sendResults_def go_simps go_bind_Ret make_results_ok conn_write_ok Let_def not_less)

lemma sendResults_none:
  assumes "results_json (all_results u) = None" "length (streams u) \<le> unat (streamNum u)"
    and "unat (streamNum u) * 120 \<le> max_alloc"
  shows "sendResults u = (Ret (- 1), u)"
proof -
  have "\<not> unat (streamNum u) < length (streams u)" using assms(2) by simp
  then show ?thesis
    using assms(1) by (simp add: sendResults_def go_then_def make_results_ok [OF assms(3)] go_bind_Ret go_simps)
qed

lemma all_results_nth:
  assumes "length (streams u) = unat (streamNum u)" "i < length (streams u)"
  shows "length (all_results u) = length (streams u)"
    "all_results u ! i = stream_result (mode u) i (streams u ! i)"
  using assms by (simp_all add: all_results_def nth_enumerate_eq)

lemma ctrl_sent_inj:
  assumes "u\<lparr>ctrlConn := Some (cu\<lparr>c_sent := c_sent cu @ a\<rparr>)\<rparr> =
    (u :: world)\<lparr>ctrlConn := Some (cu\<lparr>c_sent := c_sent cu @ b\<rparr>)\<rparr>"
  shows "a = b"
proof -
  from arg_cong [OF assms, of ctrlConn] have
    "c_sent (cu\<lparr>c_sent := c_sent cu @ a\<rparr>) = c_sent (cu\<lparr>c_sent := c_sent cu @ b\<rparr>)" by simp
  then show ?thesis by simp
qed

text \<open>What a side that runs in the other direction has learnt of its peer's stream.\<close>

definition learnt :: "bool \<Rightarrow> iperf_stream_results \<Rightarrow> iperf_stream_results \<Rightarrow> bool" where
  "learnt m peer own \<longleftrightarrow>
     (if m = IPERF_RECEIVER
      then bytes_sent own = bytes_sent peer \<and> stream_retrans own = stream_retrans peer \<and>
        stream_out_segs own = stream_out_segs peer \<and> stream_out_pkts own = stream_out_pkts peer
      else bytes_received own = bytes_received peer \<and> stream_in_segs own = stream_in_segs peer \<and>
        stream_in_pkts own = stream_in_pkts peer \<and> stream_recovers own = stream_recovers peer)"

lemma learnt_store: "learnt m (result sp') (result (store_result m (stream_result (\<not> m) i sp') sp))"
  by (simp add: learnt_def store_result_def stream_result_def Let_def)

lemma getResults_exact:
  assumes u: "length (streams u) = unat (streamNum u)"
    and w: "length (streams w) = length (streams u)"
      "unat (streamNum w) * 120 \<le> max_alloc" "ctrlConn w = Some c" "arriving css c"
    and j: "results_json (all_results u) = Some j" "length (json_Marshal j) < 2 ^ 32"
      "concat css = PutUint32 (word_of_nat (length (json_Marshal j))) @ json_Marshal j @ rest"
  shows "\<exists>css'. concat css' = rest \<and> getResults w = (Ret 0, w\<lparr>ctrlConn := Some (c\<lparr>c_rd := map Chunk css'\<rparr>),
    streams := map2 (store_result (mode w)) (all_results u) (streams w)\<rparr>)"
proof -
  from getResults_pieces [OF j(1) refl j(2) w(3,4) j(3) w(2)] obtain css' where css': "concat css' = rest"
    and run: "getResults w = go_then (store_results (all_results u)) (go_return 0)
      (w\<lparr>ctrlConn := Some (c\<lparr>c_rd := map Chunk css'\<rparr>)\<rparr>)" by blast
  let ?w = "w\<lparr>ctrlConn := Some (c\<lparr>c_rd := map Chunk css'\<rparr>)\<rparr>"
  let ?ss = "map2 (store_result (mode w)) (all_results u) (streams w)"
  have "length (all_results u) = length (streams w)"
    using u w by (simp add: all_results_def)
  then have "store_results (all_results u) ?w = (Ret None, ?w\<lparr>streams := ?ss\<rparr>)"
    using store_results_run [of "all_results u" ?w] by simp
  then have "getResults w = (Ret 0, ?w\<lparr>streams := ?ss\<rparr>)"
    using run by (simp add: go_simps go_bind_Ret)
  with css' show ?thesis by blast
qed

text \<open>What a side stores of the stream \<open>i\<close> of its peer.\<close>

lemma stored_nth:
  assumes "length (streams u) = unat (streamNum u)" "length (streams w) = length (streams u)" "i < length (streams u)"
  shows "map2 (store_result m) (all_results u) (streams w) ! i =
    store_result m (stream_result (mode u) i (streams u ! i)) (streams w ! i)"
  using assms all_results_nth [OF assms(1,3)] by simp

lemma getResults_learns:
  assumes u: "length (streams u) = unat (streamNum u)" "mode u = (\<not> mode w)"
    and w: "length (streams w) = length (streams u)" "streamNum w = streamNum u"
      "unat (streamNum w) * 120 \<le> max_alloc" "ctrlConn w = Some c" "arriving css c"
    and j: "results_json (all_results u) = Some j" "length (json_Marshal j) < 2 ^ 32"
      "concat css = PutUint32 (word_of_nat (length (json_Marshal j))) @ json_Marshal j @ rest"
  shows "\<exists>w' css'. getResults w = (Ret 0, w') \<and> ctrlConn w' = Some (c\<lparr>c_rd := map Chunk css'\<rparr>) \<and>
    concat css' = rest \<and> length (streams w') = length (streams w) \<and>
    (\<forall>i < length (streams w). learnt (mode w) (result (streams u ! i)) (result (streams w' ! i)))"
proof -
  let ?ss = "map2 (store_result (mode w)) (all_results u) (streams w)"
  from getResults_exact [OF u(1) w(1,3,4,5) j] obtain css' where css': "concat css' = rest"
    and run: "getResults w = (Ret 0, w\<lparr>ctrlConn := Some (c\<lparr>c_rd := map Chunk css'\<rparr>), streams := ?ss\<rparr>)" by blast
  have "learnt (mode w) (result (streams u ! i)) (result (?ss ! i))" if "i < length (streams w)" for i
    using that w(1) u learnt_store [of "mode w"] stored_nth [OF u(1) w(1), of i] by simp
  moreover have "length ?ss = length (streams w)" using u w by (simp add: all_results_def)
  ultimately show ?thesis using run css' by auto
qed

text \<open>The message of a side whose \<open>sendResults\<close> succeeds.\<close>

lemma sendResults_message:
  assumes "sendResults u = (Ret 0, u1)" "ctrlConn u = Some cu" "\<not> c_closed cu" "c_wr cu = []"
    and "length (streams u) = unat (streamNum u)" "streamNum u \<le> 1000000"
  obtains j where "results_json (all_results u) = Some j" "length (json_Marshal j) < 2 ^ 32"
    "unat (streamNum u) * 120 \<le> max_alloc"
    "u1 = u\<lparr>ctrlConn := Some (cu\<lparr>c_sent := c_sent cu @
      PutUint32 (word_of_nat (length (json_Marshal j))) @ json_Marshal j\<rparr>)\<rparr>"
proof -
  have small: "unat (streamNum u) \<le> 1000000" using assms(6) by (simp add: word_le_nat_alt)
  then have mk: "unat (streamNum u) * 120 \<le> max_alloc" by (simp add: max_alloc_def)
  have "results_json (all_results u) \<noteq> None"
  proof
    assume "results_json (all_results u) = None"
    from sendResults_none [OF this _ mk] assms(5) have "sendResults u = (Ret (- 1), u)" by simp
    from arg_cong [OF trans [OF sym [OF this] assms(1)], of fst] show False by simp
  qed
  then obtain j where j: "results_json (all_results u) = Some j" by blast
  have "length (all_results u) \<le> 1000000" using small assms(5) by (simp add: all_results_def)
  then have "501 * length (all_results u) + 2 < 2 ^ 32" by simp
  with length_results_json [OF j] have "length (json_Marshal j) < 2 ^ 32" by (rule le_less_trans)
  moreover have "(Ret 0, u1) = (Ret 0 :: int outcome, u\<lparr>ctrlConn := Some (cu\<lparr>c_sent := c_sent cu @
      PutUint32 (word_of_nat (length (json_Marshal j))) @ json_Marshal j\<rparr>)\<rparr>)"
    unfolding assms(1) [symmetric] using assms(5) mk by (intro sendResults_run [OF j _ _ assms(2-4)]) simp_all
  ultimately show thesis using that j mk by blast
qed

text \<open>
  C2: The results a side sends are what its peer stores: with as many streams on both sides,
  running in opposite directions, and however the network cuts the message, \<open>getResults\<close>
  succeeds, consumes exactly the message, and gives every stream the totals of the peer's
  stream with the same index (bytes sent, retransmissions, segments and packets out at the
  receiver; bytes received, segments and packets in, recoveries at the sender).
\<close>

theorem results_agree:
  assumes sent: "sendResults u = (Ret 0, u\<lparr>ctrlConn := Some (cu\<lparr>c_sent := c_sent cu @ msg\<rparr>)\<rparr>)"
      "ctrlConn u = Some cu" "\<not> c_closed cu" "c_wr cu = []"
    and u: "length (streams u) = unat (streamNum u)" "mode u = (\<not> mode w)" "streamNum u \<le> 1000000"
    and w: "length (streams w) = length (streams u)" "streamNum w = streamNum u" "ctrlConn w = Some c" "arriving css c"
      "concat css = msg @ rest"
  shows "\<exists>w' css'. getResults w = (Ret 0, w') \<and> ctrlConn w' = Some (c\<lparr>c_rd := map Chunk css'\<rparr>) \<and>
    concat css' = rest \<and> length (streams w') = length (streams w) \<and>
    (\<forall>i < length (streams w). learnt (mode w) (result (streams u ! i)) (result (streams w' ! i)))"
proof -
  from sendResults_message [OF sent u(1,3)] obtain j where
    j: "results_json (all_results u) = Some j" "length (json_Marshal j) < 2 ^ 32"
    and mk: "unat (streamNum u) * 120 \<le> max_alloc"
    and u1: "u\<lparr>ctrlConn := Some (cu\<lparr>c_sent := c_sent cu @ msg\<rparr>)\<rparr> = u\<lparr>ctrlConn := Some (cu\<lparr>c_sent := c_sent cu @
      PutUint32 (word_of_nat (length (json_Marshal j))) @ json_Marshal j\<rparr>)\<rparr>" .
  from ctrl_sent_inj [OF u1] have msg: "msg = PutUint32 (word_of_nat (length (json_Marshal j))) @ json_Marshal j" .
  have "unat (streamNum w) * 120 \<le> max_alloc" using mk w(2) by simp
  from getResults_learns [OF u(1,2) w(1,2) this w(3,4) j] w(5) show ?thesis
    unfolding msg append_assoc by blast
qed

lemma store_results_over:
  assumes "k \<le> length (streams w)" "length (streams w) < k + length rs"
  shows "fst (go_each (\<lambda>(i, r). go_bind (go_gets mode) (\<lambda>m.
      go_then (with_stream i (go_modify (store_result m r))) (go_return None))) (enumerate k rs) w) =
    (Panicked IndexOutOfRange :: unit option outcome)"
  using assms
proof (induction rs arbitrary: k w)
  case (Cons r rs)
  show ?case
  proof (cases "k < length (streams w)")
    case True
    let ?w = "w\<lparr>streams := (streams w)[k := store_result (mode w) r (streams w ! k)]\<rparr>"
    have "Suc k \<le> length (streams ?w)" "length (streams ?w) < Suc k + length rs"
      using True Cons.prems by simp_all
    from Cons.IH [OF this] True show ?thesis
      by (simp add: go_simps go_bind_Ret with_stream_def)
  next
    case False
    then show ?thesis by (simp add: go_simps go_bind_Panicked with_stream_def)
  qed
qed simp

text \<open>
  C37: A peer that sends more results than there are streams crashes the process:
  \<open>getResults\<close> takes the length of the array from the peer and indexes \<open>test.streams\<close> with it.
\<close>

theorem too_many_results_panic:
  assumes "results_json rs = Some j" "length (json_Marshal j) < 2 ^ 32"
    and "ctrlConn w = Some c" "arriving css c"
    and "concat css = PutUint32 (word_of_nat (length (json_Marshal j))) @ json_Marshal j @ rest"
    and "unat (streamNum w) * 120 \<le> max_alloc" "length (streams w) < length rs"
  shows "fst (getResults w) = Panicked IndexOutOfRange"
proof -
  from getResults_pieces [OF assms(1) refl assms(2-6)] obtain css' where
    run: "getResults w = go_then (store_results rs) (go_return 0)
      (w\<lparr>ctrlConn := Some (c\<lparr>c_rd := map Chunk css'\<rparr>)\<rparr>)" by blast
  let ?w = "w\<lparr>ctrlConn := Some (c\<lparr>c_rd := map Chunk css'\<rparr>)\<rparr>"
  have "fst (store_results rs ?w) = Panicked IndexOutOfRange"
    using store_results_over [of 0 ?w rs] assms(7) by (simp add: store_results_def)
  then obtain w' where "store_results rs ?w = (Panicked IndexOutOfRange, w')" by (metis prod.collapse)
  with run show ?thesis by (simp add: go_simps go_bind_Panicked)
qed

section \<open>The properties on a small test\<close>

definition small_peer :: "u8 list list \<Rightarrow> world" where
  "small_peer css = small_test
     \<lparr>isServer := True, mode := IPERF_RECEIVER,
      streams := [small_stream RECEIVER_STREAM, small_stream RECEIVER_STREAM],
      ctrlConn := Some (quiet_conn\<lparr>c_rd := map Chunk css\<rparr>)\<rparr>"

definition small_params :: "u8 list" where
  "small_params = json_Marshal (params_json (params_of TCPProto small_test))"

lemma small_simps:
  "proto small_test = Some TCPProto" "ctrlConn small_test = Some quiet_conn"
  "\<not> c_closed quiet_conn" "c_wr quiet_conn = []" "\<not> isServer small_test" "mode small_test"
  "\<not> reverse small_test" "streamNum small_test = 2" "length (streams small_test) = 2"
  "mode small_test = (\<not> reverse small_test)"
  by (simp_all add: small_test_def NewIperfTest_def quiet_conn_def)

lemma small_peer_simps:
  "streamNum (small_peer css) = 2" "length (streams (small_peer css)) = 2" "\<not> mode (small_peer css)"
  "ctrlConn (small_peer css) = Some (quiet_conn\<lparr>c_rd := map Chunk css\<rparr>)"
  "arriving css (quiet_conn\<lparr>c_rd := map Chunk css\<rparr>)"
  "isServer (small_peer css)" "protocols (small_peer css) = [TCPProto, rudpProto, kcpProto]"
  by (simp_all add: small_peer_def small_test_def NewIperfTest_def arriving_def quiet_conn_def)

theorem params_agree_witness:
  "\<exists>w'. getParams (small_peer [small_params]) = (Ret 0, w') \<and> same_params small_test w' \<and> \<not> mode w'"
proof -
  have "sendParams small_test = (Ret 0, small_test\<lparr>ctrlConn :=
      Some (quiet_conn\<lparr>c_sent := c_sent quiet_conn @ small_params\<rparr>)\<rparr>)"
    unfolding small_params_def by (rule sendParams_run) (simp_all add: small_simps)
  from params_agree [OF small_simps(1,5) small_simps(10) small_simps(2-4) this small_peer_simps(6,7,4) _ _,
      of "[small_params]" "[]"]
  have "\<exists>w'. getParams (small_peer [small_params]) = (Ret 0, w') \<and> same_params small_test w' \<and>
      mode w' = (\<not> mode small_test)"
    by (auto simp: quiet_conn_def)
  then show ?thesis by (simp add: small_simps)
qed

lemma small_params_pieces: "take 3 small_params @ drop 3 small_params = small_params" "drop 3 small_params \<noteq> []"
  by (simp_all add: small_params_def json_Marshal_def params_json_def bytes_of_def json_quote_def
      numeral_3_eq_3)

theorem params_split_rejected_witness:
  "fst (getParams (small_peer [take 3 small_params, drop 3 small_params])) = Ret (- 1)"
proof -
  let ?css = "[take 3 small_params, drop 3 small_params]"
  have "json_Marshal (params_json (params_of TCPProto small_test)) = take 3 small_params @ drop 3 small_params"
    by (simp only: small_params_def append_take_drop_id)
  moreover have "\<not> c_closed (quiet_conn\<lparr>c_rd := map Chunk ?css\<rparr>)"
    "c_rd (quiet_conn\<lparr>c_rd := map Chunk ?css\<rparr>) = Chunk (take 3 small_params) # [Chunk (drop 3 small_params)]"
    by (simp_all add: quiet_conn_def)
  moreover have "plain (ProtoName (params_of TCPProto small_test))"
    "length (ProtoName (params_of TCPProto small_test)) \<le> 20"
    unfolding ProtoName_params_of by (rule plain_protocol_name, rule length_protocol_name)
  ultimately have "getParams (small_peer ?css) = (Ret (- 1), (small_peer ?css)\<lparr>ctrlConn :=
      Some (quiet_conn\<lparr>c_rd := map Chunk ?css, c_rd := [Chunk (drop 3 small_params)]\<rparr>)\<rparr>)"
    using small_params_pieces(2) by (intro params_split_rejected small_peer_simps(4))
  then show ?thesis by simp
qed

definition small_results :: "u8 list" where
  "small_results = json_Marshal (the (results_json (all_results small_sent)))"

definition small_results_msg :: "u8 list" where
  "small_results_msg = PutUint32 (word_of_nat (length small_results)) @ small_results"

lemma small_results_ok:
  "results_json (all_results small_sent) = Some (the (results_json (all_results small_sent)))"
proof -
  have "time_text 0 \<noteq> None" by (simp add: time_text_def civil_year.simps year_len_def split: prod.split)
  moreover have "\<forall>r \<in> set (all_results small_sent). StartTime r = 0 \<and> EndTime r = 0" by code_simp
  ultimately have "\<forall>r \<in> set (all_results small_sent). result_json r \<noteq> None"
    by (auto simp: result_json_def time_json_def)
  moreover have "those (map result_json rs) \<noteq> None" if "\<forall>r \<in> set rs. result_json r \<noteq> None" for rs
    using that by (induction rs) auto
  ultimately show ?thesis by (auto simp: results_json_def)
qed

lemma small_results_sent:
  "sendResults small_sent = (Ret 0, small_sent\<lparr>ctrlConn :=
     Some (quiet_conn\<lparr>c_sent := c_sent quiet_conn @ small_results_msg\<rparr>)\<rparr>)"
proof -
  have "length (streams small_sent) \<le> unat (streamNum small_sent)" by code_simp
  moreover have "streamNum small_sent = 2" "ctrlConn small_sent = Some quiet_conn" by code_simp+
  ultimately show ?thesis
    unfolding small_results_msg_def small_results_def
    by (intro sendResults_run small_results_ok) (simp_all add: max_alloc_def small_simps)
qed

theorem results_agree_witness:
  "\<exists>w'. getResults (small_peer (map (\<lambda>b. [b]) small_results_msg)) = (Ret 0, w') \<and>
     learnt False (result (streams small_sent ! 1)) (result (streams w' ! 1))"
proof -
  let ?css = "map (\<lambda>b. [b]) small_results_msg"
  have u: "length (streams small_sent) = unat (streamNum small_sent)" "mode small_sent"
    "streamNum small_sent \<le> 1000000" "length (streams small_sent) = 2" "streamNum small_sent = 2"
    "ctrlConn small_sent = Some quiet_conn" by code_simp+
  have "concat ?css = small_results_msg @ []" by simp
  from results_agree [OF small_results_sent u(6) small_simps(3,4) u(1) _ u(3) _ _ small_peer_simps(4,5) this] u
  show ?thesis by (auto simp: small_peer_simps)
qed

text \<open>Three results for two streams.\<close>

definition excess_results :: "stream_results_exchange list" where
  "excess_results = [zero_exchange, zero_exchange, zero_exchange]"

definition excess_msg :: "u8 list" where
  "excess_msg =
     (let bs = json_Marshal (the (results_json excess_results)) in PutUint32 (word_of_nat (length bs)) @ bs)"

lemma excess_results_ok:
  "results_json excess_results = Some (the (results_json excess_results))"
proof -
  have "time_text 0 \<noteq> None" by (simp add: time_text_def civil_year.simps year_len_def split: prod.split)
  then have "result_json zero_exchange \<noteq> None"
    by (auto simp: result_json_def time_json_def zero_exchange_def)
  then show ?thesis by (auto simp: results_json_def excess_results_def)
qed

theorem too_many_results_panic_witness:
  "fst (getResults (small_peer [excess_msg])) = Panicked IndexOutOfRange"
proof -
  let ?bs = "json_Marshal (the (results_json excess_results))"
  have "length ?bs \<le> 501 * 3 + 2"
    using length_results_json [OF excess_results_ok] by (simp add: excess_results_def)
  then have "length ?bs < 2 ^ 32" by (rule le_less_trans) simp
  moreover have "concat [excess_msg] = PutUint32 (word_of_nat (length ?bs)) @ ?bs @ []"
    by (simp add: excess_msg_def Let_def)
  moreover have "length (streams (small_peer [excess_msg])) < length excess_results"
    by (simp add: small_peer_simps excess_results_def)
  moreover have "unat (streamNum (small_peer [excess_msg])) * 120 \<le> max_alloc"
    by (simp add: small_peer_simps max_alloc_def)
  ultimately show ?thesis
    by (intro too_many_results_panic [OF excess_results_ok _ small_peer_simps(4,5)])
qed

end
