(* ===== verification/Report.thy ===== *)
theory Report
  imports Streams
begin

text \<open>
  The reports of \<open>iperf_api.go\<close> (lines 714 to 902): the callback that waits for statistics,
  the report of an interval and the final report. What is printed is kept as the format and
  the computed arguments of each \<open>fmt.Printf\<close>; floating point arguments are computed in the
  order of the source. Times of day are those of a process whose local zone is UTC.
\<close>

section \<open>Formats\<close>

definition TCP_INTERVAL_HEADER :: string where
  "TCP_INTERVAL_HEADER =
     ''[ ID]    Timestamp           Interval        Transfer        Bandwidth        RTT        Retrans\<newline>''"

definition TCP_RESULT_HEADER :: string where
  "TCP_RESULT_HEADER =
     ''[ ID]    Timestamp           Interval        Transfer        Bandwidth        RTT        Retrans   Retrans(%%)\<newline>''"

definition RUDP_INTERVAL_HEADER :: string where
  "RUDP_INTERVAL_HEADER =
     ''[ ID]    Timestamp           Interval        Transfer        Bandwidth        RTT        Retrans   Retrans(%%)  Lost(%%)  Early(%%)  Fast(%%)\<newline>''"

definition RUDP_RESULT_HEADER :: string where
  "RUDP_RESULT_HEADER =
     ''[ ID]    Timestamp           Interval        Transfer        Bandwidth        RTT        Retrans   Retrans(%%)  Lost(%%)  Early(%%)  Fast(%%)  Recover(%%)  PktsLost(%%)  SegsLost(%%)\<newline>''"

definition TCP_REPORT_SINGLE_STREAM :: string where
  "TCP_REPORT_SINGLE_STREAM =
     ''[  %v] %s %4.2f-%4.2f sec'' @ [CHR 0x09] @ ''%5.2f MB'' @ [CHR 0x09] @ ''%5.2f Mb/s'' @ [CHR 0x09] @ ''%6.1fms'' @ [CHR 0x09] @ ''%4v\<newline>''"

definition RUDP_REPORT_SINGLE_STREAM :: string where
  "RUDP_REPORT_SINGLE_STREAM =
     ''[  %v] %s %4.2f-%4.2f sec'' @ [CHR 0x09] @ ''%5.2f MB'' @ [CHR 0x09] @ ''%5.2f Mb/s'' @ [CHR 0x09] @ ''%6.1fms'' @ [CHR 0x09] @ ''%4v'' @ [CHR 0x09] @ ''%2.2f%%'' @ [CHR 0x09] @ ''%2.2f%%'' @ [CHR 0x09] @ ''%2.2f%%'' @ [CHR 0x09] @ ''%2.2f%%\<newline>''"

definition TCP_REPORT_SINGLE_RESULT :: string where
  "TCP_REPORT_SINGLE_RESULT =
     ''[  %v] %s %4.2f-%4.2f sec'' @ [CHR 0x09] @ ''%5.2f MB'' @ [CHR 0x09] @ ''%5.2f Mb/s'' @ [CHR 0x09] @ ''%6.1fms'' @ [CHR 0x09] @ ''%4v'' @ [CHR 0x09] @ ''%2.2f%%'' @ [CHR 0x09] @ ''[%s]\<newline>''"

definition RUDP_REPORT_SINGLE_RESULT :: string where
  "RUDP_REPORT_SINGLE_RESULT =
     ''[  %v] %s %4.2f-%4.2f sec'' @ [CHR 0x09] @ ''%5.2f MB'' @ [CHR 0x09] @ ''%5.2f Mb/s'' @ [CHR 0x09] @ ''%6.1fms'' @ [CHR 0x09] @ ''%4v'' @ [CHR 0x09] @ ''%2.2f%%'' @ [CHR 0x09] @ ''%2.2f%%'' @ [CHR 0x09] @ ''%2.2f%%'' @ [CHR 0x09] @ ''%2.2f%%'' @ [CHR 0x09] @ ''%2.2f%%'' @ [CHR 0x09] @ ''%2.2f%%'' @ [CHR 0x09] @ ''%2.2f%%'' @ [CHR 0x09] @ ''[%s]\<newline>''"

definition REPORT_SUM_STREAM :: string where
  "REPORT_SUM_STREAM =
     ''[SUM] %s %4.2f-%4.2f sec'' @ [CHR 0x09] @ ''%5.2f MB'' @ [CHR 0x09] @ ''%5.2f Mb/s'' @ [CHR 0x09] @ ''%6.1fms'' @ [CHR 0x09] @ ''%4v'' @ [CHR 0x09] @ ''\<newline>''"

definition REPORT_SEPERATOR :: string where
  "REPORT_SEPERATOR =
     ''- - - - - - - - - - - - - - - - - - - - - - - - - - - - - - - - - - - -\<newline>''"

definition SUMMARY_SEPERATOR :: string where
  "SUMMARY_SEPERATOR =
     ''- - - - - - - - - - - - - - - - SUMMARY - - - - - - - - - - - - - - - -\<newline>''"

definition TOTALS_LINE :: string where
  "TOTALS_LINE =
     ''total_segs = %v, out_segs = %v, in_segs = %v, out_pkts = %v, in_pkts = %v, recovery = %v\<newline>, repeat = %v\<newline>''"

section \<open>Conversions\<close>

definition TCP_MSS :: rat where "TCP_MSS = 1460"
definition RUDP_MSS :: rat where "RUDP_MSS = 1376"

text \<open>\<open>t.Format("15:04:05.000")\<close>.\<close>

definition clock_text :: "time \<Rightarrow> string" where
  "clock_text t =
     (let ms = nat (t div 1000000) in
      pad 2 (ms div 3600000 mod 24) @ '':'' @ pad 2 (ms div 60000 mod 60) @ '':'' @
      pad 2 (ms div 1000 mod 60) @ ''.'' @ pad 3 (ms mod 1000))"

definition in_seconds :: "duration \<Rightarrow> f64" where
  "in_seconds d = f64_div (f64_of_int d) (Fin 1000000000)"

definition in_MB :: "u64 \<Rightarrow> f64" where
  "in_MB b = f64_div (f64_of_uint b) (Fin (of_int MB_TO_B))"

definition percent_of :: "f64 \<Rightarrow> u64 \<Rightarrow> f64" where
  "percent_of segs n = f64_mul (f64_div (f64_of_uint n) segs) (Fin 100)"

text \<open>Go's integer division truncates towards zero.\<close>

definition quot :: "int \<Rightarrow> int \<Rightarrow> int" where
  "quot a b = sgn a * sgn b * (\<bar>a\<bar> div \<bar>b\<bar>)"

definition durNotSame :: "duration \<Rightarrow> duration \<Rightarrow> bool" where
  "durNotSame d d2 =
     (let diffInMs = quot d 1000000 - quot d2 1000000 in diffInMs < - 100 \<or> 100 < diffInMs)"

section \<open>The report of an interval\<close>

fun go_collect :: "('a \<Rightarrow> ('b, 's) go) \<Rightarrow> 'a list \<Rightarrow> ('b list, 's) go" where
  "go_collect f [] = go_return []"
| "go_collect f (x # xs) =
     go_bind (f x) (\<lambda>y. go_bind (go_collect f xs) (\<lambda>ys. go_return (y # ys)))"

definition displayBandwidth :: "f64 \<Rightarrow> uint \<Rightarrow> f64" where
  "displayBandwidth mb ival = f64_mul (f64_mul (f64_div mb (f64_of_uint ival)) (Fin 1000)) (Fin 8)"

definition interval_args :: "nat \<Rightarrow> uint \<Rightarrow> iperf_stream_results \<Rightarrow> iperf_interval_results \<Rightarrow> fmt_arg list" where
  "interval_args i ival rp r =
     [AInt (int i), AStr (clock_text (interval_end_time r)),
      AFloat (in_seconds (time_Sub (interval_start_time r) (start_time rp))),
      AFloat (in_seconds (time_Sub (interval_end_time r) (start_time rp))),
      AFloat (in_MB (bytes_transfered r)),
      AFloat (displayBandwidth (in_MB (bytes_transfered r)) ival),
      AFloat (f64_div (f64_of_uint (rtt r)) (Fin 1000)), AInt (uint (interval_retrans r))]"

definition loss_args :: "iperf_interval_results \<Rightarrow> fmt_arg list" where
  "loss_args r =
     (let totalSegs = f64_add (f64_div (f64_of_uint (bytes_transfered r)) (Fin RUDP_MSS))
                        (f64_of_uint (interval_retrans r)) in
      [AFloat (percent_of totalSegs (interval_retrans r)), AFloat (percent_of totalSegs (interval_lost r)),
       AFloat (percent_of totalSegs (interval_early_retrans r)),
       AFloat (percent_of totalSegs (interval_fast_retrans r))])"

text \<open>
  One stream: the header before the first interval of the first stream, and a line for the
  last interval. A stream without intervals is an index out of range.
\<close>

definition print_header :: "nat \<Rightarrow> iperf_stream_results \<Rightarrow> (unit, world) go" where
  "print_header i rp =
     (if i = 0 \<and> length (interval_results rp) = 1
      then via_proto (\<lambda>p. go_Printf (if p = TCPProto then TCP_INTERVAL_HEADER else RUDP_INTERVAL_HEADER) [])
      else go_return ())"

definition print_line :: "nat \<Rightarrow> iperf_stream_results \<Rightarrow> iperf_interval_results \<Rightarrow> (unit, world) go" where
  "print_line i rp r =
     go_bind (go_gets interval) (\<lambda>ival.
     via_proto (\<lambda>p.
       if p = TCPProto then go_Printf TCP_REPORT_SINGLE_STREAM (interval_args i ival rp r)
       else go_Printf RUDP_REPORT_SINGLE_STREAM (interval_args i ival rp r @ loss_args r)))"

definition print_interval :: "nat \<Rightarrow> (iperf_stream_results \<times> iperf_interval_results, world) go" where
  "print_interval i =
     go_bind (with_stream i (go_gets result)) (\<lambda>rp.
     go_then (print_header i rp) (
     if interval_results rp = [] then go_panic IndexOutOfRange else
     go_then (print_line i rp (last (interval_results rp)))
       (go_return (rp, last (interval_results rp)))))"

text \<open>The times of the summary line are those of the last stream.\<close>

definition shown_times :: "(iperf_stream_results \<times> iperf_interval_results) list \<Rightarrow> f64 \<times> f64" where
  "shown_times rs =
     (if rs = [] then (Fin 0, Fin 0) else
      (case last rs of (rp, r) \<Rightarrow>
        (in_seconds (time_Sub (interval_start_time r) (start_time rp)),
         in_seconds (time_Sub (interval_end_time r) (start_time rp)))))"

definition iperfPrintIntermediate :: "(unit, world) go" where
  "iperfPrintIntermediate =
     go_bind (go_gets (\<lambda>w. [0..<length (streams w)])) (\<lambda>is.
     go_bind (go_collect print_interval is) (\<lambda>rs.
     go_bind (go_gets (\<lambda>w. (streamNum w, interval w))) (\<lambda>(n, ival).
     if 1 < n then
       (let sumBytesTransfer = sum_list (map (\<lambda>(rp, r). bytes_transfered r) rs);
            sumRetrans = sum_list (map (\<lambda>(rp, r). interval_retrans r) rs);
            sumRtt = sum_list (map (\<lambda>(rp, r). rtt r) rs);
            mb = in_MB sumBytesTransfer in
        go_bind time_Now (\<lambda>now.
        go_then (go_Printf REPORT_SUM_STREAM
          [AStr (clock_text now), AFloat (fst (shown_times rs)), AFloat (snd (shown_times rs)),
           AFloat mb, AFloat (displayBandwidth mb ival),
           AFloat (f64_div (f64_div (f64_of_uint sumRtt) (Fin 1000)) (f64_of_uint n)),
           AInt (uint sumRetrans)])
        (go_Printf REPORT_SEPERATOR [])))
     else go_return ())))"

section \<open>The final report\<close>

definition transferred :: "bool \<Rightarrow> iperf_stream_results \<Rightarrow> u64" where
  "transferred m rp = (if m = IPERF_RECEIVER then bytes_received rp else bytes_sent rp)"

definition mean_rtt :: "iperf_stream_results \<Rightarrow> f64" where
  "mean_rtt rp = f64_div (f64_div (f64_of_uint (stream_sum_rtt rp)) (f64_of_uint (stream_cnt_rtt rp))) (Fin 1000)"

definition elapsed :: "iperf_stream_results \<Rightarrow> f64" where
  "elapsed rp = in_seconds (time_Sub (end_time rp) (start_time rp))"

definition result_args :: "nat \<Rightarrow> bool \<Rightarrow> uint \<Rightarrow> iperf_stream_results \<Rightarrow> fmt_arg list" where
  "result_args i m dur rp =
     [AInt (int i), AStr (clock_text (end_time rp)), AFloat (Fin 0), AFloat (elapsed rp),
      AFloat (in_MB (transferred m rp)),
      AFloat (f64_mul (f64_div (in_MB (transferred m rp)) (f64_of_uint dur)) (Fin 8)),
      AFloat (mean_rtt rp), AInt (uint (stream_retrans rp))]"

definition tcp_rates :: "bool \<Rightarrow> iperf_stream_results \<Rightarrow> fmt_arg list" where
  "tcp_rates m rp =
     (let totalSegs = f64_add (f64_div (f64_mul (in_MB (transferred m rp)) (Fin (of_int MB_TO_B))) (Fin TCP_MSS))
                        (f64_of_uint (stream_retrans rp)) in
      [AFloat (percent_of totalSegs (stream_retrans rp))])"

definition missing_rate :: "u64 \<Rightarrow> u64 \<Rightarrow> f64" where
  "missing_rate inn outt =
     f64_mul (f64_sub (Fin 1) (f64_div (f64_of_uint inn) (f64_of_uint outt))) (Fin 100)"

definition rudp_rates :: "iperf_stream_results \<Rightarrow> fmt_arg list" where
  "rudp_rates rp =
     (let totalSegs = f64_of_uint (stream_out_segs rp) in
      map AFloat
        [percent_of totalSegs (stream_retrans rp), percent_of totalSegs (stream_lost rp),
         percent_of totalSegs (stream_early_retrans rp), percent_of totalSegs (stream_fast_retrans rp),
         percent_of totalSegs (stream_recovers rp),
         missing_rate (stream_in_pkts rp) (stream_out_pkts rp),
         missing_rate (stream_in_segs rp) (stream_out_segs rp)])"

definition total_args :: "iperf_stream_results \<Rightarrow> fmt_arg list" where
  "total_args rp =
     [AFloat (f64_of_uint (stream_out_segs rp)), AInt (uint (stream_out_segs rp)),
      AInt (uint (stream_in_segs rp)), AInt (uint (stream_out_pkts rp)),
      AInt (uint (stream_in_pkts rp)), AInt (uint (stream_recovers rp)), AInt (uint (stream_repeat_segs rp))]"

definition print_result :: "nat \<Rightarrow> (iperf_stream_results, world) go" where
  "print_result i =
     go_bind (with_stream i (go_gets (\<lambda>sp. (role sp, result sp)))) (\<lambda>(rl, rp).
     go_bind (go_gets (\<lambda>w. (mode w, duration w))) (\<lambda>(m, dur).
     (let who = (if rl = SENDER_STREAM then ''SENDER'' else ''RECEIVER'') in
      go_then (via_proto (\<lambda>p.
        if p = TCPProto then
          go_Printf TCP_REPORT_SINGLE_RESULT (result_args i m dur rp @ tcp_rates m rp @ [AStr who])
        else
          go_then (go_Printf RUDP_REPORT_SINGLE_RESULT (result_args i m dur rp @ rudp_rates rp @ [AStr who]))
            (go_Printf TOTALS_LINE (total_args rp))))
      (go_return rp))))"

definition iperfPrintResults :: "(unit, world) go" where
  "iperfPrintResults =
     go_then (go_Printf SUMMARY_SEPERATOR []) (
     go_then (via_proto (\<lambda>p. go_Printf (if p = TCPProto then TCP_RESULT_HEADER else RUDP_RESULT_HEADER) [])) (
     go_bind (go_gets (\<lambda>w. [0..<length (streams w)])) (\<lambda>is.
     if is = [] then go_return () else
     go_bind (go_collect print_result is) (\<lambda>rs.
     go_bind (go_gets (\<lambda>w. (streamNum w, mode w, duration w))) (\<lambda>(n, m, dur).
     if 1 < n then
       (let sumBytesTransfer = sum_list (map (transferred m) rs);
            sumRetrans = sum_list (map stream_retrans rs);
            avgRtt = foldl (\<lambda>a rp. f64_add a (mean_rtt rp)) (Fin 0) rs;
            mb = in_MB sumBytesTransfer in
        go_bind time_Now (\<lambda>now.
        go_Printf REPORT_SUM_STREAM
          [AStr (clock_text now), AFloat (Fin 0), AFloat (elapsed (last rs)), AFloat mb,
           AFloat (displayBandwidth mb dur), AFloat (f64_div avgRtt (f64_of_uint n)),
           AInt (uint sumRetrans)]))
     else go_return ())))))"

section \<open>The callback\<close>

text \<open>The callback waits until the statistics callback has left its token.\<close>

definition iperfReporterCallback :: "(unit, world) go" where
  "iperfReporterCallback =
     go_bind stats_recv (\<lambda>_.
     go_bind (go_gets state) (\<lambda>st.
     if st = TEST_RUNNING then iperfPrintIntermediate
     else if st = TEST_END \<or> st = IPERF_DISPLAY_RESULT then
       go_then iperfPrintIntermediate iperfPrintResults
     else go_return ()))"

section \<open>What a report prints and leaves alone\<close>

definition last_interval :: "iperf_stream \<Rightarrow> iperf_interval_results" where
  "last_interval sp = last (interval_results (result sp))"

text \<open>The lines for one stream.\<close>

definition header_lines :: "protocol \<Rightarrow> nat \<Rightarrow> iperf_stream_results \<Rightarrow> out_ev list" where
  "header_lines p i rp =
     (if i = 0 \<and> length (interval_results rp) = 1
      then [Printf (if p = TCPProto then TCP_INTERVAL_HEADER else RUDP_INTERVAL_HEADER) []] else [])"

definition interval_line :: "protocol \<Rightarrow> uint \<Rightarrow> nat \<Rightarrow> iperf_stream_results \<Rightarrow> iperf_interval_results \<Rightarrow> out_ev" where
  "interval_line p ival i rp r =
     (if p = TCPProto then Printf TCP_REPORT_SINGLE_STREAM (interval_args i ival rp r)
      else Printf RUDP_REPORT_SINGLE_STREAM (interval_args i ival rp r @ loss_args r))"

definition stream_lines :: "protocol \<Rightarrow> uint \<Rightarrow> nat \<Rightarrow> iperf_stream \<Rightarrow> out_ev list" where
  "stream_lines p ival i sp =
     header_lines p i (result sp) @ [interval_line p ival i (result sp) (last_interval sp)]"

lemma print_header_run:
  "proto w = Some p \<Longrightarrow> print_header i rp w = (Ret (), w\<lparr>out := out w @ header_lines p i rp\<rparr>)"
  by (simp add: print_header_def header_lines_def go_simps)

lemma print_line_run:
  "proto w = Some p \<Longrightarrow> print_line i rp r w = (Ret (), w\<lparr>out := out w @ [interval_line p (interval w) i rp r]\<rparr>)"
  by (simp add: print_line_def interval_line_def go_simps)

lemma print_interval_run:
  assumes "proto w = Some p" "i < length (streams w)" "interval_results (result (streams w ! i)) \<noteq> []"
  shows "print_interval i w = (Ret (result (streams w ! i), last_interval (streams w ! i)),
    w\<lparr>out := out w @ stream_lines p (interval w) i (streams w ! i)\<rparr>)"
proof -
  let ?rp = "result (streams w ! i)"
  let ?w = "w\<lparr>out := out w @ header_lines p i ?rp\<rparr>"
  have "with_stream i (go_gets result) w = (Ret ?rp, w)"
    using assms(2) by (simp add: with_stream_def go_simps)
  moreover have "print_header i ?rp w = (Ret (), ?w)" by (rule print_header_run [OF assms(1)])
  moreover have "print_line i ?rp (last (interval_results ?rp)) ?w =
      (Ret (), ?w\<lparr>out := out ?w @ [interval_line p (interval ?w) i ?rp (last (interval_results ?rp))]\<rparr>)"
    using assms(1) by (intro print_line_run) simp
  ultimately show ?thesis
    using assms(3)
    by (simp add: print_interval_def go_then_def go_bind_Ret go_return_def stream_lines_def last_interval_def)
qed

lemma print_intervals_run:
  assumes "proto w = Some p"
    and "\<forall>i \<in> set is. i < length (streams w) \<and> interval_results (result (streams w ! i)) \<noteq> []"
  shows "go_collect print_interval is w =
    (Ret (map (\<lambda>i. (result (streams w ! i), last_interval (streams w ! i))) is),
     w\<lparr>out := out w @ concat (map (\<lambda>i. stream_lines p (interval w) i (streams w ! i)) is)\<rparr>)"
  using assms
proof (induction "is" arbitrary: w)
  case (Cons i "is")
  let ?w = "w\<lparr>out := out w @ stream_lines p (interval w) i (streams w ! i)\<rparr>"
  have "print_interval i w = (Ret (result (streams w ! i), last_interval (streams w ! i)), ?w)"
    using Cons.prems by (intro print_interval_run) simp_all
  moreover have "proto ?w = Some p"
    "\<forall>i \<in> set is. i < length (streams ?w) \<and> interval_results (result (streams ?w ! i)) \<noteq> []"
    using Cons.prems by simp_all
  note Cons.IH [OF this]
  ultimately show ?case by (simp add: go_bind_Ret go_simps)
qed (simp add: go_simps)

definition has_intervals :: "iperf_stream \<Rightarrow> bool" where
  "has_intervals sp \<longleftrightarrow> interval_results (result sp) \<noteq> []"

definition intermediate_lines :: "protocol \<Rightarrow> world \<Rightarrow> out_ev list" where
  "intermediate_lines p w =
     concat (map (\<lambda>i. stream_lines p (interval w) i (streams w ! i)) [0..<length (streams w)])"

text \<open>The summary of several streams: the totals over their last intervals.\<close>

definition sum_of_last :: "(iperf_interval_results \<Rightarrow> u64) \<Rightarrow> world \<Rightarrow> u64" where
  "sum_of_last f w = sum_list (map (\<lambda>sp. f (last_interval sp)) (streams w))"

lemma sum_of_last_nth:
  "sum_list (map (\<lambda>i. f (last_interval (streams w ! i))) [0..<length (streams w)]) = sum_of_last f w"
proof -
  have "map (\<lambda>i. f (last_interval (streams w ! i))) [0..<length (streams w)] =
      map (\<lambda>sp. f (last_interval sp)) (streams w)"
    by (rule nth_equalityI) simp_all
  then show ?thesis by (simp only: sum_of_last_def)
qed

definition sum_lines :: "world \<Rightarrow> out_ev list" where
  "sum_lines w =
     (if 1 < streamNum w then
        (let rs = map (\<lambda>i. (result (streams w ! i), last_interval (streams w ! i))) [0..<length (streams w)] in
         [Printf REPORT_SUM_STREAM
           [AStr (clock_text (e_now (env w (ticks w)))), AFloat (fst (shown_times rs)),
            AFloat (snd (shown_times rs)), AFloat (in_MB (sum_of_last bytes_transfered w)),
            AFloat (displayBandwidth (in_MB (sum_of_last bytes_transfered w)) (interval w)),
            AFloat (f64_div (f64_div (f64_of_uint (sum_of_last rtt w)) (Fin 1000)) (f64_of_uint (streamNum w))),
            AInt (uint (sum_of_last interval_retrans w))],
          Printf REPORT_SEPERATOR []])
      else [])"

lemma iperfPrintIntermediate_run:
  assumes "proto w = Some p" "list_all has_intervals (streams w)"
  shows "iperfPrintIntermediate w = (Ret (),
    w\<lparr>ticks := (if 1 < streamNum w then Suc (ticks w) else ticks w),
      out := out w @ intermediate_lines p w @ sum_lines w\<rparr>)"
proof -
  have "\<forall>i \<in> set [0..<length (streams w)]. i < length (streams w) \<and> interval_results (result (streams w ! i)) \<noteq> []"
    using assms(2) by (auto simp: list_all_length has_intervals_def)
  from print_intervals_run [OF assms(1) this]
  have r: "go_collect print_interval [0..<length (streams w)] w =
      (Ret (map (\<lambda>i. (result (streams w ! i), last_interval (streams w ! i))) [0..<length (streams w)]),
       w\<lparr>out := out w @ intermediate_lines p w\<rparr>)"
    by (simp add: intermediate_lines_def)
  show ?thesis
  proof (cases "1 < streamNum w")
    case False
    with r show ?thesis
      by (simp add: iperfPrintIntermediate_def go_simps go_bind_Ret sum_lines_def)
  next
    case True
    with r show ?thesis
      by (simp add: iperfPrintIntermediate_def go_simps go_bind_Ret Let_def comp_def sum_of_last_nth sum_lines_def)
  qed
qed

section \<open>The final report, line by line\<close>

definition stream_role :: "iperf_stream \<Rightarrow> string" where
  "stream_role sp = (if role sp = SENDER_STREAM then ''SENDER'' else ''RECEIVER'')"

definition result_lines :: "protocol \<Rightarrow> bool \<Rightarrow> uint \<Rightarrow> nat \<Rightarrow> iperf_stream \<Rightarrow> out_ev list" where
  "result_lines p m dur i sp =
     (let rp = result sp in
      if p = TCPProto then
        [Printf TCP_REPORT_SINGLE_RESULT (result_args i m dur rp @ tcp_rates m rp @ [AStr (stream_role sp)])]
      else
        [Printf RUDP_REPORT_SINGLE_RESULT (result_args i m dur rp @ rudp_rates rp @ [AStr (stream_role sp)]),
         Printf TOTALS_LINE (total_args rp)])"

definition total_line :: "world \<Rightarrow> out_ev list" where
  "total_line w =
     (if 1 < streamNum w then
        (let rs = map result (streams w); mb = in_MB (sum_list (map (transferred (mode w)) rs)) in
         [Printf REPORT_SUM_STREAM
           [AStr (clock_text (e_now (env w (ticks w)))), AFloat (Fin 0), AFloat (elapsed (last rs)),
            AFloat mb, AFloat (displayBandwidth mb (duration w)),
            AFloat (f64_div (foldl (\<lambda>a rp. f64_add a (mean_rtt rp)) (Fin 0) rs) (f64_of_uint (streamNum w))),
            AInt (uint (sum_list (map stream_retrans rs)))]])
      else [])"

definition final_lines :: "protocol \<Rightarrow> world \<Rightarrow> out_ev list" where
  "final_lines p w =
     concat (map (\<lambda>i. result_lines p (mode w) (duration w) i (streams w ! i)) [0..<length (streams w)])"

lemma print_result_run:
  assumes "proto w = Some p" "i < length (streams w)"
  shows "print_result i w = (Ret (result (streams w ! i)),
    w\<lparr>out := out w @ result_lines p (mode w) (duration w) i (streams w ! i)\<rparr>)"
proof (cases "p = TCPProto")
  case True
  with assms show ?thesis
    by (simp add: print_result_def with_stream_def go_simps go_bind_Ret Let_def result_lines_def stream_role_def)
next
  case False
  with assms show ?thesis
    by (simp add: print_result_def with_stream_def go_simps go_bind_Ret Let_def result_lines_def stream_role_def)
qed

lemma print_results_run:
  assumes "proto w = Some p" "\<forall>i \<in> set is. i < length (streams w)"
  shows "go_collect print_result is w = (Ret (map (\<lambda>i. result (streams w ! i)) is),
    w\<lparr>out := out w @ concat (map (\<lambda>i. result_lines p (mode w) (duration w) i (streams w ! i)) is)\<rparr>)"
  using assms
proof (induction "is" arbitrary: w)
  case (Cons i "is")
  let ?w = "w\<lparr>out := out w @ result_lines p (mode w) (duration w) i (streams w ! i)\<rparr>"
  have "print_result i w = (Ret (result (streams w ! i)), ?w)"
    using Cons.prems by (intro print_result_run) simp_all
  moreover have "proto ?w = Some p" "\<forall>i \<in> set is. i < length (streams ?w)"
    using Cons.prems by simp_all
  note Cons.IH [OF this]
  ultimately show ?case by (simp add: go_bind_Ret go_simps)
qed (simp add: go_simps)

lemma map_result_nth: "map (\<lambda>i. result (streams w ! i)) [0..<length (streams w)] = map result (streams w)"
  by (rule nth_equalityI) simp_all

lemma iperfPrintResults_run:
  assumes p: "proto w = Some p" and s: "streams w \<noteq> []"
  shows "iperfPrintResults w = (Ret (),
    w\<lparr>ticks := (if 1 < streamNum w then Suc (ticks w) else ticks w),
      out := out w @ [Printf SUMMARY_SEPERATOR [],
        Printf (if p = TCPProto then TCP_RESULT_HEADER else RUDP_RESULT_HEADER) []] @
        final_lines p w @ total_line w\<rparr>)"
proof -
  let ?w = "w\<lparr>out := out w @ [Printf SUMMARY_SEPERATOR [],
    Printf (if p = TCPProto then TCP_RESULT_HEADER else RUDP_RESULT_HEADER) []]\<rparr>"
  have "proto ?w = Some p" "\<forall>i \<in> set [0..<length (streams ?w)]. i < length (streams ?w)"
    using p by simp_all
  from print_results_run [OF this]
  have r: "go_collect print_result [0..<length (streams w)] ?w =
      (Ret (map result (streams w)), ?w\<lparr>out := out ?w @ final_lines p w\<rparr>)"
    using map_result_nth [of w] by (simp add: final_lines_def)
  have ne: "[0..<length (streams w)] \<noteq> []" using s by simp
  show ?thesis
  proof (cases "1 < streamNum w")
    case False
    with p ne r show ?thesis
      by (simp add: iperfPrintResults_def go_simps go_bind_Ret total_line_def)
  next
    case True
    with p ne r show ?thesis
      by (simp add: iperfPrintResults_def go_simps go_bind_Ret Let_def total_line_def)
  qed
qed

section \<open>The callback after the statistics\<close>

lemma reporter_running:
  assumes "proto w = Some p" "chStats w = b # q" "state w = TEST_RUNNING" "list_all has_intervals (streams w)"
  shows "iperfReporterCallback w = (Ret (),
    w\<lparr>chStats := q, ticks := (if 1 < streamNum w then Suc (ticks w) else ticks w),
      out := out w @ intermediate_lines p w @ sum_lines w\<rparr>)"
  using assms iperfPrintIntermediate_run [of "w\<lparr>chStats := q\<rparr>" p]
  by (simp add: iperfReporterCallback_def go_simps go_bind_Ret intermediate_lines_def sum_lines_def
      sum_of_last_def)

lemma closed_has_intervals:
  "list_all2 (interval_closed m) sps ss \<Longrightarrow> list_all has_intervals ss"
  by (induction rule: list_all2_induct) (auto simp: interval_closed_def has_intervals_def Let_def)

lemma closed_last_bytes:
  "list_all2 (interval_closed m) sps ss \<Longrightarrow>
   map (\<lambda>sp. bytes_transfered (last_interval sp)) ss =
     map (\<lambda>sp. if m then bytes_sent_this_interval (result sp) else bytes_received_this_interval (result sp)) sps"
  by (induction rule: list_all2_induct) (auto simp: interval_closed_def last_interval_def Let_def)

text \<open>
  C20: While a test runs, the statistics callback followed by the reporter callback prints one
  line for the new interval of every stream (after a header when it is the first) and, with
  several streams, a summary line and a separator; the bytes of the summary are those moved
  since the last interval, over all streams. The reporter consumes the token of the
  statistics and changes nothing but the output.
\<close>

theorem report_shows_interval:
  assumes "proto w = Some p" "chStats w = []" "state w = TEST_RUNNING"
  shows "\<exists>v t. iperfStatsCallback w = (Ret (), v) \<and>
    iperfReporterCallback v = (Ret (), v\<lparr>chStats := [], ticks := t,
      out := out v @ intermediate_lines p v @ sum_lines v\<rparr>) \<and>
    sum_of_last bytes_transfered v = sum_list (map (\<lambda>sp. if mode w
      then bytes_sent_this_interval (result sp) else bytes_received_this_interval (result sp)) (streams w))"
proof -
  from iperfStatsCallback_run [OF assms(1)] assms(2) obtain ss t os where
    ss: "list_all2 (interval_closed (mode w)) (streams w) ss"
    and run: "iperfStatsCallback w = (Ret (), w\<lparr>streams := ss, ticks := t, out := os, chStats := [True]\<rparr>)"
    by (auto simp: Let_def)
  let ?v = "w\<lparr>streams := ss, ticks := t, out := os, chStats := [True]\<rparr>"
  have "proto ?v = Some p" "chStats ?v = True # []" "state ?v = TEST_RUNNING" "list_all has_intervals (streams ?v)"
    using assms closed_has_intervals [OF ss] by simp_all
  note rep = reporter_running [OF this]
  have "sum_of_last bytes_transfered ?v = sum_list (map (\<lambda>sp. if mode w
      then bytes_sent_this_interval (result sp) else bytes_received_this_interval (result sp)) (streams w))"
    using closed_last_bytes [OF ss] by (simp add: sum_of_last_def)
  with run rep show ?thesis by blast
qed


text \<open>
  The reporter callback never reports before the statistics: without a token it waits and
  changes nothing.
\<close>

theorem reporter_waits_for_stats:
  assumes "chStats w = []"
  shows "iperfReporterCallback w = (Blocked, w)"
  using assms by (simp add: iperfReporterCallback_def go_simps go_bind_Blocked)

text \<open>
  Two start times are taken to differ when they are at least 101 milliseconds apart, and
  never when they are at most 100 milliseconds apart. (The comment in the source speaks of one
  millisecond.)
\<close>

theorem durNotSame_threshold:
  assumes "0 \<le> d" "0 \<le> d2"
  shows "(\<bar>d - d2\<bar> \<le> 100000000 \<longrightarrow> \<not> durNotSame d d2) \<and> (101000000 \<le> \<bar>d - d2\<bar> \<longrightarrow> durNotSame d d2)"
proof -
  have q: "quot x 1000000 = x div 1000000" if "0 \<le> x" for x
    using that by (cases "x = 0") (simp_all add: quot_def sgn_if)
  have fl: "1000000 * (x div 1000000) \<le> x \<and> x < 1000000 * (x div 1000000) + 1000000" for x :: int
    using div_mult_mod_eq [of x 1000000] pos_mod_bound [of 1000000 x] pos_mod_sign [of 1000000 x]
    by linarith
  show ?thesis
    unfolding durNotSame_def Let_def q [OF assms(1)] q [OF assms(2)]
    using fl [of d] fl [of d2] by linarith
qed

section \<open>The properties on a small test\<close>

theorem report_shows_interval_witness:
  "\<exists>v. iperfStatsCallback (small_sent\<lparr>state := TEST_RUNNING\<rparr>) = (Ret (), v) \<and>
     sum_of_last bytes_transfered v = 8"
proof -
  let ?w = "small_sent\<lparr>state := TEST_RUNNING\<rparr>"
  have "proto ?w = Some TCPProto" "chStats ?w = []" by code_simp+
  moreover have "sum_list (map (\<lambda>sp. if mode ?w then bytes_sent_this_interval (result sp)
      else bytes_received_this_interval (result sp)) (streams ?w)) = 8" by code_simp
  ultimately show ?thesis
    using report_shows_interval [of ?w TCPProto] by auto
qed


theorem reporter_waits_for_stats_witness:
  "iperfReporterCallback small_test = (Blocked, small_test)"
  by (rule reporter_waits_for_stats) (simp add: small_test_def NewIperfTest_def)

theorem durNotSame_threshold_witness: "\<not> durNotSame 0 50000000 \<and> durNotSame 0 2000000000"
  using durNotSame_threshold [of 0 50000000] durNotSame_threshold [of 0 2000000000] by simp

text \<open>Two streams that sent a mebibyte each in a test of eight seconds.\<close>

definition mib_stream :: iperf_stream where
  "mib_stream = (small_stream SENDER_STREAM)\<lparr>result := zero_results\<lparr>bytes_sent := 1048576\<rparr>\<rparr>"

definition mib_test :: world where
  "mib_test = small_test\<lparr>duration := 8, streams := [mib_stream, mib_stream]\<rparr>"

lemma mib_in_MB: "in_MB 1048576 = Fin 1" "in_MB 2097152 = Fin 2"
  by (simp_all add: in_MB_def MB_TO_B_def f64_of_uint_exact)

lemma mib_eighths: "round53 (1 / 8) = 1 / 8" "round53 (1 / 4) = 1 / 4"
  using round53_exact [of "1 / 8" 1 "- 3"] round53_exact [of "1 / 4" 1 "- 2"]
  by (simp_all add: power_int_minus)


end
