(* ===== verification/Client.thy ===== *)
theory Client
  imports Exchange Report
begin

text \<open>
  The client, \<open>iperf_client.go\<close>. The goroutine \<open>handleClientCtrlMsg\<close> and the main loop of
  \<open>runClient\<close> are given by one pass of their loops; a pass yields the next loop state. The
  goroutines that \<open>runClient\<close> starts for the streams are part of the result of the pass.
\<close>

section \<open>Streams and timers\<close>

text \<open>A connection, from dialling or accepting, becomes a stream of the test.\<close>

definition add_stream :: "(conn option, world) go \<Rightarrow> (int option, world) go" where
  "add_stream get_conn =
     go_bind get_conn (\<lambda>r.
     case r of
       None \<Rightarrow> go_return (Some (- 1))
     | Some c \<Rightarrow>
         go_bind (go_gets mode) (\<lambda>m.
         go_bind (newStream c (if m = IPERF_SENDER then SENDER_STREAM else RECEIVER_STREAM)) (\<lambda>sp.
         go_then (go_modify (\<lambda>w. w\<lparr>streams := streams w @ [sp]\<rparr>)) (go_return None))))"

definition add_streams :: "(conn option, world) go \<Rightarrow> (int, world) go" where
  "add_streams get_conn =
     go_bind (go_gets (\<lambda>w. [0..<unat (streamNum w)])) (\<lambda>is.
     go_bind (go_each (\<lambda>i. add_stream get_conn) is) (or_else 0))"

definition createStreams :: "(int, world) go" where
  "createStreams = add_streams (via_proto proto_connect)"

text \<open>\<open>duration * 1000 / interval\<close> panics when the interval is 0.\<close>

definition report_times :: "(uint, world) go" where
  "report_times =
     go_bind (go_gets (\<lambda>w. (duration w, interval w))) (\<lambda>(d, i).
     if i = 0 then go_panic DivideByZero else go_return (d * 1000 div i))"

definition createClientTimer :: "(int, world) go" where
  "createClientTimer =
     go_bind time_Now (\<lambda>now.
     go_bind (go_gets duration) (\<lambda>d.
     go_bind (timerCreate now ClientTimer (d * 1000)) (\<lambda>t.
     go_then (go_modify (\<lambda>w. w\<lparr>timer := t\<rparr>)) (
     go_bind report_times (\<lambda>times.
     go_bind (go_gets interval) (\<lambda>ival.
     go_bind (tickerCreate ClientStats ival (times - 1)) (\<lambda>t1.
     go_then (go_modify (\<lambda>w. w\<lparr>statsTicker := t1\<rparr>)) (
     go_bind (tickerCreate ClientReport ival (times - 1)) (\<lambda>t2.
     go_then (go_modify (\<lambda>w. w\<lparr>reportTicker := t2\<rparr>)) (
     go_return 0))))))))))"

definition clientTimerProc :: "(unit, world) go" where
  "clientTimerProc =
     go_bind (go_gets timer) (\<lambda>t.
     go_then (timer_signal t) (
     go_then (go_modify (\<lambda>w. w\<lparr>done' := True\<rparr>))
       (go_modify (\<lambda>w. w\<lparr>timer := (timer w)\<lparr>it_timer := None\<rparr>\<rparr>))))"

text \<open>The callbacks of a test, if they are set.\<close>

definition call_stats :: "(unit, world) go" where
  "call_stats = go_bind (go_gets statsCallback) (\<lambda>cb. if cb then iperfStatsCallback else go_return ())"

definition call_reporter :: "(unit, world) go" where
  "call_reporter = go_bind (go_gets reporterCallback) (\<lambda>cb. if cb then iperfReporterCallback else go_return ())"

definition clientStatsTickerProc :: "(unit, world) go" where
  "clientStatsTickerProc = go_bind (go_gets done') (\<lambda>d. if d then go_return () else call_stats)"

definition clientReportTickerProc :: "(unit, world) go" where
  "clientReportTickerProc = go_bind (go_gets done') (\<lambda>d. if d then go_return () else call_reporter)"

definition sendTickerProc :: "nat \<Rightarrow> (unit, world) go" where
  "sendTickerProc i = go_bind time_Now (checkThrottle i)"

text \<open>The functions the client gives to its timers.\<close>

fun client_timer :: "timer_proc \<Rightarrow> (unit, world) go" where
  "client_timer ClientTimer = clientTimerProc"
| "client_timer ClientStats = clientStatsTickerProc"
| "client_timer ClientReport = clientReportTickerProc"
| "client_timer (SendTick i) = sendTickerProc i"
| "client_timer _ = go_return ()"

section \<open>The end of a test\<close>

definition clientEnd :: "(unit, world) go" where
  "clientEnd =
     go_bind (each_stream (\<lambda>i.
       go_bind (with_stream i (on_conn conn_close)) (\<lambda>err.
       go_return (if err then Some () else None)))) (\<lambda>r.
     if r \<noteq> None then go_return () else
     go_then call_reporter (
     go_bind (via_proto proto_teardown) (\<lambda>_.
     go_bind (setSendState IPERF_DONE) (\<lambda>_.
     go_bind (go_gets ctrlConn) (\<lambda>c.
     if c = None then go_return () else
     go_bind (ctrl_conn conn_close) (\<lambda>err.
     if err then go_return () else ctrl_send IPERF_DONE))))))"

section \<open>The control connection\<close>

text \<open>
  One \<open>Read\<close> into the four bytes of \<open>buf\<close>, which keep their old values where nothing was
  read; \<open>None\<close> is an error.
\<close>

definition read_state :: "u8 list \<Rightarrow> ((u8 list \<times> uint) option, world) go" where
  "read_state buf =
     go_bind (ctrl_conn (conn_read 4)) (\<lambda>(n, err, bs).
     if err \<noteq> None then go_return None else
     (let buf' = bs @ drop (length bs) buf in
      case Uint32 buf' of
        None \<Rightarrow> go_panic IndexOutOfRange
      | Some st \<Rightarrow>
          go_then (go_modify (\<lambda>w. w\<lparr>state := ucast st\<rparr>)) (go_return (Some (buf', ucast st)))))"

text \<open>The step after a failure: \<open>IPERF_DONE\<close> goes to the main loop and the goroutine returns.\<close>

definition give_up :: "int \<Rightarrow> (bool, world) go" where
  "give_up r = (if r < 0 then go_then (ctrl_send IPERF_DONE) (go_return False) else go_return True)"

text \<open>\<open>switch test.state\<close>; \<open>False\<close> when the goroutine returns.\<close>

definition client_dispatch :: "uint \<Rightarrow> (bool, world) go" where
  "client_dispatch st =
     (if st = IPERF_EXCHANGE_PARAMS then go_bind exchangeParams give_up
      else if st = IPERF_CREATE_STREAM then go_bind createStreams give_up
      else if st = TEST_START then
        go_bind initTest (\<lambda>r1.
        if r1 < 0 then give_up r1 else
        go_bind createClientTimer (\<lambda>r2.
        if r2 < 0 then give_up r2 else
        go_bind (go_gets mode) (\<lambda>m.
        if m = IPERF_SENDER then go_bind createSenderTicker give_up else go_return True)))
      else if st = TEST_RUNNING then go_then (ctrl_send TEST_RUNNING) (go_return True)
      else if st = IPERF_EXCHANGE_RESULT then go_bind exchangeResults give_up
      else if st = IPERF_DISPLAY_RESULT then go_then clientEnd (go_return True)
      else if st = IPERF_DONE then go_then (ctrl_send IPERF_DONE) (go_return False)
      else if st = SERVER_TERMINATE then
        go_bind (go_gets state) (\<lambda>oldState.
        go_then (go_modify (\<lambda>w. w\<lparr>state := IPERF_DISPLAY_RESULT\<rparr>)) (
        go_bind (go_gets reporterCallback) (\<lambda>cb.
        go_then (if cb then iperfReporterCallback else go_panic NilDeref) (
        go_then (go_modify (\<lambda>w. w\<lparr>state := oldState\<rparr>)) (go_return True)))))
      else go_then (ctrl_send IPERF_DONE) (go_return False))"

text \<open>One turn of the loop: \<open>Some\<close> of the buffer to go on, \<open>None\<close> when the goroutine returns.\<close>

definition handleClientCtrlMsg :: "u8 list \<Rightarrow> (u8 list option, world) go" where
  "handleClientCtrlMsg buf =
     go_bind (go_gets state) (\<lambda>st0.
     if st0 = IPERF_DONE then go_then (ctrl_send IPERF_DONE) (go_return None) else
     go_bind (read_state buf) (\<lambda>r.
     case r of
       None \<Rightarrow>
         go_bind (ctrl_conn conn_close) (\<lambda>_.
         go_then (ctrl_send IPERF_DONE) (go_return None))
     | Some (buf', st) \<Rightarrow>
         go_bind (client_dispatch st) (\<lambda>more.
         go_return (if more then Some buf' else None))))"

section \<open>The main loop\<close>

definition ConnectServer :: "(int, world) go" where
  "ConnectServer =
     go_bind foreign_call (\<lambda>resolve_err.
     if resolve_err then go_return (- 1) else
     go_bind dial (\<lambda>r.
     case r of
       None \<Rightarrow> go_return (- 1)
     | Some c \<Rightarrow>
         go_then (go_modify (\<lambda>w. w\<lparr>ctrlConn := Some c\<rparr>)) (
         go_bind (go_gets (\<lambda>w. addr w @ '':'' @ Itoa (sint (port w)))) (\<lambda>a.
         go_then (go_Printf ''Connect to server %v succeed.\<newline>'' [AStr a]) (go_return 0)))))"

text \<open>
  What a turn of the main loop leads to: the next turn with the count of \<open>TEST_END\<close> signals
  and the goroutines to start (a stream and whether it sends), or the return of \<open>runClient\<close>.
\<close>

datatype main_next = MainNext uint "(nat \<times> bool) list" | MainReturn int

definition stream_goroutines :: "world \<Rightarrow> (nat \<times> bool) list" where
  "stream_goroutines w = map (\<lambda>(i, sp). (i, role sp = SENDER_STREAM)) (enumerate 0 (streams w))"

definition runClient_turn :: "uint \<Rightarrow> (main_next, world) go" where
  "runClient_turn testEndNum =
     go_bind ctrl_recv (\<lambda>st.
     if st = TEST_RUNNING then
       go_bind (go_gets stream_goroutines) (\<lambda>gs. go_return (MainNext testEndNum gs))
     else if st = TEST_END then
       (let n = testEndNum + 1 in
        go_bind (go_gets streamNum) (\<lambda>num.
        if n < num \<or> n = num + 1 then go_return (MainNext n [])
        else if num + 1 < n then go_return (MainReturn (- 1))
        else
          go_then (go_modify (\<lambda>w. w\<lparr>done' := True\<rparr>)) (
          go_then call_stats (
          go_bind (setSendState TEST_END) (\<lambda>r.
          if r < 0 then go_return (MainReturn (- 1)) else go_return (MainNext n []))))))
     else if st = IPERF_DONE then go_return (MainReturn 0)
     else go_return (MainNext testEndNum []))"

section \<open>Starting a test\<close>

text \<open>What the preparation of the sessions does not touch.\<close>

definition untouched :: "world \<Rightarrow> world \<Rightarrow> bool" where
  "untouched u w \<longleftrightarrow> mode w = mode u \<and> proto w = proto u \<and>
     map result (streams w) = map result (streams u) \<and> map role (streams w) = map role (streams u) \<and>
     bytesSent w = bytesSent u \<and> bytesReceived w = bytesReceived u \<and> ctrlChan w = ctrlChan u"

lemma map_update_same: "i < length xs \<Longrightarrow> f y = f (xs ! i) \<Longrightarrow> map f (xs[i := y]) = map f xs"
  by (metis list_update_id map_update)

lemma keeps_untouched_env [keeps_intros]: "keeps (untouched u) env_next"
  by (rule keepsI) (simp add: untouched_def env_next_def)

lemma keeps_untouched_now [keeps_intros]: "keeps (untouched u) time_Now"
  unfolding time_Now_def by (intro keeps_intros)

lemma keeps_untouched_foreign [keeps_intros]: "keeps (untouched u) foreign_call"
  unfolding foreign_call_def by (intro keeps_intros)

lemma keeps_untouched_opt [keeps_intros]: "keeps (untouched u) (set_opt i opt)"
  unfolding set_opt_def
proof (rule keeps_with_stream)
  fix w r sp
  assume u: "untouched u w" and i: "i < length (streams w)"
    and c: "on_conn (go_modify (\<lambda>c. c\<lparr>c_opts := c_opts c @ [opt]\<rparr>)) (streams w ! i) = (r, sp)"
  have "map result ((streams w)[i := sp]) = map result (streams w)"
    "map role ((streams w)[i := sp]) = map role (streams w)"
    using on_conn_result [OF c] i by (simp_all add: map_update_same)
  with u show "untouched u (w\<lparr>streams := (streams w)[i := sp]\<rparr>)"
    by (simp add: untouched_def)
qed

lemma keeps_untouched_try [keeps_intros]: "keeps (untouched u) (try_opt i opt)"
  unfolding try_opt_def by (intro keeps_intros)

lemma keeps_or_else [keeps_intros]: "keeps I (or_else v r)"
  unfolding or_else_def by (intro keeps_intros)

lemma keeps_untouched_init: "keeps (untouched u) (proto_init p)"
proof (cases p)
  case TCPProto
  then show ?thesis by (auto simp: tcp_init_def intro!: keeps_intros)
next
  case rudpProto
  then show ?thesis by (auto simp: rudp_init_def split: prod.splits intro!: keeps_intros)
next
  case kcpProto
  then show ?thesis by (auto simp: kcp_init_def split: prod.splits intro!: keeps_intros)
qed

lemma initTest_run:
  assumes p: "proto w = Some p" and r: "initTest w = (Ret r, w')"
  shows "\<exists>v now. untouched w v \<and> w' = v\<lparr>streams := map (set_start now) (streams v)\<rparr> \<and> r = 0"
proof -
  obtain res v where i: "proto_init p w = (res, v)" by force
  have "untouched w w" by (simp add: untouched_def)
  then have v: "untouched w v" using keeps_run [OF keeps_untouched_init _ i] by blast
  have vp: "via_proto proto_init w = (res, v)" using p i by (simp add: go_simps)
  with r obtain n where "res = Ret n"
    by (cases res) (auto simp: initTest_def go_bind_def)
  with r vp have "(Ret r, w') = (Ret 0, (v\<lparr>ticks := Suc (ticks v)\<rparr>)
      \<lparr>streams := map (set_start (e_now (env v (ticks v)))) (streams v)\<rparr>)"
    by (simp add: initTest_def go_bind_Ret go_simps each_modify or_else_def)
  then show ?thesis using v
    by (intro exI [of _ "v\<lparr>ticks := Suc (ticks v)\<rparr>"]) (auto simp: untouched_def)
qed

lemma fresh_after_init:
  assumes "untouched w v" "w' = v\<lparr>streams := map (set_start now) (streams v)\<rparr>"
    and "proto w = Some p" "list_all (\<lambda>sp. result sp = zero_results) (streams w)"
    and "bytesSent w = 0" "bytesReceived w = 0"
  shows "fresh_test (mode w) w' \<and> ctrlChan w' = ctrlChan w \<and> proto w' = Some p \<and>
    map role (streams w') = map role (streams w)"
proof -
  have "set (map result (streams v)) \<subseteq> {zero_results}"
    using assms by (auto simp: untouched_def list_all_iff)
  then have "list_all (\<lambda>sp. result sp = zero_results) (streams v)"
    by (auto simp: list_all_iff)
  then have "list_all fresh_stream (map (set_start now) (streams v))"
    by (auto simp: list_all_iff fresh_stream_def set_start_def)
  moreover have "map role (map (set_start now) (streams v)) = map role (streams v)"
    by (simp add: set_start_def)
  ultimately show ?thesis
    using assms by (auto simp: fresh_test_def untouched_def simp del: map_map)
qed


section \<open>Creating the streams\<close>

definition env_closed :: "(world \<Rightarrow> bool) \<Rightarrow> bool" where
  "env_closed I \<longleftrightarrow> (\<forall>w n. I w \<longrightarrow> I (w\<lparr>ticks := n\<rparr>))"

lemma keeps_env_closed:
  assumes "env_closed I"
  shows "keeps I env_next" "keeps I time_Now" "keeps I foreign_call" "keeps I dial"
proof -
  show e: "keeps I env_next" using assms by (intro keepsI) (simp add: env_closed_def env_next_def)
  show "keeps I time_Now" unfolding time_Now_def by (intro keeps_intros e)
  show "keeps I foreign_call" unfolding foreign_call_def by (intro keeps_intros e)
  show "keeps I dial" unfolding dial_def
    by (intro keeps_intros e) (auto split: conn_res.split intro: keeps_intros)
qed

lemma keeps_connect:
  assumes "env_closed I"
  shows "keeps I (proto_connect p)"
proof (cases p)
  case TCPProto
  then show ?thesis by (auto simp: tcp_connect_def intro!: keeps_intros keeps_env_closed [OF assms])
next
  case rudpProto
  then show ?thesis
    by (auto simp: rudp_connect_def split: prod.splits intro!: keeps_intros keeps_env_closed [OF assms])
next
  case kcpProto
  then show ?thesis
    by (auto simp: kcp_connect_def split: prod.splits intro!: keeps_intros keeps_env_closed [OF assms])
qed

text \<open>A stream as \<open>newStream\<close> makes it.\<close>

definition created :: "world \<Rightarrow> iperf_stream \<Rightarrow> bool" where
  "created w sp \<longleftrightarrow> result sp = zero_results \<and> \<not> canSend sp \<and>
     role sp = (if mode w = IPERF_SENDER then SENDER_STREAM else RECEIVER_STREAM) \<and>
     length (buffer sp) = unat (blksize (setting w)) \<and> proto w = Some (snd' sp) \<and> rcv sp = snd' sp"

definition same_setup :: "world \<Rightarrow> world \<Rightarrow> bool" where
  "same_setup w w' \<longleftrightarrow> mode w' = mode w \<and> proto w' = proto w \<and> setting w' = setting w \<and>
     streamNum w' = streamNum w \<and> bytesSent w' = bytesSent w \<and> bytesReceived w' = bytesReceived w \<and>
     ctrlChan w' = ctrlChan w"

lemma newStream_created:
  assumes "newStream c (if mode w = IPERF_SENDER then SENDER_STREAM else RECEIVER_STREAM) w = (Ret sp, w')"
  shows "w' = w \<and> created w sp"
proof (cases "proto w")
  case None
  with assms show ?thesis by (simp add: newStream_def go_simps)
next
  case (Some p)
  with assms show ?thesis
    by (cases "max_alloc < unat (blksize (setting w))")
      (auto simp: newStream_def go_simps created_def Let_def)
qed

lemma created_setup: "same_setup w w' \<Longrightarrow> created w' = created w"
  by (rule ext) (simp add: created_def same_setup_def)

text \<open>Getting the connection only asks the environment.\<close>

definition asks_env :: "('a, world) go \<Rightarrow> bool" where
  "asks_env m \<longleftrightarrow> (\<forall>I. env_closed I \<longrightarrow> keeps I m)"

lemma asks_env_connect: "asks_env (via_proto proto_connect)"
  unfolding asks_env_def via_proto_def by (auto intro!: keeps_intros keeps_connect)

lemma add_stream_shape:
  assumes m: "asks_env m" and run: "add_stream m w = (Ret r, w')"
  shows "same_setup w w' \<and> (case r of None \<Rightarrow> \<exists>sp. created w sp \<and> streams w' = streams w @ [sp]
    | Some v \<Rightarrow> v = - 1 \<and> streams w' = streams w)"
proof -
  obtain res u where c: "m w = (res, u)" by force
  let ?I = "\<lambda>x. same_setup w x \<and> streams x = streams w"
  have I: "env_closed ?I" by (simp add: env_closed_def same_setup_def)
  have k: "keeps ?I m" using m I unfolding asks_env_def by blast
  have "?I w" by (simp add: same_setup_def)
  from keeps_run [OF k this c] have u: "?I u" .
  obtain cr where res: "res = Ret cr"
    using run c by (cases res) (auto simp: add_stream_def go_bind_def)
  show ?thesis
  proof (cases cr)
    case None
    with run c res u show ?thesis by (auto simp: add_stream_def go_bind_Ret go_simps)
  next
    case (Some c')
    obtain ns x where n: "newStream c' (if mode u = IPERF_SENDER then SENDER_STREAM else RECEIVER_STREAM) u = (ns, x)"
      by force
    with run c res Some obtain sp where sp: "ns = Ret sp"
      by (cases ns) (auto simp: add_stream_def go_bind_Ret go_simps go_bind_def)
    with newStream_created n have x: "x = u" "created u sp" by auto
    with run c res Some n sp have "(Ret r, w') = (Ret None, u\<lparr>streams := streams u @ [sp]\<rparr>)"
      by (simp add: add_stream_def go_bind_Ret go_simps)
    with u x created_setup [of w u] show ?thesis by (auto simp: same_setup_def)
  qed
qed

lemma add_loop:
  assumes "asks_env m" "go_each (\<lambda>i. add_stream m) is w = (Ret x, w')"
  shows "same_setup w w' \<and> (case x of
      None \<Rightarrow> \<exists>new. streams w' = streams w @ new \<and> length new = length is \<and> list_all (created w) new
    | Some v \<Rightarrow> v = - 1)"
  using assms(2)
proof (induction "is" arbitrary: w)
  case Nil
  then show ?case by (simp add: go_simps same_setup_def)
next
  case (Cons i "is")
  then obtain r u where one: "add_stream m w = (Ret r, u)"
    and rest: "(case r of Some v \<Rightarrow> go_return (Some v) | None \<Rightarrow> go_each (\<lambda>i. add_stream m) is) u = (Ret x, w')"
    by (auto simp: go_bind_eq_Ret)
  note shape = add_stream_shape [OF assms(1) one]
  show ?case
  proof (cases r)
    case (Some v)
    with rest shape show ?thesis by (auto simp: go_simps)
  next
    case None
    with shape obtain sp where
      sp: "same_setup w u" "created w sp" "streams u = streams w @ [sp]" by auto
    from Cons.IH rest None have ih: "same_setup u w' \<and> (case x of
        None \<Rightarrow> \<exists>new. streams w' = streams u @ new \<and> length new = length is \<and> list_all (created u) new
      | Some v \<Rightarrow> v = - 1)" by simp
    have "same_setup w w'" using sp(1) ih by (auto simp: same_setup_def)
    moreover have "\<exists>new. streams w' = streams w @ new \<and> length new = length (i # is) \<and> list_all (created w) new"
      if x: "x = None"
    proof -
      from ih x obtain new where "streams w' = streams u @ new" "length new = length is" "list_all (created u) new"
        by auto
      with sp created_setup [OF sp(1)] show ?thesis by (intro exI [of _ "sp # new"]) simp
    qed
    ultimately show ?thesis using ih by (auto split: option.splits)
  qed
qed

lemma add_streams_creates:
  assumes "asks_env m" "add_streams m w = (Ret r, w')" "0 \<le> r"
  shows "same_setup w w' \<and> (\<exists>new. streams w' = streams w @ new \<and> length new = unat (streamNum w) \<and>
    list_all (created w) new)"
proof -
  from assms(2) obtain x where each: "go_each (\<lambda>i. add_stream m) [0..<unat (streamNum w)] w = (Ret x, w')"
    and r: "r = (case x of Some v \<Rightarrow> v | None \<Rightarrow> 0)"
    by (auto simp: add_streams_def go_bind_eq_Ret go_simps or_else_def)
  from add_loop [OF assms(1) each] r assms(3) show ?thesis by (cases x) auto
qed

text \<open>
  C23: When \<open>createStreams\<close> succeeds, it has added exactly \<open>streamNum\<close> streams to the test; each
  has the role of the test's direction, a buffer of the configured block size, empty results,
  and sends and receives with the test's protocol; nothing else of the setup has changed.
\<close>

theorem createStreams_creates:
  assumes "createStreams w = (Ret r, w')" "0 \<le> r"
  shows "same_setup w w' \<and> (\<exists>new. streams w' = streams w @ new \<and> length new = unat (streamNum w) \<and>
    list_all (created w) new)"
  using add_streams_creates [OF asks_env_connect assms(1) [unfolded createStreams_def] assms(2)] .

section \<open>The timers of the client\<close>

lemma new_timer_run: "new_timer ob w =
    (Ret \<lparr>it_timer = Some (length (timers w)), it_done = Some (length (timers w))\<rparr>, w\<lparr>timers := timers w @ [ob]\<rparr>)"
  by (simp add: new_timer_def Let_def)

definition new_oneshot :: "timer_proc \<Rightarrow> duration \<Rightarrow> timer_obj" where
  "new_oneshot pr d = \<lparr>o_proc = pr, o_periodic = False, o_period = d,
     o_armed = True, o_done = [], o_alive = True, o_cnt = 0, o_max = 0\<rparr>"

lemma timerCreate_run:
  "timerCreate now pr dur w =
    (Ret \<lparr>it_timer = Some (length (timers w)), it_done = Some (length (timers w))\<rparr>,
     w\<lparr>ticks := Suc (ticks w), timers := timers w @
       [new_oneshot pr (wrap64 (time_Sub (e_now (env w (ticks w))) now + duration_of dur Millisecond))]\<rparr>)"
  by (simp add: timerCreate_def go_simps go_bind_Ret new_timer_run new_oneshot_def)

definition new_ticker :: "timer_proc \<Rightarrow> uint \<Rightarrow> uint \<Rightarrow> timer_obj" where
  "new_ticker pr ival mx = \<lparr>o_proc = pr, o_periodic = True, o_period = uint ival * Millisecond,
     o_armed = True, o_done = [], o_alive = True, o_cnt = 0, o_max = mx\<rparr>"

lemma tickerCreate_run:
  assumes "ival \<noteq> 0" "uint ival \<le> 9223372036854"
  shows "tickerCreate pr ival mx w =
    (Ret \<lparr>it_timer = Some (length (timers w)), it_done = Some (length (timers w))\<rparr>,
     w\<lparr>timers := timers w @ [new_ticker pr ival mx]\<rparr>)"
proof -
  have d: "duration_of ival Millisecond = uint ival * Millisecond"
    by (rule duration_of_ms [OF assms(2)])
  have "0 < uint ival" using assms(1) uint_0_iff [of ival] uint_ge_0 [of ival] by linarith
  then have "\<not> duration_of ival Millisecond \<le> 0" unfolding d by simp
  then show ?thesis by (simp add: tickerCreate_def new_timer_run d new_ticker_def)
qed


section \<open>The control connection, byte by byte\<close>

lemma read_state_chunk:
  assumes "ctrlConn w = Some c" "\<not> c_closed c" "c_rd c = Chunk bs # r" "length bs \<le> 4"
    and "Uint32 (bs @ drop (length bs) buf) = Some st"
  shows "read_state buf w = (Ret (Some (bs @ drop (length bs) buf, ucast st)),
    w\<lparr>ctrlConn := Some (c\<lparr>c_rd := r\<rparr>), state := ucast st\<rparr>)"
  using assms by (simp add: read_state_def go_simps go_bind_Ret conn_read_chunk)

text \<open>A whole message.\<close>

lemma read_state_whole:
  assumes "ctrlConn w = Some c" "\<not> c_closed c" "c_rd c = Chunk (PutUint32 st) # r" "length buf = 4"
  shows "read_state buf w = (Ret (Some (PutUint32 st, ucast st)),
    w\<lparr>ctrlConn := Some (c\<lparr>c_rd := r\<rparr>), state := ucast st\<rparr>)"
  using read_state_chunk [of w c "PutUint32 st" r buf st] assms by simp


text \<open>
  When the control connection fails, the client closes it and its main loop is told to
  finish, so that \<open>runClient\<close> returns; the goroutine returns.
\<close>

theorem client_read_error:
  assumes "ctrlConn w = Some c" "\<not> c_closed c" "c_rd c = ReadRet n (Some e) # r"
    and "state w \<noteq> IPERF_DONE" "length (ctrlChan w) < 5"
  shows "handleClientCtrlMsg buf w = (Ret None,
    w\<lparr>ctrlConn := Some (c\<lparr>c_rd := r, c_closed := True\<rparr>), ctrlChan := ctrlChan w @ [IPERF_DONE]\<rparr>)"
  using assms
  by (simp add: handleClientCtrlMsg_def read_state_def go_simps go_bind_Ret conn_read_def conn_close_def)

section \<open>The properties on a small test\<close>

definition empty_test :: world where
  "empty_test = small_test\<lparr>streams := []\<rparr>"

definition filled_test :: world where
  "filled_test = snd (createStreams empty_test)"

lemma fst_Ret: "fst x = Ret a \<Longrightarrow> x = (Ret a, snd x)"
  by (cases x) simp

theorem createStreams_creates_witness:
  "createStreams empty_test = (Ret 0, filled_test) \<and> length (streams filled_test) = 2 \<and>
   list_all (created empty_test) (streams filled_test)"
proof -
  have "fst (createStreams empty_test) = Ret 0" by code_simp
  from fst_Ret [OF this] have r: "createStreams empty_test = (Ret 0, filled_test)"
    by (simp add: filled_test_def)
  have "streams empty_test = []" "unat (streamNum empty_test) = 2" by code_simp+
  with createStreams_creates [OF r] r show ?thesis by auto
qed



definition reading :: "read_ev list \<Rightarrow> world" where
  "reading evs = small_test\<lparr>ctrlConn := Some (quiet_conn\<lparr>c_rd := evs\<rparr>)\<rparr>"

lemma reading_simps:
  "ctrlConn (reading evs) = Some (quiet_conn\<lparr>c_rd := evs\<rparr>)" "\<not> c_closed (quiet_conn\<lparr>c_rd := evs\<rparr>)"
  "c_rd (quiet_conn\<lparr>c_rd := evs\<rparr>) = evs" "state (reading evs) \<noteq> IPERF_DONE" "length (ctrlChan (reading evs)) < 5"
  "ctrlChan (reading evs) = []"
  by (simp_all add: reading_def small_test_def NewIperfTest_def quiet_conn_def)


theorem client_read_error_witness:
  "ctrlChan (snd (handleClientCtrlMsg [0, 0, 0, 0] (reading [ReadRet 0 (Some OpError)]))) = [IPERF_DONE]"
  using client_read_error [OF reading_simps(1-5), of "[0, 0, 0, 0]"] reading_simps(6) by simp

end
