(* ===== verification/Server.thy ===== *)
theory Server
  imports Client
begin

text \<open>
  The server, \<open>iperf_server.go\<close>: the goroutine \<open>handleServerCtrlMsg\<close> by one turn of its loop,
  the timer functions, and \<open>runServer\<close> by the parts between its waits: the reset and
  acceptance of a connection, the setup of a test, and one turn of the loop \<open>ServerLoop\<close>.
\<close>

definition serverListen :: "(int, world) go" where
  "serverListen =
     go_bind foreign_call (\<lambda>err.
     if err then go_return (- 1) else
     go_bind new_listener (\<lambda>l.
     go_then (go_modify (\<lambda>w. w\<lparr>listener := Some l\<rparr>)) (
     go_bind (go_gets port) (\<lambda>p.
     go_then (go_Printf ''Server listening on %v\<newline>'' [AInt (uint p)]) (go_return 0)))))"

section \<open>Control messages\<close>

text \<open>The end of a turn: go on with the buffer, or return (closing the connection).\<close>

definition close_ctrl :: "(u8 list option, world) go" where
  "close_ctrl =
     go_bind (go_gets ctrlConn) (\<lambda>c.
     if c = None then go_return None else
     go_bind (ctrl_conn conn_close) (\<lambda>_. go_return None))"

text \<open>The reaction to \<open>TEST_END\<close>; \<open>False\<close> when the goroutine returns.\<close>

definition server_test_end :: "(bool, world) go" where
  "server_test_end =
     go_then (go_modify (\<lambda>w. w\<lparr>done' := True\<rparr>)) (
     go_then call_stats (
     go_bind closeAllStreams (\<lambda>_.
     go_bind (setSendState IPERF_EXCHANGE_RESULT) (\<lambda>r.
     if r < 0 then go_return False else
     go_bind exchangeResults (\<lambda>r.
     if r < 0 then go_return False else
     go_bind (setSendState IPERF_DISPLAY_RESULT) (\<lambda>r.
     if r < 0 then go_return False else
     go_then call_reporter (
     go_bind (setSendState IPERF_DONE) (\<lambda>r. go_return (0 \<le> r)))))))))"

definition stop_if :: "ITimer \<Rightarrow> (unit, world) go" where
  "stop_if t = (if it_timer t = None then go_return () else timer_Stop t)"

definition server_done :: "(bool, world) go" where
  "server_done =
     go_then (go_modify (\<lambda>w. w\<lparr>state := IPERF_DONE\<rparr>)) (
     go_bind (go_gets timer) (\<lambda>t. go_then (stop_if t) (
     go_bind (go_gets statsTicker) (\<lambda>t. go_then (stop_if t) (
     go_bind (go_gets reportTicker) (\<lambda>t. go_then (stop_if t) (
     go_bind (via_proto proto_teardown) (\<lambda>_.
     go_then (ctrl_send IPERF_DONE) (go_return False)))))))))"

definition client_terminated :: "(bool, world) go" where
  "client_terminated =
     go_bind (go_gets state) (\<lambda>oldState.
     go_then (go_modify (\<lambda>w. w\<lparr>state := IPERF_DISPLAY_RESULT\<rparr>)) (
     go_bind (go_gets reporterCallback) (\<lambda>cb.
     go_then (if cb then iperfReporterCallback else go_panic NilDeref) (
     go_then (go_modify (\<lambda>w. w\<lparr>state := oldState\<rparr>)) (
     go_bind closeAllStreams (\<lambda>_.
     go_then (go_modify (\<lambda>w. w\<lparr>state := IPERF_DONE\<rparr>)) (
     go_then (ctrl_send IPERF_DONE) (go_return False))))))))"

definition server_dispatch :: "uint \<Rightarrow> (bool, world) go" where
  "server_dispatch st =
     (if st = TEST_START then go_return True
      else if st = TEST_END then server_test_end
      else if st = IPERF_DONE then server_done
      else if st = CLIENT_TERMINATE then client_terminated
      else go_then (ctrl_send IPERF_DONE) (go_return False))"

text \<open>
  One turn of the loop: \<open>Some\<close> of the buffer to go on; on return the control connection is
  closed, and \<open>ctrlDone\<close> with it.
\<close>

definition handleServerCtrlMsg :: "u8 list \<Rightarrow> (u8 list option, world) go" where
  "handleServerCtrlMsg buf =
     go_bind (read_state buf) (\<lambda>r.
     case r of
       None \<Rightarrow> close_ctrl
     | Some (buf', st) \<Rightarrow>
         go_bind (server_dispatch st) (\<lambda>more.
         if more then go_return (Some buf') else close_ctrl))"

section \<open>Timers\<close>

definition createServerTimer :: "(int, world) go" where
  "createServerTimer =
     go_bind time_Now (\<lambda>now.
     go_bind (go_gets duration) (\<lambda>d.
     go_bind (timerCreate now ServerTimer ((d + 5) * 1000)) (\<lambda>t.
     go_then (go_modify (\<lambda>w. w\<lparr>timer := t\<rparr>)) (
     go_bind report_times (\<lambda>times.
     go_bind (go_gets interval) (\<lambda>ival.
     go_bind (tickerCreate ServerStats ival (times - 1)) (\<lambda>t1.
     go_then (go_modify (\<lambda>w. w\<lparr>statsTicker := t1\<rparr>)) (
     go_bind (tickerCreate ServerReport ival (times - 1)) (\<lambda>t2.
     go_then (go_modify (\<lambda>w. w\<lparr>reportTicker := t2\<rparr>)) (
     go_return 0))))))))))"

definition serverTimerProc :: "(unit, world) go" where
  "serverTimerProc =
     go_bind (go_gets done') (\<lambda>d.
     if d then go_return () else
     go_then (go_modify (\<lambda>w. w\<lparr>done' := True\<rparr>)) (
     go_bind (each_stream (\<lambda>i.
       go_bind (with_stream i (on_conn conn_close)) (\<lambda>err.
       go_return (if err then Some () else None)))) (\<lambda>r.
     if r \<noteq> None then go_return () else
     go_bind (go_gets timer) timer_signal)))"

definition serverStatsTickerProc :: "(unit, world) go" where
  "serverStatsTickerProc = go_bind (go_gets done') (\<lambda>d. if d then go_return () else call_stats)"

definition serverReportTickerProc :: "(unit, world) go" where
  "serverReportTickerProc = go_bind (go_gets done') (\<lambda>d. if d then go_return () else call_reporter)"

fun server_timer :: "timer_proc \<Rightarrow> (unit, world) go" where
  "server_timer ServerTimer = serverTimerProc"
| "server_timer ServerStats = serverStatsTickerProc"
| "server_timer ServerReport = serverReportTickerProc"
| "server_timer (SendTick i) = sendTickerProc i"
| "server_timer _ = go_return ()"

section \<open>Accepting a client\<close>

text \<open>The reset at the head of the main loop.\<close>

definition reset_test :: "world \<Rightarrow> world" where
  "reset_test w = w\<lparr>state := IPERF_START, done' := False, streams := [], bytesReceived := 0,
     blocksReceived := 0, bytesSent := 0, blocksSent := 0, ctrlChan := []\<rparr>"

text \<open>
  How a round of the main loop goes on after the setup: it starts over, it waits for
  \<open>ctrlDone\<close> before it starts over, it enters \<open>ServerLoop\<close> (with \<open>handleServerCtrlMsg\<close>
  running), or \<open>runServer\<close> returns.
\<close>

datatype round_next = StartOver | WaitCtrlDone | EnterLoop | ServerReturn int

definition close_and :: "'a \<Rightarrow> ('a, world) go" where
  "close_and x = go_bind (ctrl_conn conn_close) (\<lambda>_. go_return x)"

definition take_client :: "(round_next option, world) go" where
  "take_client =
     go_bind (go_gets listener) (\<lambda>l.
     go_bind (listener_Accept l) (\<lambda>r.
     case r of
       None \<Rightarrow> go_return (Some (ServerReturn (- 2)))
     | Some c \<Rightarrow>
         go_then (go_modify (\<lambda>w. w\<lparr>ctrlConn := Some c\<rparr>)) (
         go_then (go_Printf ''Accept connection from client: %v\<newline>'' [AStr (c_remote c)]) (
         go_bind (setSendState IPERF_EXCHANGE_PARAMS) (\<lambda>r.
         if r < 0 then close_and (Some StartOver) else
         go_bind exchangeParams (\<lambda>r.
         if r < 0 then close_and (Some StartOver) else go_return None))))))"

text \<open>The part that runs beside \<open>handleServerCtrlMsg\<close>.\<close>

definition open_streams :: "(round_next, world) go" where
  "open_streams =
     go_bind (go_gets isServer) (\<lambda>srv.
     go_bind (if srv then
         go_bind (via_proto proto_listen) (\<lambda>r.
         case r of
           None \<Rightarrow> close_and (Some WaitCtrlDone)
         | Some l \<Rightarrow> go_then (go_modify (\<lambda>w. w\<lparr>protoListener := l\<rparr>)) (go_return None))
       else go_return None) (\<lambda>r.
     case r of
       Some x \<Rightarrow> go_return x
     | None \<Rightarrow>
         go_bind (setSendState IPERF_CREATE_STREAM) (\<lambda>r.
         if r < 0 then close_and WaitCtrlDone else go_return EnterLoop)))"

section \<open>The loop of a test\<close>

definition acceptStreams :: "(int, world) go" where
  "acceptStreams = add_streams (via_proto proto_accept)"

text \<open>\<open>TEST_START\<close>, the initialisation, the timers, and \<open>TEST_RUNNING\<close>; negative on failure.\<close>

definition startTest :: "(int, world) go" where
  "startTest =
     go_bind (setSendState TEST_START) (\<lambda>r.
     if r \<noteq> 0 then go_return (- 1) else
     go_bind initTest (\<lambda>r.
     if r < 0 then go_return (- 1) else
     go_bind createServerTimer (\<lambda>r.
     if r < 0 then go_return (- 1) else
     go_bind (go_gets mode) (\<lambda>m.
     go_bind (if m = IPERF_SENDER then createSenderTicker else go_return 0) (\<lambda>r.
     if r < 0 then go_return (- 1) else
     go_bind (setSendState TEST_RUNNING) (\<lambda>r.
     if r \<noteq> 0 then go_return (- 1) else go_return 0))))))"

text \<open>
  One turn of \<open>ServerLoop\<close>: \<open>LoopNext\<close> with the goroutines it starts, or the end of the test,
  after \<open>ctrlDone\<close>.
\<close>

datatype loop_next = LoopNext "(nat \<times> bool) list" | LoopWaitDone

definition runServer_turn :: "(loop_next, world) go" where
  "runServer_turn =
     go_bind ctrl_recv (\<lambda>st.
     if st = IPERF_DONE then go_return LoopWaitDone
     else if st = IPERF_CREATE_STREAM then
       go_bind acceptStreams (\<lambda>r.
       if r < 0 then close_and LoopWaitDone else
       go_bind startTest (\<lambda>r.
       if r < 0 then close_and LoopWaitDone else go_return (LoopNext [])))
     else if st = TEST_RUNNING then
       go_bind (go_gets stream_goroutines) (\<lambda>gs. go_return (LoopNext gs))
     else go_return (LoopNext []))"

text \<open>After the loop: the listener of the protocol is closed unless it is the control listener.\<close>

definition close_listener :: "(unit, world) go" where
  "close_listener = go_modify (\<lambda>w.
     case protoListener w of
       None \<Rightarrow> w
     | Some l \<Rightarrow> if protoListener w = listener w then w
         else w\<lparr>listeners := (listeners w)[l := True]\<rparr>)"

section \<open>Setting up a test\<close>

lemma keeps_read_signal: "keeps I (read_signal c)"
  unfolding read_signal_def
  by (auto split: prod.splits outcome.splits intro!: keeps_intros)

lemma keeps_Accept:
  assumes "env_closed I" shows "keeps I (listener_Accept l)"
  unfolding listener_Accept_def
  by (auto split: option.splits conn_res.splits intro!: keeps_intros keeps_env_closed [OF assms])

lemma asks_env_accept: "asks_env (via_proto proto_accept)"
proof -
  have "keeps I (proto_accept p)" if "env_closed I" for I p
    by (cases p) (auto simp: tcp_accept_def rudp_accept_def kcp_accept_def
        intro!: keeps_intros keeps_Accept [OF that] keeps_read_signal)
  then show ?thesis unfolding asks_env_def via_proto_def by (auto intro!: keeps_intros)
qed

lemma setSendState_shape:
  assumes "setSendState st w = (Ret r, w')"
  shows "\<exists>c. w' = w\<lparr>state := st, ctrlChan := ctrlChan w @ [st], ctrlConn := c\<rparr> \<and> (r = 0 \<or> r = - 1)"
proof -
  have room: "length (ctrlChan w) < 5"
    using assms setSendState_full [of w st] by (cases "length (ctrlChan w) < 5") auto
  obtain c where c: "ctrlConn w = Some c"
    using assms room by (cases "ctrlConn w") (auto simp: setSendState_def go_simps go_bind_Panicked)
  obtain n e c' where wr: "conn_write (PutUint32 (ucast st)) c = (Ret (n, e), c')"
    using conn_write_returns [of "PutUint32 (ucast st)" c] by (metis prod.collapse)
  with assms room c show ?thesis
    by (cases e) (auto simp: setSendState_def go_simps go_bind_Ret)
qed

text \<open>What the timers and tickers of a test leave alone.\<close>

definition test_ready :: "bool \<Rightarrow> uint list \<Rightarrow> int list \<Rightarrow> world \<Rightarrow> bool" where
  "test_ready m q rs w \<longleftrightarrow> fresh_test m w \<and> ctrlChan w = q \<and> map role (streams w) = rs"

lemma test_ready_frame:
  "test_ready m q rs w \<Longrightarrow> mode w' = mode w \<Longrightarrow> proto w' = proto w \<Longrightarrow> streams w' = streams w \<Longrightarrow>
   bytesSent w' = bytesSent w \<Longrightarrow> bytesReceived w' = bytesReceived w \<Longrightarrow> ctrlChan w' = ctrlChan w \<Longrightarrow>
   test_ready m q rs w'"
  by (simp add: test_ready_def fresh_test_def)

lemma keeps_ready_env [keeps_intros]: "keeps (test_ready m q rs) env_next"
  by (rule keepsI) (auto simp: env_next_def intro: test_ready_frame)

lemma keeps_ready_now [keeps_intros]: "keeps (test_ready m q rs) time_Now"
  unfolding time_Now_def by (intro keeps_intros)

lemma keeps_ready_timer [keeps_intros]: "keeps (test_ready m q rs) (new_timer ob)"
  by (rule keepsI) (auto simp: new_timer_run intro: test_ready_frame)

lemma keeps_ready_timerCreate [keeps_intros]: "keeps (test_ready m q rs) (timerCreate now pr dur)"
  unfolding timerCreate_def by (intro keeps_intros)

lemma keeps_ready_ticker [keeps_intros]: "keeps (test_ready m q rs) (tickerCreate pr ival mx)"
  unfolding tickerCreate_def by (intro keeps_intros)

lemma keeps_ready_modify:
  "(\<And>w. mode (f w) = mode w \<and> proto (f w) = proto w \<and> streams (f w) = streams w \<and>
     bytesSent (f w) = bytesSent w \<and> bytesReceived (f w) = bytesReceived w \<and> ctrlChan (f w) = ctrlChan w) \<Longrightarrow>
   keeps (test_ready m q rs) (go_modify f)"
  by (rule keeps_modify) (auto intro: test_ready_frame)

lemma keeps_ready_stream:
  "(\<And>sp. result (f sp) = result sp \<and> role (f sp) = role sp) \<Longrightarrow>
   keeps (test_ready m q rs) (with_stream i (go_modify f))"
proof (rule keeps_with_stream)
  fix w r sp
  assume f: "\<And>sp. result (f sp) = result sp \<and> role (f sp) = role sp"
    and w: "test_ready m q rs w" "i < length (streams w)" "go_modify f (streams w ! i) = (r, sp)"
  then have sp: "sp = f (streams w ! i)" by (simp add: go_simps)
  have "fresh_stream (streams w ! i)"
    using w list_all_nth' [of fresh_stream] by (simp add: test_ready_def fresh_test_def)
  then have "fresh_stream sp" using f by (simp add: fresh_stream_def sp)
  with w f show "test_ready m q rs (w\<lparr>streams := (streams w)[i := sp]\<rparr>)"
    by (simp add: test_ready_def fresh_test_def list_all_update map_update_same sp)
qed

lemma keeps_ready_serverTimer: "keeps (test_ready m q rs) createServerTimer"
  unfolding createServerTimer_def report_times_def
  by (auto intro!: keeps_intros keeps_ready_modify)

lemma keeps_ready_senderTicker: "keeps (test_ready m q rs) createSenderTicker"
  unfolding createSenderTicker_def start_sender_def
  by (auto intro!: keeps_intros keeps_ready_stream keeps_or_else)

lemma startTest_ready:
  assumes "proto w = Some p" "list_all (\<lambda>sp. result sp = zero_results) (streams w)"
    and "bytesSent w = 0" "bytesReceived w = 0" "startTest w = (Ret r, w')" "0 \<le> r"
  shows "test_ready (mode w) (ctrlChan w @ [TEST_START, TEST_RUNNING]) (map role (streams w)) w' \<and>
    state w' = TEST_RUNNING"
proof -
  let ?rs = "map role (streams w)"
  from assms(5,6) obtain w1 where s1: "setSendState TEST_START w = (Ret 0, w1)"
    and r1: "go_bind initTest (\<lambda>r. if r < 0 then go_return (- 1) else
      go_bind createServerTimer (\<lambda>r. if r < 0 then go_return (- 1) else
      go_bind (go_gets mode) (\<lambda>m.
      go_bind (if m = IPERF_SENDER then createSenderTicker else go_return 0) (\<lambda>r.
      if r < 0 then go_return (- 1) else
      go_bind (setSendState TEST_RUNNING) (\<lambda>r.
      if r \<noteq> 0 then go_return (- 1) else go_return 0))))) w1 = (Ret r, w')"
    by (auto simp: startTest_def go_bind_eq_Ret go_simps split: if_splits)
  from setSendState_shape [OF s1] obtain c1 where
    w1: "w1 = w\<lparr>state := TEST_START, ctrlChan := ctrlChan w @ [TEST_START], ctrlConn := c1\<rparr>" by blast
  from r1 assms(6) obtain n2 w2 where s2: "initTest w1 = (Ret n2, w2)"
    and r2: "go_bind createServerTimer (\<lambda>r. if r < 0 then go_return (- 1) else
      go_bind (go_gets mode) (\<lambda>m.
      go_bind (if m = IPERF_SENDER then createSenderTicker else go_return 0) (\<lambda>r.
      if r < 0 then go_return (- 1) else
      go_bind (setSendState TEST_RUNNING) (\<lambda>r.
      if r \<noteq> 0 then go_return (- 1) else go_return 0)))) w2 = (Ret r, w')"
    by (auto simp: go_bind_eq_Ret [of initTest] go_simps split: if_splits)
  from initTest_run [OF _ s2, of p] obtain v now where
    v: "untouched w1 v" "w2 = v\<lparr>streams := map (set_start now) (streams v)\<rparr>"
    using assms(1) w1 by auto
  have ready2: "test_ready (mode w) (ctrlChan w @ [TEST_START]) ?rs w2"
    using fresh_after_init [OF v, of p] w1 assms by (simp add: test_ready_def)
  from r2 assms(6) obtain n3 w3 where s3: "createServerTimer w2 = (Ret n3, w3)"
    and r3: "go_bind (go_gets mode) (\<lambda>m.
      go_bind (if m = IPERF_SENDER then createSenderTicker else go_return 0) (\<lambda>r.
      if r < 0 then go_return (- 1) else
      go_bind (setSendState TEST_RUNNING) (\<lambda>r.
      if r \<noteq> 0 then go_return (- 1) else go_return 0))) w3 = (Ret r, w')"
    by (auto simp: go_bind_eq_Ret [of createServerTimer] go_simps split: if_splits)
  have ready3: "test_ready (mode w) (ctrlChan w @ [TEST_START]) ?rs w3"
    by (rule keeps_run [OF keeps_ready_serverTimer ready2 s3])
  from r3 assms(6) obtain n4 w4 where
    s4: "(if mode w3 = IPERF_SENDER then createSenderTicker else go_return 0) w3 = (Ret n4, w4)"
    and r4: "go_bind (setSendState TEST_RUNNING) (\<lambda>r. if r \<noteq> 0 then go_return (- 1) else go_return 0) w4 = (Ret r, w')"
    by (auto simp: go_bind_first go_bind_eq_Ret [of "if _ then _ else _"] go_simps split: if_splits)
  have "keeps (test_ready (mode w) (ctrlChan w @ [TEST_START]) ?rs)
      (if mode w3 = IPERF_SENDER then createSenderTicker else go_return 0)"
    by (intro keeps_intros keeps_ready_senderTicker)
  from keeps_run [OF this ready3 s4]
  have ready4: "test_ready (mode w) (ctrlChan w @ [TEST_START]) ?rs w4" .
  from r4 assms(6) have s5: "setSendState TEST_RUNNING w4 = (Ret 0, w')"
    by (auto simp: go_bind_eq_Ret go_simps split: if_splits)
  from setSendState_shape [OF this] ready4 show ?thesis
    by (auto simp: test_ready_def fresh_test_def)
qed

end
