(* ===== verification/Frames.thy ===== *)
theory Frames
  imports Server
begin

text \<open>
  What the operations of a test leave alone. An invariant that looks only at the channels, the
  timers and the fixed part of a test (locale \<open>frame\<close>) is kept by everything that does not
  use the control channel; with the control channel among the laws (locale \<open>chan_frame\<close>) also
  by the operations that announce a state. Interpreted on \<open>ctrl_view\<close>, which fixes the content
  of the control channel, the rules count its traffic.
\<close>

section \<open>The frame of a test\<close>

definition same_frame :: "world \<Rightarrow> world \<Rightarrow> bool" where
  "same_frame w w' \<longleftrightarrow> ctrlChan w' = ctrlChan w \<and> chStats w' = chStats w \<and> timers w' = timers w \<and>
     isServer w' = isServer w \<and> streamNum w' = streamNum w \<and> reverse w' = reverse w \<and> mode w' = mode w \<and>
     setting w' = setting w"

lemma upd_timer_view [simp]:
  "ctrlChan (upd_timer r f w) = ctrlChan w" "streamNum (upd_timer r f w) = streamNum w"
  "isServer (upd_timer r f w) = isServer w" "chStats (upd_timer r f w) = chStats w"
  "reverse (upd_timer r f w) = reverse w" "mode (upd_timer r f w) = mode w" "setting (upd_timer r f w) = setting w"
  by (simp_all add: upd_timer_def)

locale frame =
  fixes I :: "world \<Rightarrow> bool"
  assumes same: "I w \<Longrightarrow> same_frame w w' \<Longrightarrow> I w'"
    and stats_send: "keeps I stats_send"
    and stats_recv: "keeps I stats_recv"
    and new_timer: "o_cnt ob = 0 \<Longrightarrow> o_done ob = [] \<Longrightarrow> keeps I (new_timer ob)"
    and timer_signal: "keeps I (timer_signal t)"
    and timer_stop: "keeps I (timer_Stop t)"
begin

lemmas base [keeps_intros] = stats_send stats_recv timer_signal timer_stop

lemma modify: "(\<And>w. same_frame w (f w)) \<Longrightarrow> keeps I (go_modify f)"
  by (rule keeps_modify) (blast intro: same)

lemma closed_env: "env_closed I"
  unfolding env_closed_def by (auto intro: same simp: same_frame_def)

lemmas answers [keeps_intros] = keeps_env_closed [OF closed_env]

lemma stream_op [keeps_intros]: "keeps I (with_stream i m)"
  by (rule keeps_with_stream) (auto intro: same simp: same_frame_def)

lemma conn_op [keeps_intros]: "keeps I (ctrl_conn m)"
  by (rule keeps_ctrl_conn) (auto intro: same simp: same_frame_def)

lemma printf [keeps_intros]: "keeps I (go_Printf f args)"
  unfolding go_Printf_def by (rule modify) (simp add: same_frame_def)

lemma set_option [keeps_intros]: "keeps I (set_opt i opt)" "keeps I (try_opt i opt)"
  unfolding try_opt_def set_opt_def by (intro keeps_intros)+

lemma connect [keeps_intros]: "keeps I (proto_connect p)"
  by (rule keeps_connect [OF closed_env])

lemma accept [keeps_intros]: "keeps I (via_proto proto_accept)"
  using asks_env_accept closed_env unfolding asks_env_def by blast

end

lemma keeps_via_proto [keeps_intros]: "(\<And>p. keeps I (f p)) \<Longrightarrow> keeps I (via_proto f)"
  unfolding via_proto_def by (auto intro!: keeps_intros)

lemma keeps_collect [keeps_intros]: "(\<And>x. keeps I (f x)) \<Longrightarrow> keeps I (go_collect f xs)"
  by (induction xs) (auto intro!: keeps_intros)

section \<open>The operations of a test\<close>

context frame
begin

lemma proto_setup [keeps_intros]: "keeps I (proto_init p)"
  by (cases p) (auto simp: tcp_init_def rudp_init_def kcp_init_def split: prod.splits intro!: keeps_intros)

lemma stats_callback [keeps_intros]: "keeps I (proto_statsCallback p i tmp)"
  by (cases p)
    (auto simp: tcp_statsCallback_def rudp_statsCallback_def kcp_statsCallback_def
      saveTCPInfo_def intro!: keeps_intros)

lemma teardown [keeps_intros]: "keeps I (proto_teardown p)"
  by (cases p)
    (auto simp: tcp_teardown_def rudp_teardown_def kcp_teardown_def split: prod.splits intro!: keeps_intros)

lemma statistics [keeps_intros]: "keeps I iperfStatsCallback"
  unfolding iperfStatsCallback_def stats_of_stream_def by (auto intro!: keeps_intros)

lemma interval_report [keeps_intros]: "keeps I (print_interval i)"
  unfolding print_interval_def print_header_def print_line_def by (auto intro!: keeps_intros)

lemma result_report [keeps_intros]: "keeps I (print_result i)"
  unfolding print_result_def Let_def by (auto split: prod.splits intro!: keeps_intros)

lemma reporter [keeps_intros]: "keeps I iperfReporterCallback"
  unfolding iperfReporterCallback_def iperfPrintIntermediate_def iperfPrintResults_def Let_def
  by (auto split: prod.splits intro!: keeps_intros)

lemma callbacks [keeps_intros]: "keeps I call_stats" "keeps I call_reporter"
  unfolding call_stats_def call_reporter_def by (auto intro!: keeps_intros)

lemma close_streams [keeps_intros]: "keeps I closeAllStreams"
  unfolding closeAllStreams_def by (auto intro!: keeps_intros keeps_or_else)

lemma init_test [keeps_intros]: "keeps I initTest"
  unfolding initTest_def by (auto intro!: keeps_intros keeps_or_else)

lemma create_timer [keeps_intros]: "keeps I (timerCreate now pr dur)" "keeps I (tickerCreate pr ival mx)"
  unfolding timerCreate_def tickerCreate_def by (auto intro!: keeps_intros new_timer)

lemma sender_ticker [keeps_intros]: "keeps I createSenderTicker"
  unfolding createSenderTicker_def start_sender_def by (auto intro!: keeps_intros keeps_or_else)

lemma client_timers [keeps_intros]: "keeps I createClientTimer"
  unfolding createClientTimer_def report_times_def by (auto simp: same_frame_def intro!: keeps_intros modify)

lemma server_timers [keeps_intros]: "keeps I createServerTimer"
  unfolding createServerTimer_def report_times_def by (auto simp: same_frame_def intro!: keeps_intros modify)

lemma new_stream [keeps_intros]: "keeps I (newStream c rl)"
  unfolding newStream_def Let_def by (auto intro!: keeps_intros)

lemma add_all [keeps_intros]: "keeps I m \<Longrightarrow> keeps I (add_streams m)"
  unfolding add_streams_def add_stream_def
  by (auto simp: same_frame_def intro!: keeps_intros keeps_or_else modify)

lemma create_streams [keeps_intros]: "keeps I createStreams" "keeps I acceptStreams"
  unfolding createStreams_def acceptStreams_def by (intro keeps_intros)+

lemma send_params [keeps_intros]: "keeps I sendParams"
  unfolding sendParams_def by (auto split: prod.splits intro!: keeps_intros)

lemma results [keeps_intros]: "keeps I sendResults" "keeps I getResults"
  unfolding sendResults_def getResults_def make_results_def store_results_def Let_def
  by (auto split: prod.splits intro!: keeps_intros)

lemma exchange_results [keeps_intros]: "keeps I exchangeResults"
  unfolding exchangeResults_def by (auto intro!: keeps_intros)

lemma pacing [keeps_intros]: "keeps I (checkThrottle i now)"
  unfolding checkThrottle_def by (auto split: prod.splits intro!: keeps_intros)

lemma state_read [keeps_intros]: "keeps I (read_state buf)"
  unfolding read_state_def Let_def
  by (auto simp: same_frame_def split: prod.splits intro!: keeps_intros modify)

lemma timer_procs [keeps_intros]: "keeps I (client_timer pr)" "keeps I (server_timer pr)"
  by (cases pr;
    auto simp: clientTimerProc_def clientStatsTickerProc_def clientReportTickerProc_def sendTickerProc_def
      serverTimerProc_def serverStatsTickerProc_def serverReportTickerProc_def same_frame_def
      intro!: keeps_intros modify)+

end

section \<open>With the control channel\<close>

locale chan_frame = frame +
  assumes chan_send: "keeps I (ctrl_send st)"
    and chan_recv: "keeps I ctrl_recv"
begin

lemmas channel [keeps_intros] = chan_send chan_recv

lemma announce [keeps_intros]: "keeps I (setSendState st)"
  unfolding setSendState_def
  by (auto simp: same_frame_def split: prod.splits intro!: keeps_intros modify)

lemma sender_pass [keeps_intros]: "keeps I (iperfSend i)" "keeps I (iperfRecv i)"
  unfolding iperfSend_def iperfRecv_def send_rest_def
  by (auto simp: same_frame_def split: if_splits intro!: keeps_intros modify)

lemma client_end [keeps_intros]: "keeps I clientEnd"
  unfolding clientEnd_def by (auto intro!: keeps_intros)

lemma main_turn [keeps_intros]: "keeps I (runClient_turn n)"
  unfolding runClient_turn_def Let_def
  by (auto simp: same_frame_def intro!: keeps_intros modify)

lemma server_end [keeps_intros]:
  "keeps I server_test_end" "keeps I client_terminated" "keeps I (stop_if t)" "keeps I server_done"
  unfolding server_test_end_def client_terminated_def server_done_def stop_if_def
  by (auto simp: same_frame_def intro!: keeps_intros modify)

lemma server_handler [keeps_intros]: "keeps I (handleServerCtrlMsg buf)"
  unfolding handleServerCtrlMsg_def server_dispatch_def close_ctrl_def
  by (auto split: prod.splits intro!: keeps_intros)

lemma start_test [keeps_intros]: "keeps I startTest"
  unfolding startTest_def by (auto intro!: keeps_intros)

lemma server_turn [keeps_intros]: "keeps I runServer_turn"
  unfolding runServer_turn_def close_and_def by (auto intro!: keeps_intros)

end

text \<open>With the parameters the server takes over.\<close>

locale test_frame = chan_frame +
  assumes params: "keeps I exchangeParams"
begin

lemmas parameters [keeps_intros] = params

lemma client_handler [keeps_intros]: "keeps I (handleClientCtrlMsg buf)"
  unfolding handleClientCtrlMsg_def client_dispatch_def give_up_def
  by (auto simp: same_frame_def split: prod.splits intro!: keeps_intros modify)

end

section \<open>The content of the control channel\<close>

definition ctrl_view :: "uint list \<times> uint \<times> bool \<Rightarrow> world \<Rightarrow> bool" where
  "ctrl_view v w \<longleftrightarrow> (ctrlChan w, streamNum w, isServer w) = v"

interpretation cv: frame "ctrl_view v" for v
proof unfold_locales
  fix w w' ob t
  show "ctrl_view v w \<Longrightarrow> same_frame w w' \<Longrightarrow> ctrl_view v w'"
    by (simp add: ctrl_view_def same_frame_def)
  show "keeps (ctrl_view v) stats_send"
    by (rule keepsI) (auto simp: stats_send_def chan_send_def ctrl_view_def)
  show "keeps (ctrl_view v) stats_recv"
    by (rule keepsI) (auto simp: stats_recv_def chan_recv_def ctrl_view_def split: list.splits)
  show "keeps (ctrl_view v) (new_timer ob)"
    by (rule keepsI) (simp add: new_timer_run ctrl_view_def)
  show "keeps (ctrl_view v) (timer_signal t)"
    by (rule keepsI) (auto simp: timer_signal_def ctrl_view_def split: option.splits)
  show "keeps (ctrl_view v) (timer_Stop t)"
    unfolding timer_Stop_def by (auto simp: ctrl_view_def split: option.splits intro!: keeps_intros keeps_modify)
qed

lemma view_modify:
  "(\<And>w. ctrlChan (f w) = ctrlChan w \<and> streamNum (f w) = streamNum w \<and> isServer (f w) = isServer w) \<Longrightarrow>
   keeps (ctrl_view v) (go_modify f)"
  by (rule keeps_modify) (simp add: ctrl_view_def)

end
