(* ===== verification/Client_Run.thy ===== *)
theory Client_Run
  imports Frames
begin

text \<open>
  The client as a system of goroutines: the main loop, \<open>handleClientCtrlMsg\<close>, one goroutine
  for each stream, and the timers. A step is one pass of one of them that does not block; the
  order of the steps is free, and what the server and the network do is in the scripts of the
  connections. \<open>spawned\<close> and \<open>emitted\<close> are history variables: how many goroutines were
  started for streams, and how many of them have ended with \<open>TEST_END\<close> in the channel.
\<close>

record client_proc =
  pw :: world
  main_loop :: "uint + int"
  handler :: "u8 list option"
  workers :: "(nat \<times> bool \<times> bool) list"
  spawned :: nat
  emitted :: nat

text \<open>
  A worker is a stream, whether it sends, and whether its ticker exists. \<open>iperfSend\<close> starts
  with the creation of a ticker, \<open>iperfRecv\<close> with its loop.
\<close>

definition start_worker :: "nat \<times> bool \<Rightarrow> nat \<times> bool \<times> bool" where
  "start_worker = (\<lambda>(i, sends). (i, sends, \<not> sends))"

definition stream_pass :: "bool \<Rightarrow> nat \<Rightarrow> (bool, world) go" where
  "stream_pass sends i = (if sends then iperfSend i else iperfRecv i)"

definition ends_in :: "world \<Rightarrow> nat" where
  "ends_in w = count_list (ctrlChan w) TEST_END"

inductive client_step :: "client_proc \<Rightarrow> client_proc \<Rightarrow> bool" where
  cs_main: "main_loop P = Inl n \<Longrightarrow> runClient_turn n (pw P) = (Ret (MainNext n' gs), w) \<Longrightarrow>
    client_step P (P\<lparr>pw := w, main_loop := Inl n', workers := workers P @ map start_worker gs,
      spawned := spawned P + length gs\<rparr>)"
| cs_return: "main_loop P = Inl n \<Longrightarrow> runClient_turn n (pw P) = (Ret (MainReturn r), w) \<Longrightarrow>
    client_step P (P\<lparr>pw := w, main_loop := Inr r\<rparr>)"
| cs_handler: "main_loop P = Inl n \<Longrightarrow> handler P = Some buf \<Longrightarrow>
    handleClientCtrlMsg buf (pw P) = (Ret h, w) \<Longrightarrow> client_step P (P\<lparr>pw := w, handler := h\<rparr>)"
| cs_start: "main_loop P = Inl n \<Longrightarrow> workers P = gs @ (i, True, False) # hs \<Longrightarrow>
    iperfSend_start i (pw P) = (Ret (), w) \<Longrightarrow>
    client_step P (P\<lparr>pw := w, workers := gs @ (i, True, True) # hs\<rparr>)"
| cs_pass: "main_loop P = Inl n \<Longrightarrow> workers P = gs @ (i, s, True) # hs \<Longrightarrow>
    stream_pass s i (pw P) = (Ret b, w) \<Longrightarrow>
    client_step P (P\<lparr>pw := w, workers := gs @ (if b then [] else [(i, s, True)]) @ hs,
      emitted := emitted P + (ends_in w - ends_in (pw P))\<rparr>)"
| cs_timer: "main_loop P = Inl n \<Longrightarrow> goroutine_tick client_timer r (pw P) = (Ret (), w) \<Longrightarrow>
    client_step P (P\<lparr>pw := w\<rparr>)"
| cs_timer_done: "main_loop P = Inl n \<Longrightarrow> goroutine_done r (pw P) = (Ret (), w) \<Longrightarrow>
    client_step P (P\<lparr>pw := w\<rparr>)"

inductive_cases client_stepE: "client_step P Q"

text \<open>After \<open>ConnectServer\<close>: the main loop and the handler start.\<close>

definition client_start :: "client_proc \<Rightarrow> bool" where
  "client_start P \<longleftrightarrow> main_loop P = Inl 0 \<and> workers P = [] \<and> spawned P = 0 \<and> emitted P = 0 \<and>
     ctrlChan (pw P) = [] \<and> \<not> isServer (pw P) \<and>
     0 < unat (streamNum (pw P)) \<and> unat (streamNum (pw P)) < 2 ^ 63"

inductive client_reach :: "client_proc \<Rightarrow> client_proc \<Rightarrow> bool" for P where
  client_here: "client_start P \<Longrightarrow> client_reach P P"
| client_next: "client_reach P Q \<Longrightarrow> client_step Q R \<Longrightarrow> client_reach P R"

section \<open>Who sends \<open>TEST_END\<close>\<close>

definition end_view :: "nat \<Rightarrow> uint \<Rightarrow> world \<Rightarrow> bool" where
  "end_view k num w \<longleftrightarrow> ends_in w = k \<and> streamNum w = num \<and> \<not> isServer w"

lemma end_of_view:
  assumes "\<And>v. keeps (ctrl_view v) m"
  shows "keeps (end_view k num) m"
proof (rule keepsI)
  fix w assume w: "end_view k num w"
  have "ctrl_view (ctrlChan w, streamNum w, isServer w) w" by (simp add: ctrl_view_def)
  from keepsD [OF assms this] w show "end_view k num (snd (m w))"
    by (simp add: end_view_def ends_in_def ctrl_view_def)
qed

lemma end_view_send: "t \<noteq> TEST_END \<Longrightarrow> keeps (end_view k num) (ctrl_send t)"
  by (rule keepsI) (auto simp: end_view_def ends_in_def ctrl_send_def chan_send_def)

lemma end_view_setSendState: "st \<noteq> TEST_END \<Longrightarrow> keeps (end_view k num) (setSendState st)"
  unfolding setSendState_def
  by (auto split: prod.splits intro!: keeps_intros end_view_send end_of_view [OF cv.conn_op]
      end_of_view [OF view_modify])

lemma end_view_params: "keeps (end_view k num) exchangeParams"
proof (rule keepsI)
  fix w assume w: "end_view k num w"
  have "keeps (end_view k num) (go_bind sendParams (\<lambda>r. go_return (if r < 0 then - 1 else 0)))"
    by (intro keeps_intros end_of_view [OF cv.send_params])
  from keepsD [OF this w] w show "end_view k num (snd (exchangeParams w))"
    by (simp add: exchangeParams_def go_simps end_view_def)
qed

lemmas end_views =
  end_of_view [OF cv.create_streams(1)] end_of_view [OF cv.init_test]
  end_of_view [OF cv.client_timers] end_of_view [OF cv.sender_ticker]
  end_of_view [OF cv.exchange_results] end_of_view [OF cv.callbacks(2)]
  end_of_view [OF cv.reporter] end_of_view [OF cv.conn_op] end_of_view [OF cv.stream_op]
  end_of_view [OF cv.state_read] end_of_view [OF view_modify]
  end_view_params end_view_send end_view_setSendState

lemma end_view_give_up: "keeps (end_view k num) (give_up r)"
  unfolding give_up_def by (auto intro!: keeps_intros end_view_send)

lemma end_view_clientEnd: "keeps (end_view k num) clientEnd"
  unfolding clientEnd_def by (auto intro!: keeps_intros end_views end_of_view [OF cv.teardown])

lemma end_view_dispatch: "keeps (end_view k num) (client_dispatch st)"
  unfolding client_dispatch_def
  by (auto intro!: keeps_intros end_views end_view_give_up end_view_clientEnd)

lemma end_view_handler: "keeps (end_view k num) (handleClientCtrlMsg buf)"
  unfolding handleClientCtrlMsg_def
  by (auto split: prod.splits intro!: keeps_intros end_views end_view_dispatch)

lemma keeps_tick:
  assumes u: "\<And>f. keeps I (go_modify (upd_timer r f))" and run: "\<And>pr. keeps I (run pr)"
  shows "keeps I (goroutine_tick run r)"
proof (rule keepsI)
  fix w assume w: "I w"
  let ?ob = "timers w ! r"
  let ?off = "go_modify (upd_timer r (\<lambda>ob. ob\<lparr>o_armed := False\<rparr>))"
  let ?dead = "go_modify (upd_timer r (\<lambda>ob. ob\<lparr>o_alive := False, o_armed := False\<rparr>))"
  let ?count = "go_modify (upd_timer r (\<lambda>ob. ob\<lparr>o_cnt := o_cnt ob + 1\<rparr>))"
  have "goroutine_tick run r w \<in> {(Blocked, w), go_then ?off (run (o_proc ?ob)) w, ?dead w,
      go_then (run (o_proc ?ob)) ?count w}"
    by (simp add: goroutine_tick_def Let_def go_then_run go_bind_first go_modify_run)
  moreover have "I (snd (go_then ?off (run (o_proc ?ob)) w))" "I (snd (?dead w))"
    "I (snd (go_then (run (o_proc ?ob)) ?count w))"
    using keepsD [OF keeps_then [OF u run] w] keepsD [OF u w] keepsD [OF keeps_then [OF run u] w] by blast+
  ultimately show "I (snd (goroutine_tick run r w))" using w by fastforce
qed

lemma end_view_timers:
  "keeps (end_view k num) (goroutine_tick client_timer r)" "keeps (end_view k num) (goroutine_done r)"
proof -
  have "keeps (ctrl_view v) (goroutine_tick client_timer r)" for v
    by (rule keeps_tick [OF view_modify cv.timer_procs(1)]) simp
  then show "keeps (end_view k num) (goroutine_tick client_timer r)" by (rule end_of_view)
  have "keeps (ctrl_view v) (goroutine_done r)" for v
    by (rule keepsI) (auto simp: goroutine_done_def ctrl_view_def)
  then show "keeps (end_view k num) (goroutine_done r)" by (rule end_of_view)
qed

section \<open>One pass of a stream, one turn of the main loop\<close>

definition side_view :: "uint \<Rightarrow> world \<Rightarrow> bool" where
  "side_view num w \<longleftrightarrow> streamNum w = num \<and> \<not> isServer w"

lemma side_of_view:
  assumes "\<And>v. keeps (ctrl_view v) m"
  shows "keeps (side_view num) m"
proof (rule keepsI)
  fix w assume w: "side_view num w"
  have "ctrl_view (ctrlChan w, streamNum w, isServer w) w" by (simp add: ctrl_view_def)
  from keepsD [OF assms this] w show "side_view num (snd (m w))"
    by (simp add: side_view_def ctrl_view_def)
qed

lemma side_send: "keeps (side_view num) (ctrl_send t)"
  by (rule keepsI) (auto simp: side_view_def ctrl_send_def chan_send_def)

lemmas side_views = side_send side_of_view [OF cv.stream_op] side_of_view [OF view_modify]
  side_of_view [OF cv.pacing] keeps_env_closed [of "side_view num" for num]

lemma side_env: "env_closed (side_view num)"
  by (simp add: env_closed_def side_view_def)

lemma side_pass: "keeps (side_view num) (stream_pass s i)"
proof -
  have rest: "keeps (side_view num) (send_rest i)"
    unfolding send_rest_def by (auto intro!: keeps_intros side_views side_env)
  show ?thesis
    unfolding stream_pass_def iperfSend_def iperfRecv_def
    by (auto intro!: keeps_intros side_views side_env rest split: if_splits)
qed

lemma end_or_go:
  assumes "ctrlChan u = q"
    and "(if done' u then go_then (ctrl_send TEST_END) (go_return True) else go_return False) u = (Ret b, w')"
  shows "ctrlChan w' = q \<or> b \<and> ctrlChan w' = q @ [TEST_END]"
proof (cases "done' u")
  case True
  with assms have "length (ctrlChan u) < 5"
    by (cases "length (ctrlChan u) < 5") (simp_all add: go_simps go_bind_Blocked)
  with True assms show ?thesis by (auto simp: go_simps go_bind_Ret)
next
  case False
  with assms show ?thesis by (simp add: go_simps)
qed

lemma iperfRecv_ends:
  assumes "iperfRecv i w = (Ret b, w')"
  shows "ctrlChan w' = ctrlChan w \<or> b \<and> ctrlChan w' = ctrlChan w @ [TEST_END]"
proof -
  from assms obtain n w1 where r: "with_stream i (\<lambda>sp. proto_recv (rcv sp) (state w) sp) w = (Ret n, w1)"
    by (auto simp: iperfRecv_def go_bind_eq_Ret go_simps)
  then have w1: "ctrlChan w1 = ctrlChan w" "state w1 = state w"
    by (auto simp: with_stream_def split: if_splits prod.splits)
  show ?thesis
  proof (cases "n < 0")
    case True
    with assms r w1 show ?thesis by (simp add: iperfRecv_def go_simps go_bind_Ret)
  next
    case False
    let ?w = "if state w1 = TEST_RUNNING
        then w1\<lparr>bytesReceived := bytesReceived w1 + word_of_int n, blocksReceived := blocksReceived w1 + 1\<rparr> else w1"
    have chan: "ctrlChan ?w = ctrlChan w" using w1 by simp
    have "(if done' ?w then go_then (ctrl_send TEST_END) (go_return True) else go_return False) ?w = (Ret b, w')"
      using assms r False by (simp only: iperfRecv_def go_simps go_bind_Ret go_bind_first if_False)
    with chan show ?thesis by (rule end_or_go)
  qed
qed

lemma send_pass_ends:
  "iperfSend i w = (Ret b, w') \<Longrightarrow> ctrlChan w' = ctrlChan w \<or> b \<and> ctrlChan w' = ctrlChan w @ [TEST_END]"
  by (drule iperfSend_shape) (auto split: if_splits)

lemma pass_ends:
  assumes "stream_pass s i w = (Ret b, w')" "\<not> isServer w"
  shows "streamNum w' = streamNum w \<and> \<not> isServer w' \<and>
    (ends_in w' = ends_in w \<or> b \<and> ends_in w' = Suc (ends_in w))"
proof -
  have "side_view (streamNum w) w" using assms by (simp add: side_view_def)
  from keeps_run [OF side_pass this assms(1)] have "streamNum w' = streamNum w \<and> \<not> isServer w'"
    by (simp add: side_view_def)
  moreover have "ctrlChan w' = ctrlChan w \<or> b \<and> ctrlChan w' = ctrlChan w @ [TEST_END]"
  proof (cases s)
    case True
    with assms(1) send_pass_ends [of i w b w'] show ?thesis by (simp add: stream_pass_def)
  next
    case False
    with assms(1) iperfRecv_ends [of i w b w'] show ?thesis by (simp add: stream_pass_def)
  qed
  ultimately show ?thesis by (auto simp: ends_in_def)
qed

lemma word_between_succ:
  fixes a b :: uint
  assumes "b \<le> a" "a \<le> b + 1" "a \<noteq> b + 1"
  shows "a = b"
proof (rule ccontr)
  assume "a \<noteq> b"
  with assms(1) have "b < a" by simp
  then have "b + 1 \<le> a" by (rule inc_le)
  with assms(2,3) show False by simp
qed

text \<open>
  A turn of the main loop: nothing happens to the \<open>TEST_END\<close> signals, or one is counted, or
  the last one is counted and the announcement to the server puts a new one in the channel.
\<close>

lemma turn_ends:
  assumes "runClient_turn n w = (Ret (MainNext n' gs), w')" "\<not> isServer w"
  shows "streamNum w' = streamNum w \<and> \<not> isServer w' \<and>
    (n' = n \<and> ends_in w' = ends_in w \<or>
     n' = n + 1 \<and> gs = [] \<and> ends_in w = Suc (ends_in w') \<and> (n' < streamNum w \<or> n' = streamNum w + 1) \<or>
     n' = n + 1 \<and> gs = [] \<and> n' = streamNum w \<and> ends_in w' = ends_in w \<and> 0 < ends_in w)"
proof -
  from assms(1) obtain st q where q: "ctrlChan w = st # q"
    by (cases "ctrlChan w") (auto simp: runClient_turn_def ctrl_recv_def chan_recv_def go_bind_def)
  let ?w = "w\<lparr>ctrlChan := q\<rparr>"
  have rc: "ctrl_recv w = (Ret st, ?w)" using q by (simp add: ctrl_recv_def chan_recv_def)
  consider "st = TEST_RUNNING" | "st = TEST_END" "n + 1 < streamNum w \<or> n + 1 = streamNum w + 1"
    | "st = TEST_END" "\<not> (n + 1 < streamNum w \<or> n + 1 = streamNum w + 1)"
    | "st \<noteq> TEST_RUNNING" "st \<noteq> TEST_END" by blast
  then show ?thesis
  proof cases
    case 1
    with assms rc q show ?thesis by (auto simp: runClient_turn_def go_bind_Ret go_simps ends_in_def)
  next
    case 2
    with assms rc q show ?thesis by (auto simp: runClient_turn_def go_bind_Ret go_simps ends_in_def Let_def)
  next
    case 3
    with assms rc have le: "\<not> streamNum w + 1 < n + 1"
      by (auto simp: runClient_turn_def go_bind_Ret go_simps Let_def)
    have run: "go_then call_stats (go_bind (setSendState TEST_END) (\<lambda>r.
        if r < 0 then go_return (MainReturn (- 1)) else go_return (MainNext (n + 1) []))) (?w\<lparr>done' := True\<rparr>) =
        (Ret (MainNext n' gs), w')"
      using assms(1) rc 3 le by (simp add: runClient_turn_def go_bind_Ret go_simps Let_def)
    then obtain w2 where cs: "call_stats (?w\<lparr>done' := True\<rparr>) = (Ret (), w2)"
      and r2: "go_bind (setSendState TEST_END) (\<lambda>r.
        if r < 0 then go_return (MainReturn (- 1)) else go_return (MainNext (n + 1) [])) w2 = (Ret (MainNext n' gs), w')"
      by (auto simp: go_then_def go_bind_eq_Ret [of call_stats])
    have "ctrl_view (q, streamNum w, False) (?w\<lparr>done' := True\<rparr>)" using assms(2) by (simp add: ctrl_view_def)
    from keeps_run [OF cv.callbacks(1) this cs] have w2: "ctrlChan w2 = q" "streamNum w2 = streamNum w" "\<not> isServer w2"
      by (simp_all add: ctrl_view_def)
    from r2 obtain r where s: "setSendState TEST_END w2 = (Ret r, w')" and n': "n' = n + 1" "gs = []"
      by (auto simp: go_bind_eq_Ret go_simps split: if_splits)
    from setSendState_shape [OF s] w2 have "ctrlChan w' = q @ [TEST_END]" "streamNum w' = streamNum w" "\<not> isServer w'"
      by auto
    moreover have "n + 1 = streamNum w"
    proof -
      from 3(2) le have a: "streamNum w \<le> n + 1" "n + 1 \<le> streamNum w + 1" "n + 1 \<noteq> streamNum w + 1" by auto
      then show ?thesis using word_between_succ by blast
    qed
    ultimately show ?thesis using n' q 3(1) by (auto simp: ends_in_def)
  next
    case 4
    with assms rc q show ?thesis
      by (auto simp: runClient_turn_def go_bind_Ret go_simps ends_in_def split: if_splits)
  qed
qed

text \<open>A turn that ends the main loop.\<close>

lemma side_turn: "keeps (side_view num) (runClient_turn n)"
proof -
  have "keeps (side_view num) ctrl_recv"
    by (rule keepsI) (auto simp: side_view_def ctrl_recv_def chan_recv_def split: list.splits)
  moreover have "keeps (side_view num) (setSendState st)" for st
    unfolding setSendState_def
    by (auto split: prod.splits intro!: keeps_intros side_views side_of_view [OF cv.conn_op])
  ultimately show ?thesis
    unfolding runClient_turn_def Let_def
    by (auto intro!: keeps_intros side_views side_of_view [OF cv.callbacks(1)])
qed

lemma turn_side:
  assumes "runClient_turn n w = (Ret x, w')" "\<not> isServer w"
  shows "streamNum w' = streamNum w \<and> \<not> isServer w'"
proof -
  have "side_view (streamNum w) w" using assms(2) by (simp add: side_view_def)
  from keeps_run [OF side_turn this assms(1)] show ?thesis by (simp add: side_view_def)
qed

lemma turn_error:
  assumes "runClient_turn n w = (Ret (MainReturn r), w')"
  shows "r = 0 \<or> 0 < ends_in w \<and> (n + 1 = streamNum w \<or> streamNum w + 1 < n + 1)"
proof -
  from assms obtain st q where q: "ctrlChan w = st # q"
    by (cases "ctrlChan w") (auto simp: runClient_turn_def ctrl_recv_def chan_recv_def go_bind_def)
  have rc: "ctrl_recv w = (Ret st, w\<lparr>ctrlChan := q\<rparr>)" using q by (simp add: ctrl_recv_def chan_recv_def)
  show ?thesis
  proof (cases "st = TEST_END")
    case False
    with assms rc show ?thesis
      by (auto simp: runClient_turn_def go_bind_Ret go_simps split: if_splits)
  next
    case True
    then have e: "0 < ends_in w" using q by (simp add: ends_in_def)
    have "\<not> (n + 1 < streamNum w \<or> n + 1 = streamNum w + 1)"
      using assms rc True by (auto simp: runClient_turn_def go_bind_Ret go_simps Let_def)
    then have "n + 1 = streamNum w \<or> streamNum w + 1 < n + 1"
      using word_between_succ [of "streamNum w" "n + 1"] by (auto simp: not_less)
    with e show ?thesis by simp
  qed
qed

section \<open>The invariant of the count\<close>

definition count_inv :: "uint \<Rightarrow> client_proc \<Rightarrow> bool" where
  "count_inv num P \<longleftrightarrow> side_view num (pw P) \<and> length (workers P) + emitted P \<le> spawned P \<and>
     (case main_loop P of
        Inl n \<Rightarrow> unat n \<le> unat num + 1 \<and> (num \<le> n \<longrightarrow> unat num \<le> emitted P) \<and>
          unat n + ends_in (pw P) = emitted P + (if num \<le> n then 1 else 0)
      | Inr r \<Rightarrow> True)"

lemma count_start: "client_start P \<Longrightarrow> count_inv (streamNum (pw P)) P"
  by (auto simp: client_start_def count_inv_def side_view_def ends_in_def word_le_nat_alt)

lemma unat_succ: "unat (num :: uint) < 2 ^ 63 \<Longrightarrow> unat (n :: uint) \<le> unat num + 1 \<Longrightarrow> unat (n + 1) = unat n + 1"
  by (subst unat_add_lem [THEN iffD1]) simp_all

text \<open>A step that leaves the signals alone.\<close>

lemma count_quiet:
  assumes "count_inv num P" "keeps (end_view (ends_in (pw P)) num) m" "m (pw P) = (r, w)"
  shows "count_inv num (P\<lparr>pw := w\<rparr>)"
proof -
  have "end_view (ends_in (pw P)) num (pw P)"
    using assms(1) by (simp add: count_inv_def side_view_def end_view_def)
  from keeps_run [OF assms(2) this assms(3)] assms(1) show ?thesis
    by (cases "main_loop P") (simp_all add: count_inv_def side_view_def end_view_def)
qed

lemma count_main:
  assumes inv: "count_inv num P" and num: "0 < unat num" "unat num < 2 ^ 63"
    and n: "main_loop P = Inl n" and t: "runClient_turn n (pw P) = (Ret (MainNext n' gs), w)"
  shows "count_inv num (P\<lparr>pw := w, main_loop := Inl n', workers := workers P @ map start_worker gs,
    spawned := spawned P + length gs\<rparr>)"
proof -
  have side: "streamNum (pw P) = num" "\<not> isServer (pw P)"
    and cnt: "unat n \<le> unat num + 1" "num \<le> n \<longrightarrow> unat num \<le> emitted P"
      "unat n + ends_in (pw P) = emitted P + (if num \<le> n then 1 else 0)"
    and wk: "length (workers P) + emitted P \<le> spawned P"
    using inv n by (simp_all add: count_inv_def side_view_def)
  have succ: "unat (n + 1) = unat n + 1" using unat_succ [OF num(2) cnt(1)] .
  have succ1: "unat (num + 1) = unat num + 1" using unat_succ [OF num(2), of num] by simp
  have sv: "side_view num w" using turn_ends [OF t side(2)] side by (simp add: side_view_def)
  from turn_ends [OF t side(2)] side consider
    "n' = n" "ends_in w = ends_in (pw P)"
  | "n' = n + 1" "gs = []" "ends_in (pw P) = Suc (ends_in w)" "n' < num \<or> n' = num + 1"
  | "n' = n + 1" "gs = []" "n' = num" "ends_in w = ends_in (pw P)" "0 < ends_in (pw P)" by auto
  then show ?thesis
  proof cases
    case 1
    with cnt wk sv show ?thesis by (simp add: count_inv_def)
  next
    case 2
    from 2(1,4) succ succ1 have "unat n + 1 < unat num \<or> unat n = unat num"
      by (auto simp: word_less_nat_alt)
    then have "unat n' \<le> unat num + 1" "num \<le> n' \<longleftrightarrow> num \<le> n"
      using 2(1) succ by (auto simp: word_le_nat_alt)
    with cnt wk sv 2 succ show ?thesis by (auto simp: count_inv_def)
  next
    case 3
    from 3(1,3) succ have "unat num = unat n + 1" by simp
    then have "\<not> num \<le> n" "num \<le> n'" using 3(3) by (simp_all add: word_le_nat_alt)
    with cnt wk sv 3 succ \<open>unat num = unat n + 1\<close> show ?thesis by (auto simp: count_inv_def)
  qed
qed

lemma count_pass:
  assumes inv: "count_inv num P" and n: "main_loop P = Inl n" and wk: "workers P = gs @ (i, s, True) # hs"
    and run: "stream_pass s i (pw P) = (Ret b, w)"
  shows "count_inv num (P\<lparr>pw := w, workers := gs @ (if b then [] else [(i, s, True)]) @ hs,
    emitted := emitted P + (ends_in w - ends_in (pw P))\<rparr>)"
proof -
  have side: "streamNum (pw P) = num" "\<not> isServer (pw P)" using inv by (simp_all add: count_inv_def side_view_def)
  note ends = pass_ends [OF run side(2)]
  then have sv: "side_view num w" using side by (simp add: side_view_def)
  from ends consider "ends_in w = ends_in (pw P)" | "b" "ends_in w = Suc (ends_in (pw P))" by blast
  then show ?thesis
    using inv n wk sv by cases (auto simp: count_inv_def)
qed

lemma count_step:
  assumes "client_step P Q" "count_inv num P" "0 < unat num" "unat num < 2 ^ 63"
  shows "count_inv num Q"
  using assms(1)
proof cases
  case (cs_main n n' gs w)
  with count_main assms show ?thesis by blast
next
  case (cs_return n r w)
  have "\<not> isServer (pw P)" "streamNum (pw P) = num" using assms(2) by (simp_all add: count_inv_def side_view_def)
  then have "side_view num w"
    using turn_side [OF cs_return(3)] by (simp add: side_view_def)
  with assms(2) show ?thesis unfolding cs_return(1) by (simp add: count_inv_def)
next
  case (cs_handler n buf h w)
  have "count_inv num (P\<lparr>pw := w\<rparr>)"
    by (rule count_quiet [OF assms(2) end_view_handler cs_handler(4)])
  then show ?thesis unfolding cs_handler(1) using cs_handler(2) by (simp add: count_inv_def)
next
  case (cs_start n gs i hs w)
  have "keeps (end_view (ends_in (pw P)) num) (iperfSend_start i)"
    unfolding iperfSend_start_def by (auto intro!: keeps_intros end_views)
  from count_quiet [OF assms(2) this cs_start(4)] cs_start(2,3) show ?thesis
    unfolding cs_start(1) by (simp add: count_inv_def)
next
  case (cs_pass n gs i s hs b w)
  with count_pass assms show ?thesis by blast
next
  case (cs_timer n r w)
  show ?thesis unfolding cs_timer(1) by (rule count_quiet [OF assms(2) end_view_timers(1) cs_timer(3)])
next
  case (cs_timer_done n r w)
  show ?thesis unfolding cs_timer_done(1) by (rule count_quiet [OF assms(2) end_view_timers(2) cs_timer_done(3)])
qed

lemma count_reach:
  "client_reach P Q \<Longrightarrow> 0 < unat (streamNum (pw P)) \<and> unat (streamNum (pw P)) < 2 ^ 63 \<and>
    count_inv (streamNum (pw P)) Q"
proof (induction rule: client_reach.induct)
  case client_here
  then show ?case using count_start by (simp add: client_start_def)
next
  case (client_next Q R)
  then show ?case using count_step by blast
qed

section \<open>Properties\<close>

text \<open>
  C3: In every reachable state of the client, whatever the server, the network and the
  scheduler do, the test has been declared over (the count of \<open>TEST_END\<close> signals has reached
  the number of streams, which is when the client announces \<open>TEST_END\<close> to the server) only if
  that many stream goroutines have ended regularly, each with its own signal.
\<close>

theorem end_announced_after_all_streams:
  assumes "client_reach P Q" "main_loop Q = Inl n" "streamNum (pw P) \<le> n"
  shows "unat (streamNum (pw P)) \<le> emitted Q \<and> emitted Q + length (workers Q) \<le> spawned Q"
  using count_reach [OF assms(1)] assms(2,3) by (simp add: count_inv_def)

text \<open>
  C19: When no more goroutines were started than there are streams, the branch of \<open>runClient\<close>
  for too many \<open>TEST_END\<close> signals is never taken: the main loop can return an error only in
  the turn that announces the end, when the announcement cannot be written.
\<close>

theorem never_too_many_ends:
  assumes "client_reach P Q" "main_loop Q = Inl n" "spawned Q \<le> unat (streamNum (pw P))"
    and "runClient_turn n (pw Q) = (Ret (MainReturn r), w)"
  shows "r = 0 \<or> n + 1 = streamNum (pw P)"
proof (rule ccontr)
  assume no: "\<not> (r = 0 \<or> n + 1 = streamNum (pw P))"
  let ?num = "streamNum (pw P)"
  note inv = count_reach [OF assms(1)]
  have side: "streamNum (pw Q) = ?num" and lt: "unat ?num < 2 ^ 63"
    and cnt: "unat n \<le> unat ?num + 1" "unat n + ends_in (pw Q) = emitted Q + (if ?num \<le> n then 1 else 0)"
      "emitted Q \<le> spawned Q"
    using inv assms(2) by (simp_all add: count_inv_def side_view_def)
  from turn_error [OF assms(4)] no side have "0 < ends_in (pw Q)" "?num + 1 < n + 1" by auto
  then have "unat ?num < unat n"
    using unat_succ [OF lt cnt(1)] unat_succ [OF lt, of ?num] by (simp add: word_less_nat_alt)
  with cnt assms(3) \<open>0 < ends_in (pw Q)\<close> show False by (auto split: if_splits)
qed



section \<open>The properties on small runs\<close>

text \<open>
  A client with two streams that have to send four bytes each, after \<open>TEST_RUNNING\<close> has been
  sent by the server; the sending connection is a parameter.
\<close>

definition run_world :: "uint \<Rightarrow> conn \<Rightarrow> world" where
  "run_world msg c = small_test
     \<lparr>setting := (setting small_test)\<lparr>bytes := 4\<rparr>,
      streams := [(small_stream SENDER_STREAM)\<lparr>conn := c\<rparr>, small_stream SENDER_STREAM],
      ctrlConn := Some (quiet_conn\<lparr>c_rd := [Chunk (PutUint32 (ucast msg))]\<rparr>)\<rparr>"

definition run_start :: "uint \<Rightarrow> conn \<Rightarrow> client_proc" where
  "run_start msg c = \<lparr>pw = run_world msg c, main_loop = Inl 0, handler = Some [0, 0, 0, 0], workers = [],
     spawned = 0, emitted = 0\<rparr>"

lemma run_start_ok: "client_reach (run_start msg c) (run_start msg c)"
  by (rule client_here)
    (simp add: client_start_def run_start_def run_world_def small_test_def NewIperfTest_def)

lemma by_fst: "fst x = Ret a \<Longrightarrow> x = (Ret a, snd x)"
  by (cases x) simp

lemma run_start_num: "streamNum (pw (run_start msg c)) = 2"
  by (simp add: run_start_def run_world_def small_test_def NewIperfTest_def)

text \<open>The states of the world after the handler, the first turn and the two tickers.\<close>

definition run_w1 :: "conn \<Rightarrow> world" where
  "run_w1 c = snd (handleClientCtrlMsg [0, 0, 0, 0] (run_world TEST_RUNNING c))"

definition run_w2 :: "conn \<Rightarrow> world" where
  "run_w2 c = snd (runClient_turn 0 (run_w1 c))"

definition run_w3 :: "conn \<Rightarrow> world" where
  "run_w3 c = snd (iperfSend_start 0 (run_w2 c))"

definition run_w4 :: "conn \<Rightarrow> world" where
  "run_w4 c = snd (stream_pass True 0 (run_w3 c))"

definition broken_conn :: conn where
  "broken_conn = quiet_conn\<lparr>c_wr := [WriteRet 0 (Some OpError)]\<rparr>"

lemma run_steps:
  assumes "c \<in> {quiet_conn, broken_conn}"
  shows "fst (handleClientCtrlMsg [0, 0, 0, 0] (run_world TEST_RUNNING c)) = Ret (Some [32, 0, 0, 0])"
    "fst (runClient_turn 0 (run_w1 c)) = Ret (MainNext 0 [(0, True), (1, True)])"
    "fst (iperfSend_start 0 (run_w2 c)) = Ret ()" "fst (stream_pass True 0 (run_w3 c)) = Ret True"
proof -
  have "fst (handleClientCtrlMsg [0, 0, 0, 0] (run_world TEST_RUNNING quiet_conn)) = Ret (Some [32, 0, 0, 0])"
    "fst (handleClientCtrlMsg [0, 0, 0, 0] (run_world TEST_RUNNING broken_conn)) = Ret (Some [32, 0, 0, 0])"
    "fst (runClient_turn 0 (run_w1 quiet_conn)) = Ret (MainNext 0 [(0, True), (1, True)])"
    "fst (runClient_turn 0 (run_w1 broken_conn)) = Ret (MainNext 0 [(0, True), (1, True)])"
    "fst (iperfSend_start 0 (run_w2 quiet_conn)) = Ret ()" "fst (iperfSend_start 0 (run_w2 broken_conn)) = Ret ()"
    "fst (stream_pass True 0 (run_w3 quiet_conn)) = Ret True" "fst (stream_pass True 0 (run_w3 broken_conn)) = Ret True"
    by code_simp+
  with assms show "fst (handleClientCtrlMsg [0, 0, 0, 0] (run_world TEST_RUNNING c)) = Ret (Some [32, 0, 0, 0])"
    "fst (runClient_turn 0 (run_w1 c)) = Ret (MainNext 0 [(0, True), (1, True)])"
    "fst (iperfSend_start 0 (run_w2 c)) = Ret ()" "fst (stream_pass True 0 (run_w3 c)) = Ret True"
    by auto
qed

definition run_proc :: "conn \<Rightarrow> client_proc" where
  "run_proc c = \<lparr>pw = run_w4 c, main_loop = Inl 0, handler = Some [32, 0, 0, 0],
     workers = [(1, True, False)], spawned = 2, emitted = ends_in (run_w4 c) - ends_in (run_w3 c)\<rparr>"

lemma run_proc_reach:
  assumes "c \<in> {quiet_conn, broken_conn}"
  shows "client_reach (run_start TEST_RUNNING c) (run_proc c)"
proof -
  note st = run_steps [OF assms, THEN by_fst, folded run_w1_def run_w2_def run_w3_def run_w4_def]
  let ?P0 = "run_start TEST_RUNNING c"
  let ?gs = "[(0, True), (1, True)] :: (nat \<times> bool) list"
  let ?P1 = "?P0\<lparr>pw := run_w1 c, handler := Some [32, 0, 0, 0]\<rparr>"
  let ?P2 = "?P1\<lparr>pw := run_w2 c, main_loop := Inl 0, workers := workers ?P1 @ map start_worker ?gs,
    spawned := spawned ?P1 + length ?gs\<rparr>"
  let ?P3 = "?P2\<lparr>pw := run_w3 c, workers := [] @ (0, True, True) # [(1, True, False)]\<rparr>"
  let ?P4 = "?P3\<lparr>pw := run_w4 c, workers := [] @ (if True then [] else [(0, True, True)]) @ [(1, True, False)],
    emitted := emitted ?P3 + (ends_in (run_w4 c) - ends_in (pw ?P3))\<rparr>"
  have "client_step ?P0 ?P1" using st(1) by (intro cs_handler) (simp_all add: run_start_def)
  moreover have "client_step ?P1 ?P2" using st(2) by (intro cs_main) (simp_all add: run_start_def)
  moreover have "client_step ?P2 ?P3"
    using st(3) by (intro cs_start) (simp_all add: run_start_def start_worker_def)
  moreover have "client_step ?P3 ?P4" using st(4) by (intro cs_pass) (simp_all add: run_start_def)
  ultimately have "client_reach ?P0 ?P4" using run_start_ok client_next by blast
  moreover have "?P4 = run_proc c" by (simp add: run_proc_def run_start_def)
  ultimately show ?thesis by simp
qed


theorem never_too_many_ends_witness:
  "\<exists>Q w. client_reach (run_start IPERF_DONE quiet_conn) Q \<and> runClient_turn 0 (pw Q) = (Ret (MainReturn 0), w)"
proof -
  let ?P = "run_start IPERF_DONE quiet_conn"
  let ?w = "snd (handleClientCtrlMsg [0, 0, 0, 0] (run_world IPERF_DONE quiet_conn))"
  let ?Q = "?P\<lparr>pw := ?w, handler := None\<rparr>"
  have "fst (handleClientCtrlMsg [0, 0, 0, 0] (run_world IPERF_DONE quiet_conn)) = Ret None" by code_simp
  from by_fst [OF this] have "client_step ?P ?Q"
    by (intro cs_handler) (simp_all add: run_start_def)
  then have r: "client_reach ?P ?Q" by (rule client_next [OF run_start_ok])
  obtain x v where t: "runClient_turn 0 (pw ?Q) = (x, v)" by force
  have x: "fst (runClient_turn 0 ?w) = Ret (MainReturn 0)" by code_simp
  with t have t: "runClient_turn 0 (pw ?Q) = (Ret (MainReturn 0), v)" by simp
  have "spawned ?Q \<le> unat (streamNum (pw ?P))" by (simp add: run_start_def)
  moreover have "main_loop ?Q = Inl 0" by (simp add: run_start_def)
  ultimately have "0 = (0 :: int) \<or> 0 + 1 = streamNum (pw ?P)"
    using never_too_many_ends [OF r _ _ t] by blast
  then show ?thesis using r t by blast
qed

text \<open>The second stream sends its bytes, and both signals are counted.\<close>

definition run_w5 :: world where "run_w5 = snd (iperfSend_start 1 (run_w4 quiet_conn))"
definition run_w6 :: world where "run_w6 = snd (stream_pass True 1 run_w5)"
definition run_w7 :: world where "run_w7 = snd (runClient_turn 0 run_w6)"
definition run_w8 :: world where "run_w8 = snd (runClient_turn 1 run_w7)"

lemma run_steps_more:
  "fst (iperfSend_start 1 (run_w4 quiet_conn)) = Ret ()" "fst (stream_pass True 1 run_w5) = Ret True"
  "fst (runClient_turn 0 run_w6) = Ret (MainNext 1 [])" "fst (runClient_turn 1 run_w7) = Ret (MainNext 2 [])"
  by code_simp+

theorem end_announced_after_all_streams_witness:
  "\<exists>Q. client_reach (run_start TEST_RUNNING quiet_conn) Q \<and> main_loop Q = Inl 2 \<and> 2 \<le> emitted Q"
proof -
  note st = run_steps_more [THEN by_fst, folded run_w5_def run_w6_def run_w7_def run_w8_def]
  let ?P4 = "run_proc quiet_conn"
  let ?P5 = "?P4\<lparr>pw := run_w5, workers := [] @ (1, True, True) # []\<rparr>"
  let ?P6 = "?P5\<lparr>pw := run_w6, workers := [] @ (if True then [] else [(1, True, True)]) @ [],
    emitted := emitted ?P5 + (ends_in run_w6 - ends_in (pw ?P5))\<rparr>"
  let ?none = "[] :: (nat \<times> bool) list"
  let ?P7 = "?P6\<lparr>pw := run_w7, main_loop := Inl 1, workers := workers ?P6 @ map start_worker ?none,
    spawned := spawned ?P6 + length ?none\<rparr>"
  let ?P8 = "?P7\<lparr>pw := run_w8, main_loop := Inl 2, workers := workers ?P7 @ map start_worker ?none,
    spawned := spawned ?P7 + length ?none\<rparr>"
  have "client_step ?P4 ?P5" using st(1) by (intro cs_start) (simp_all add: run_proc_def)
  moreover have "client_step ?P5 ?P6" using st(2) by (intro cs_pass) (simp_all add: run_proc_def)
  moreover have "client_step ?P6 ?P7" using st(3) by (intro cs_main) (simp_all add: run_proc_def)
  moreover have "client_step ?P7 ?P8" using st(4) by (intro cs_main) (simp_all add: run_proc_def)
  moreover have "client_reach (run_start TEST_RUNNING quiet_conn) ?P4" by (rule run_proc_reach) simp
  ultimately have r: "client_reach (run_start TEST_RUNNING quiet_conn) ?P8" using client_next by blast
  have m: "main_loop ?P8 = Inl 2" by simp
  have "unat (streamNum (pw (run_start TEST_RUNNING quiet_conn))) \<le> emitted ?P8"
    using end_announced_after_all_streams [OF r m] by (simp add: run_start_num)
  then have "2 \<le> emitted ?P8" unfolding run_start_num by simp
  with r m show ?thesis by blast
qed


end
