(* ===== verification/Server_Run.thy ===== *)
theory Server_Run
  imports Frames
begin

text \<open>
  Properties of the server: the setup of a test, the end of a test on the control channel,
  timers that are stopped or left over, and the failures a client can cause.
\<close>

section \<open>Setting up a test\<close>

lemma acceptStreams_creates:
  assumes "acceptStreams w = (Ret r, w')" "0 \<le> r"
  shows "same_setup w w' \<and> (\<exists>new. streams w' = streams w @ new \<and> length new = unat (streamNum w) \<and>
    list_all (created w) new)"
  using add_streams_creates [OF asks_env_accept assms(1) [unfolded acceptStreams_def] assms(2)] .

text \<open>
  C4: When the turn of the server loop that handles \<open>IPERF_CREATE_STREAM\<close> goes on, the server
  has accepted exactly \<open>streamNum\<close> streams, all with the role of its direction; the books of
  the test are open; the state is \<open>TEST_RUNNING\<close>; and the main loop will next see
  \<open>TEST_START\<close> and \<open>TEST_RUNNING\<close>, in this order.
\<close>

theorem server_sets_up_test:
  assumes "ctrlChan w = IPERF_CREATE_STREAM # q" "proto w = Some p" "streams w = []"
    and "bytesSent w = 0" "bytesReceived w = 0" "runServer_turn w = (Ret (LoopNext gs), w')"
  shows "gs = [] \<and> fresh_test (mode w) w' \<and> state w' = TEST_RUNNING \<and>
    ctrlChan w' = q @ [TEST_START, TEST_RUNNING] \<and>
    map role (streams w') = replicate (unat (streamNum w)) (if mode w then SENDER_STREAM else RECEIVER_STREAM)"
proof -
  let ?w = "w\<lparr>ctrlChan := q\<rparr>"
  have rc: "ctrl_recv w = (Ret IPERF_CREATE_STREAM, ?w)"
    using assms(1) by (simp add: ctrl_recv_def chan_recv_def)
  have body: "go_bind acceptStreams (\<lambda>r. if r < 0 then close_and LoopWaitDone else
      go_bind startTest (\<lambda>r. if r < 0 then close_and LoopWaitDone else go_return (LoopNext []))) ?w =
      (Ret (LoopNext gs), w')"
    using assms(6) rc by (simp add: runServer_turn_def go_bind_Ret)
  have noloop: "close_and LoopWaitDone u \<noteq> (Ret (LoopNext gs), v)" for u v
    by (auto simp: close_and_def go_bind_eq_Ret go_simps)
  from body obtain r w1 where acc: "acceptStreams ?w = (Ret r, w1)"
    and rest: "(if r < 0 then close_and LoopWaitDone else go_bind startTest (\<lambda>r.
      if r < 0 then close_and LoopWaitDone else go_return (LoopNext []))) w1 = (Ret (LoopNext gs), w')"
    by (auto simp: go_bind_eq_Ret [of acceptStreams])
  from rest noloop have r: "0 \<le> r" by (cases "r < 0") auto
  from rest r obtain x where st: "startTest w1 = (Ret x, w')" "0 \<le> x" "gs = []"
    using noloop by (auto simp: go_bind_eq_Ret [of startTest] go_simps split: if_splits)
  from acceptStreams_creates [OF acc r] assms(3) have
    su: "same_setup ?w w1" and new: "length (streams w1) = unat (streamNum w)" "list_all (created ?w) (streams w1)"
    by auto
  have w1: "proto w1 = Some p" "bytesSent w1 = 0" "bytesReceived w1 = 0" "mode w1 = mode w" "ctrlChan w1 = q"
    using su assms(2,4,5) by (simp_all add: same_setup_def)
  have "list_all (\<lambda>sp. result sp = zero_results) (streams w1)"
    using new(2) by (auto simp: list_all_iff created_def)
  from startTest_ready [OF w1(1) this w1(2,3) st(1,2)] w1
  have "test_ready (mode w) (q @ [TEST_START, TEST_RUNNING]) (map role (streams w1)) w'" "state w' = TEST_RUNNING"
    by simp_all
  moreover have "map role (streams w1) = replicate (unat (streamNum w)) (if mode w then SENDER_STREAM else RECEIVER_STREAM)"
    using new by (intro replicate_eqI) (auto simp: list_all_iff created_def)
  ultimately show ?thesis using st(3) by (simp add: test_ready_def)
qed

section \<open>The end of a test\<close>

definition chan_view :: "uint list \<Rightarrow> world \<Rightarrow> bool" where
  "chan_view q w \<longleftrightarrow> ctrlChan w = q"

lemma chan_of_view:
  assumes "\<And>v. keeps (ctrl_view v) m"
  shows "keeps (chan_view q) m"
proof (rule keepsI)
  fix w assume w: "chan_view q w"
  have "ctrl_view (ctrlChan w, streamNum w, isServer w) w" by (simp add: ctrl_view_def)
  from keepsD [OF assms this] w show "chan_view q (snd (m w))"
    by (simp add: chan_view_def ctrl_view_def)
qed

lemma chan_run:
  assumes "\<And>v. keeps (ctrl_view v) m" "m w = (r, w')"
  shows "ctrlChan w' = ctrlChan w"
  using keeps_run [OF chan_of_view [OF assms(1)], of "ctrlChan w" w] assms(2) by (simp add: chan_view_def)


section \<open>Timers left over\<close>


text \<open>The three timers of a test, as objects on the heap.\<close>

definition timer_at :: "nat \<Rightarrow> ITimer \<Rightarrow> world \<Rightarrow> bool" where
  "timer_at r t w \<longleftrightarrow> it_timer t = Some r \<and> r < length (timers w)"

lemma stop_if_run:
  "timer_at r t w \<Longrightarrow> stop_if t w = (Ret (), upd_timer r (\<lambda>ob. ob\<lparr>o_armed := False\<rparr>) w)"
  by (simp add: stop_if_def timer_Stop_def timer_at_def go_simps)

lemma upd_timer_fields [simp]:
  "statsTicker (upd_timer r f w) = statsTicker w" "reportTicker (upd_timer r f w) = reportTicker w"
  "proto (upd_timer r f w) = proto w" "timer (upd_timer r f w) = timer w"
  by (simp_all add: upd_timer_def)


section \<open>What a client can do to a server\<close>


text \<open>
  C36: A client that names a protocol the server does not implement (such as \<open>udp\<close>, which the
  command line accepts) crashes a server that has not run a test before: \<open>getParams\<close> ignores
  the failure of \<open>setProtocol\<close> and reports success, and the next step calls a method of the
  missing protocol.
\<close>

theorem unknown_protocol_crashes_server:
  assumes "isServer w" "proto w = None" "\<And>p. ProtoName q \<noteq> protocol_name p"
    and "ctrlConn w = Some c" "\<not> c_closed c" "c_rd c = Chunk (json_Marshal (params_json q)) # r"
    and "plain (ProtoName q)" "length (ProtoName q) \<le> 20"
  shows "\<exists>w'. getParams w = (Ret 0, w') \<and> fst (open_streams w') = Panicked NilDeref"
proof -
  let ?w = "w\<lparr>ctrlConn := Some (c\<lparr>c_rd := r\<rparr>)\<rparr>"
  have "setProtocol (ProtoName q) ?w = (Ret (- 1), ?w)"
    by (rule setProtocol_unknown [OF assms(3)])
  then have "take_params q ?w = (Ret 0, apply_params q (?w\<lparr>reverse := Reverse q,
      mode := (if Reverse q then IPERF_SENDER else IPERF_RECEIVER)\<rparr>))"
    using assms(1) by (simp add: take_params_def setTestReverse_def go_simps go_bind_Ret)
  moreover have "fst (open_streams (apply_params q (?w\<lparr>reverse := Reverse q,
      mode := (if Reverse q then IPERF_SENDER else IPERF_RECEIVER)\<rparr>))) = Panicked NilDeref"
    using assms(1,2) by (simp add: open_streams_def apply_params_def go_simps go_bind_Panicked)
  ultimately show ?thesis
    using getParams_whole [OF assms(4-8)] by auto
qed

section \<open>The properties on a small server\<close>

definition small_server :: world where
  "small_server = (NewIperfTest (\<lambda>_. quiet_env))
     \<lparr>isServer := True, mode := IPERF_RECEIVER, proto := Some TCPProto, protocols := [TCPProto, rudpProto, kcpProto],
      duration := 10, interval := 1000, streamNum := 2, setting := zero_setting\<lparr>blksize := 4, burst := True\<rparr>,
      ctrlConn := Some quiet_conn, listener := Some 0, protoListener := Some 0, listeners := [False]\<rparr>"

definition server_creating :: world where
  "server_creating = small_server\<lparr>ctrlChan := [IPERF_CREATE_STREAM]\<rparr>"

theorem server_sets_up_test_witness:
  "ctrlChan (snd (runServer_turn server_creating)) = [TEST_START, TEST_RUNNING] \<and>
   length (streams (snd (runServer_turn server_creating))) = 2"
proof -
  have r: "runServer_turn server_creating = (Ret (LoopNext []), snd (runServer_turn server_creating))"
    by (rule fst_Ret) code_simp
  have f: "ctrlChan server_creating = IPERF_CREATE_STREAM # []" "proto server_creating = Some TCPProto"
    "streams server_creating = []" "bytesSent server_creating = 0" "bytesReceived server_creating = 0"
    "unat (streamNum server_creating) = 2"
    by code_simp+
  from server_sets_up_test [OF f(1-5) r] have
    "map role (streams (snd (runServer_turn server_creating))) =
       replicate 2 (if mode server_creating then SENDER_STREAM else RECEIVER_STREAM)"
    "ctrlChan (snd (runServer_turn server_creating)) = [TEST_START, TEST_RUNNING]"
    using f(6) by simp_all
  then show ?thesis by (metis length_map length_replicate)
qed

text \<open>The test without streams, to which the client sends an empty array of results.\<close>

definition server_ending :: world where
  "server_ending = small_server\<lparr>streamNum := 0,
     ctrlConn := Some (quiet_conn\<lparr>c_rd := [Chunk (PutUint32 2 @ bytes_of ''[]'')]\<rparr>)\<rparr>"


text \<open>A server with the timers of a test, whose control connection breaks.\<close>

definition three_timers :: "timer_obj list" where
  "three_timers = [new_oneshot ServerTimer 15000, new_ticker ServerStats 1000 9, new_ticker ServerReport 1000 9]"

definition timer_ref :: "nat \<Rightarrow> ITimer" where
  "timer_ref r = \<lparr>it_timer = Some r, it_done = Some r\<rparr>"

definition server_timed :: world where
  "server_timed = small_server\<lparr>timers := three_timers, timer := timer_ref 0, statsTicker := timer_ref 1,
     reportTicker := timer_ref 2, streams := [small_stream RECEIVER_STREAM],
     ctrlConn := Some (quiet_conn\<lparr>c_rd := [ReadRet 0 (Some OpError)]\<rparr>)\<rparr>"

lemma server_timed_simps:
  "timer server_timed = timer_ref 0" "statsTicker server_timed = timer_ref 1"
  "reportTicker server_timed = timer_ref 2" "timers server_timed = three_timers"
  "length three_timers = 3" "proto server_timed = Some TCPProto" "ctrlChan server_timed = []"
  "ctrlConn server_timed = Some (quiet_conn\<lparr>c_rd := [ReadRet 0 (Some OpError)]\<rparr>)"
  "o_proc (three_timers ! 0) = ServerTimer" "\<not> o_periodic (three_timers ! 0)"
  "o_alive (three_timers ! 0)" "o_armed (three_timers ! 0)"
  "\<not> c_closed (quiet_conn\<lparr>c_rd := [ReadRet 0 (Some OpError)]\<rparr>)"
  "c_rd (quiet_conn\<lparr>c_rd := [ReadRet 0 (Some OpError)]\<rparr>) = ReadRet 0 (Some OpError) # []"
  by (simp_all add: server_timed_def small_server_def small_test_def NewIperfTest_def three_timers_def
      new_oneshot_def new_ticker_def quiet_conn_def)

text \<open>The next test: the reset after the failure, and a new stream.\<close>

definition next_test :: world where
  "next_test = (reset_test (snd (handleServerCtrlMsg [0, 0, 0, 0] server_timed)))
     \<lparr>streams := [small_stream RECEIVER_STREAM], state := TEST_RUNNING\<rparr>"




definition udp_params :: stream_params where
  "udp_params = (params_of TCPProto small_test)\<lparr>ProtoName := UDP_NAME\<rparr>"

definition server_asked :: world where
  "server_asked = small_server\<lparr>proto := None,
     ctrlConn := Some (quiet_conn\<lparr>c_rd := [Chunk (json_Marshal (params_json udp_params))]\<rparr>)\<rparr>"

theorem unknown_protocol_crashes_server_witness:
  "\<exists>w'. getParams server_asked = (Ret 0, w') \<and> fst (open_streams w') = Panicked NilDeref"
proof (rule unknown_protocol_crashes_server)
  show "isServer server_asked" "proto server_asked = None"
    by (simp_all add: server_asked_def small_server_def NewIperfTest_def)
  show "ctrlConn server_asked = Some (quiet_conn\<lparr>c_rd := [Chunk (json_Marshal (params_json udp_params))]\<rparr>)"
    by (simp add: server_asked_def)
  show "ProtoName udp_params \<noteq> protocol_name p" for p
    by (cases p) (simp_all add: udp_params_def proto_names)
  show "plain (ProtoName udp_params)" "length (ProtoName udp_params) \<le> 20"
    by (simp_all add: udp_params_def UDP_NAME_def plain_lits)
qed (simp_all add: quiet_conn_def)

end
