(* ===== verification/Wellformed.thy ===== *)
theory Wellformed
  imports Client_Run Server_Run
begin

text \<open>
  The well-formed states of a process: channels within their capacity, tickers within their
  limit, and a direction that agrees with the side of the test. Every operation keeps them.
\<close>

definition wf_timer :: "timer_obj \<Rightarrow> bool" where
  "wf_timer ob \<longleftrightarrow> length (o_done ob) \<le> 1 \<and> (o_periodic ob \<longrightarrow> o_cnt ob \<le> o_max ob)"

definition wf_world :: "world \<Rightarrow> bool" where
  "wf_world w \<longleftrightarrow> length (ctrlChan w) \<le> ctrlChan_cap \<and> length (chStats w) \<le> chStats_cap \<and>
     list_all wf_timer (timers w) \<and> mode w = (reverse w = isServer w)"

lemma wf_upd_timer:
  assumes "wf_world w" "r < length (timers w) \<Longrightarrow> wf_timer (f (timers w ! r))"
  shows "wf_world (upd_timer r f w)"
  using assms by (cases "r < length (timers w)") (auto simp: wf_world_def upd_timer_def list_all_update)

lemma wf_nth: "wf_world w \<Longrightarrow> r < length (timers w) \<Longrightarrow> wf_timer (timers w ! r)"
  using list_all_nth' [of wf_timer "timers w" r] by (simp add: wf_world_def)

lemma wf_signal: "keeps wf_world (timer_signal t)"
proof (rule keepsI)
  fix w assume w: "wf_world w"
  show "wf_world (snd (timer_signal t w))"
    using w by (auto simp: timer_signal_def wf_timer_def split: option.splits
        intro!: wf_upd_timer dest: wf_nth)
qed

lemma wf_stop: "keeps wf_world (timer_Stop t)"
proof (rule keepsI)
  fix w assume w: "wf_world w"
  show "wf_world (snd (timer_Stop t w))"
    using w by (auto simp: timer_Stop_def go_simps wf_timer_def split: option.splits
        intro!: wf_upd_timer dest: wf_nth)
qed

interpretation wf: chan_frame wf_world
proof unfold_locales
  fix w w' ob t st
  show "wf_world w \<Longrightarrow> same_frame w w' \<Longrightarrow> wf_world w'"
    by (simp add: wf_world_def same_frame_def)
  show "keeps wf_world stats_send"
    by (rule keepsI) (auto simp: stats_send_def chan_send_def wf_world_def)
  show "keeps wf_world stats_recv"
    by (rule keepsI) (auto simp: stats_recv_def chan_recv_def wf_world_def split: list.splits)
  show "o_cnt ob = 0 \<Longrightarrow> o_done ob = [] \<Longrightarrow> keeps wf_world (new_timer ob)"
    by (rule keepsI) (simp add: new_timer_run wf_world_def wf_timer_def)
  show "keeps wf_world (timer_signal t)" by (rule wf_signal)
  show "keeps wf_world (timer_Stop t)" by (rule wf_stop)
  show "keeps wf_world (ctrl_send st)"
    by (rule keepsI) (auto simp: ctrl_send_def chan_send_def wf_world_def)
  show "keeps wf_world ctrl_recv"
    by (rule keepsI) (auto simp: ctrl_recv_def chan_recv_def wf_world_def split: list.splits)
qed

lemma wf_take_params: "keeps wf_world (take_params p)"
  unfolding take_params_def setTestReverse_def
proof (intro keeps_intros keeps_modify)
  show "keeps wf_world (setProtocol (ProtoName p))"
    by (rule keepsI) (auto simp: setProtocol_def wf_world_def split: option.splits)
qed (simp_all add: wf_world_def apply_params_def)

interpretation wf: test_frame wf_world
proof unfold_locales
  have "keeps wf_world getParams"
    unfolding getParams_def by (auto split: prod.splits intro!: keeps_intros wf_take_params)
  then show "keeps wf_world exchangeParams"
    unfolding exchangeParams_def by (auto intro!: keeps_intros)
qed

section \<open>Tickers\<close>

text \<open>
  What decides about a ticker's life: its count, its limit, whether it is periodic and whether
  its goroutine is alive. Only the goroutine itself changes it.
\<close>

definition ticker_core :: "timer_obj \<Rightarrow> uint \<times> uint \<times> bool \<times> bool" where
  "ticker_core ob = (o_cnt ob, o_max ob, o_periodic ob, o_alive ob)"

definition core_view :: "nat \<Rightarrow> uint \<times> uint \<times> bool \<times> bool \<Rightarrow> world \<Rightarrow> bool" where
  "core_view r v w \<longleftrightarrow> r < length (timers w) \<and> ticker_core (timers w ! r) = v"

lemma core_upd:
  "core_view r v w \<Longrightarrow> (\<And>ob. ticker_core (f ob) = ticker_core ob) \<Longrightarrow> core_view r v (upd_timer k f w)"
  by (auto simp: core_view_def upd_timer_def nth_list_update)

interpretation core: frame "core_view r v" for r v
proof unfold_locales
  fix w w' ob t
  show "core_view r v w \<Longrightarrow> same_frame w w' \<Longrightarrow> core_view r v w'"
    by (simp add: core_view_def same_frame_def)
  show "keeps (core_view r v) stats_send"
    by (rule keepsI) (auto simp: stats_send_def chan_send_def core_view_def)
  show "keeps (core_view r v) stats_recv"
    by (rule keepsI) (auto simp: stats_recv_def chan_recv_def core_view_def split: list.splits)
  show "keeps (core_view r v) (new_timer ob)"
    by (rule keepsI) (auto simp: new_timer_run core_view_def nth_append)
  show "keeps (core_view r v) (timer_signal t)"
    by (rule keepsI) (auto simp: timer_signal_def ticker_core_def split: option.splits intro!: core_upd)
  show "keeps (core_view r v) (timer_Stop t)"
    by (rule keepsI) (auto simp: timer_Stop_def go_simps ticker_core_def split: option.splits intro!: core_upd)
qed

lemma core_run:
  assumes "\<And>v. keeps (core_view r v) m" "r < length (timers w)" "m w = (res, w')"
  shows "r < length (timers w') \<and> ticker_core (timers w' ! r) = ticker_core (timers w ! r)"
proof -
  have "core_view r (ticker_core (timers w ! r)) w" using assms(2) by (simp add: core_view_def)
  from keeps_run [OF assms(1) this assms(3)] show ?thesis by (simp add: core_view_def)
qed

text \<open>The functions of the client or of the server.\<close>

definition timer_funs :: "(timer_proc \<Rightarrow> (unit, world) go) \<Rightarrow> bool" where
  "timer_funs run \<longleftrightarrow> (run = client_timer \<or> run = server_timer)"

lemma core_timer_funs: "timer_funs run \<Longrightarrow> keeps (core_view r v) (run pr)"
  unfolding timer_funs_def by (auto intro: keeps_intros)

lemma wf_tick:
  assumes run: "timer_funs run" shows "keeps wf_world (goroutine_tick run r)"
proof (rule keepsI)
  fix w assume w: "wf_world w"
  let ?ob = "timers w ! r"
  have wr: "keeps wf_world (run pr)" for pr
    using run unfolding timer_funs_def by (auto intro: keeps_intros)
  have off: "wf_world (upd_timer r (\<lambda>ob. ob\<lparr>o_armed := False\<rparr>) w)"
    "wf_world (upd_timer r (\<lambda>ob. ob\<lparr>o_alive := False, o_armed := False\<rparr>) w)"
    using w by (auto intro!: wf_upd_timer dest: wf_nth simp: wf_timer_def)
  let ?count = "go_modify (upd_timer r (\<lambda>ob. ob\<lparr>o_cnt := o_cnt ob + 1\<rparr>))"
  have "wf_world (snd (go_then (run (o_proc ?ob)) ?count w))"
    if lt: "o_cnt ?ob < o_max ?ob" and r: "r < length (timers w)"
  proof -
    obtain res w1 where run1: "run (o_proc ?ob) w = (res, w1)" by force
    have w1: "wf_world w1" by (rule keeps_run [OF wr w run1])
    have "o_cnt (timers w1 ! r) < o_max (timers w1 ! r)"
      using core_run [OF core_timer_funs [OF run] r run1] lt by (simp add: ticker_core_def)
    then have "r < length (timers w1) \<Longrightarrow> wf_timer ((timers w1 ! r)\<lparr>o_cnt := o_cnt (timers w1 ! r) + 1\<rparr>)"
      using wf_nth [OF w1, of r] inc_le by (auto simp: wf_timer_def)
    from wf_upd_timer [where f = "\<lambda>ob. ob\<lparr>o_cnt := o_cnt ob + 1\<rparr>", OF w1 this] w1 run1 show ?thesis
      by (cases res) (simp_all add: go_then_def go_bind_def go_modify_def)
  qed
  then show "wf_world (snd (goroutine_tick run r w))"
    using w off keepsD [OF wr off(1)]
    by (auto simp: goroutine_tick_def Let_def not_le)
qed

lemma wf_done: "keeps wf_world (goroutine_done r)"
  by (rule keepsI)
    (auto simp: goroutine_done_def wf_timer_def intro!: wf_upd_timer dest: wf_nth)

section \<open>Every state of a client\<close>

lemma wf_client_step:
  assumes "client_step P Q" "wf_world (pw P)" shows "wf_world (pw Q)"
  using assms
proof (cases rule: client_step.cases)
  case (cs_main n n' gs w)
  with assms(2) keeps_run [OF wf.main_turn] show ?thesis by auto
next
  case (cs_return n r w)
  with assms(2) keeps_run [OF wf.main_turn] show ?thesis by auto
next
  case (cs_handler n buf h w)
  with assms(2) keeps_run [OF wf.client_handler] show ?thesis by auto
next
  case (cs_start n gs i hs w)
  have "keeps wf_world (iperfSend_start i)"
    unfolding iperfSend_start_def by (intro keeps_intros)
  from keeps_run [OF this] assms(2) cs_start show ?thesis by auto
next
  case (cs_pass n gs i s hs b w)
  have "keeps wf_world (stream_pass s i)" unfolding stream_pass_def by (auto intro: keeps_intros)
  from keeps_run [OF this] assms(2) cs_pass show ?thesis by auto
next
  case (cs_timer n r w)
  have "timer_funs client_timer" by (simp add: timer_funs_def)
  with cs_timer assms(2) keeps_run [OF wf_tick] show ?thesis by auto
next
  case (cs_timer_done n r w)
  with assms(2) keeps_run [OF wf_done] show ?thesis by auto
qed

text \<open>
  C13: In every state a client can reach, whatever the interleaving of its goroutines, both
  channels are within their capacity, no channel of a timer holds more than one signal, no
  ticker has called its function more often than its limit, and the direction of the test
  agrees with the reverse option and the side.
\<close>

theorem client_stays_wellformed:
  assumes "client_reach P Q" "wf_world (pw P)"
  shows "wf_world (pw Q)"
  using assms by induction (auto intro: wf_client_step)

theorem client_stays_wellformed_witness:
  "wf_world (pw (run_start TEST_RUNNING quiet_conn)) \<and> wf_world (pw (run_proc quiet_conn))"
proof -
  have w: "wf_world (pw (run_start TEST_RUNNING quiet_conn))"
    by (simp add: run_start_def run_world_def small_test_def NewIperfTest_def wf_world_def)
  have "client_reach (run_start TEST_RUNNING quiet_conn) (run_proc quiet_conn)"
    by (rule run_proc_reach) simp
  from client_stays_wellformed [OF this w] w show ?thesis by blast
qed

section \<open>Tickers end\<close>

text \<open>How many more ticks a ticker can answer: the calls it has left, and the one that ends it.\<close>

definition tick_budget :: "nat \<Rightarrow> world \<Rightarrow> nat" where
  "tick_budget r w =
     (let ob = timers w ! r in if o_alive ob then Suc (unat (o_max ob) - unat (o_cnt ob)) else 0)"

text \<open>
  C16: Tickers end by themselves. Every tick that a ticker of the client or of the server
  answers uses up its budget, and nothing its function does gives it more: it either counts
  one more call below its limit or ends. So a ticker created with a limit of \<open>n\<close> calls its
  function at most \<open>n\<close> times.
\<close>

theorem tick_uses_budget:
  assumes "run = client_timer \<or> run = server_timer"
    and "r < length (timers w)" "o_periodic (timers w ! r)" "goroutine_tick run r w = (Ret (), w')"
  shows "tick_budget r w' < tick_budget r w"
proof -
  let ?ob = "timers w ! r"
  have fs: "timer_funs run" using assms(1) by (simp add: timer_funs_def)
  have alive: "o_alive ?ob" using assms(2,4) by (simp add: goroutine_tick_def split: if_splits)
  show ?thesis
  proof (cases "o_max ?ob \<le> o_cnt ?ob")
    case True
    with assms(2-4) have "\<not> o_alive (timers w' ! r)"
      by (auto simp: goroutine_tick_def Let_def split: if_splits)
    with alive show ?thesis by (simp add: tick_budget_def Let_def)
  next
    case False
    obtain res w1 where run1: "run (o_proc ?ob) w = (res, w1)" by force
    from core_run [OF core_timer_funs [OF fs] assms(2) run1]
    have w1: "r < length (timers w1)" "o_cnt (timers w1 ! r) = o_cnt ?ob" "o_max (timers w1 ! r) = o_max ?ob"
      "o_alive (timers w1 ! r) = o_alive ?ob" by (simp_all add: ticker_core_def)
    have "w' = upd_timer r (\<lambda>ob. ob\<lparr>o_cnt := o_cnt ob + 1\<rparr>) w1"
      using assms(2-4) False run1
      by (cases res) (auto simp: goroutine_tick_def Let_def go_then_def go_bind_def go_modify_def split: if_splits)
    moreover have lt: "unat (o_cnt ?ob) < unat (o_max ?ob)" using False by (simp add: word_le_nat_alt)
    have "unat (o_max ?ob) < 2 ^ LENGTH(64)" by (rule unsigned_less)
    with lt have "unat (o_cnt ?ob + 1) = Suc (unat (o_cnt ?ob))"
      by (subst unat_add_lem [THEN iffD1]) simp_all
    ultimately show ?thesis using w1 alive lt by (simp add: tick_budget_def Let_def)
  qed
qed

theorem tick_uses_budget_witness:
  "tick_budget 1 (snd (goroutine_tick server_timer 1 server_timed)) < tick_budget 1 server_timed \<and>
   tick_budget 1 server_timed = 10"
proof
  have t: "1 < length (timers server_timed)" "o_periodic (timers server_timed ! 1)"
    by (simp_all add: server_timed_simps) (simp add: three_timers_def new_ticker_def)
  have "fst (goroutine_tick server_timer 1 server_timed) = Ret ()" by code_simp
  from tick_uses_budget [OF _ t fst_Ret [OF this]]
  show "tick_budget 1 (snd (goroutine_tick server_timer 1 server_timed)) < tick_budget 1 server_timed" by simp
  show "tick_budget 1 server_timed = 10"
    by (simp add: tick_budget_def server_timed_simps three_timers_def new_ticker_def)
qed

end
