(* ===== verification/Arguments.thy ===== *)
theory Arguments
  imports Go_Flag Wellformed
begin

text \<open>
  The command line: \<open>ParseArguments\<close> and \<open>Print\<close> of \<open>iperf_api.go\<close>, and \<open>main\<close> of \<open>cmd/main.go\<close> up to
  the point where the goroutines of the client or the server start. Levels of the logger are
  left out.
\<close>

section \<open>The flags\<close>

record flags =
  f_h :: bool
  f_s :: bool
  f_c :: string
  f_R :: bool
  f_p :: uint
  f_proto :: string
  f_d :: uint
  f_i :: uint
  f_P :: uint
  f_l :: uint
  f_b :: string
  f_debug :: bool
  f_info :: bool
  f_D :: bool
  f_sw :: uint
  f_rw :: uint
  f_rb :: uint
  f_wb :: uint
  f_f :: uint
  f_nc :: bool
  f_fr :: uint
  f_data :: uint
  f_parity :: uint

definition default_flags :: flags where
  "default_flags = \<lparr>f_h = False, f_s = False, f_c = ''127.0.0.1'', f_R = False, f_p = 5201,
     f_proto = TCP_NAME, f_d = 10, f_i = 1000, f_P = 1, f_l = 4 * 1024, f_b = ''0'', f_debug = False,
     f_info = False, f_D = False, f_sw = 10, f_rw = 512, f_rb = 4 * 1024, f_wb = 4 * 1024, f_f = 10,
     f_nc = True, f_fr = 0, f_data = 0, f_parity = 0\<rparr>"

definition flag_table :: "(string \<times> flags flag_kind) list" where
  "flag_table =
     [(''h'', BoolFlag (\<lambda>v. f_h_update (\<lambda>_. v))), (''s'', BoolFlag (\<lambda>v. f_s_update (\<lambda>_. v))),
      (''c'', StringFlag (\<lambda>v. f_c_update (\<lambda>_. v))), (''R'', BoolFlag (\<lambda>v. f_R_update (\<lambda>_. v))),
      (''p'', UintFlag (\<lambda>v. f_p_update (\<lambda>_. v))), (''proto'', StringFlag (\<lambda>v. f_proto_update (\<lambda>_. v))),
      (''d'', UintFlag (\<lambda>v. f_d_update (\<lambda>_. v))), (''i'', UintFlag (\<lambda>v. f_i_update (\<lambda>_. v))),
      (''P'', UintFlag (\<lambda>v. f_P_update (\<lambda>_. v))), (''l'', UintFlag (\<lambda>v. f_l_update (\<lambda>_. v))),
      (''b'', StringFlag (\<lambda>v. f_b_update (\<lambda>_. v))), (''debug'', BoolFlag (\<lambda>v. f_debug_update (\<lambda>_. v))),
      (''info'', BoolFlag (\<lambda>v. f_info_update (\<lambda>_. v))), (''D'', BoolFlag (\<lambda>v. f_D_update (\<lambda>_. v))),
      (''sw'', UintFlag (\<lambda>v. f_sw_update (\<lambda>_. v))), (''rw'', UintFlag (\<lambda>v. f_rw_update (\<lambda>_. v))),
      (''rb'', UintFlag (\<lambda>v. f_rb_update (\<lambda>_. v))), (''wb'', UintFlag (\<lambda>v. f_wb_update (\<lambda>_. v))),
      (''f'', UintFlag (\<lambda>v. f_f_update (\<lambda>_. v))), (''nc'', BoolFlag (\<lambda>v. f_nc_update (\<lambda>_. v))),
      (''fr'', UintFlag (\<lambda>v. f_fr_update (\<lambda>_. v))), (''data'', UintFlag (\<lambda>v. f_data_update (\<lambda>_. v))),
      (''parity'', UintFlag (\<lambda>v. f_parity_update (\<lambda>_. v)))]"

section \<open>Printing the settings\<close>

definition TAB :: string where "TAB = [CHR 0x09]"

definition common_format :: string where
  "common_format = ''addr:%v'' @ TAB @ ''port:%v'' @ TAB @ ''proto:%v'' @ TAB @ ''interval:%v'' @ TAB @
     ''duration:%v'' @ TAB @ ''NoDelay:%v'' @ TAB @ ''burst:%v'' @ TAB @ ''BlockSize:%v'' @ TAB @ ''StreamNum:%v''"

definition setting_format :: string where
  "setting_format = '' settting: sndWnd:%v'' @ TAB @ ''rcvWnd:%v'' @ TAB @ ''writeBufSize:%vKb'' @ TAB @
     ''readBufSize:%vKb'' @ TAB @ ''noCongestion:%v'' @ TAB @ ''flushInterval:%v'' @ TAB @ ''dataShards:%v'' @
     TAB @ ''parityShards:%v\<newline>''"

definition common_args :: "protocol \<Rightarrow> world \<Rightarrow> fmt_arg list" where
  "common_args p w = [AStr (addr w), AInt (uint (port w)), AStr (protocol_name p), AInt (uint (interval w)),
     AInt (uint (duration w)), ABool (noDelay w), ABool (burst (setting w)), AInt (uint (blksize (setting w))),
     AInt (uint (streamNum w))]"

definition setting_args :: "world \<Rightarrow> fmt_arg list" where
  "setting_args w = (let st = setting w in
     [AInt (uint (sndWnd st)), AInt (uint (rcvWnd st)), AInt (uint (writeBufSize st div 1024)),
      AInt (uint (readBufSize st div 1024)), ABool (noCong st), AInt (uint (flushInterval st)),
      AInt (uint (dataShards st)), AInt (uint (parityShards st))])"

definition Print :: "(unit, world) go" where
  "Print =
     go_bind (go_gets isServer) (\<lambda>srv.
     if srv then go_return () else
     go_bind (go_gets proto) (\<lambda>pr.
     case pr of
       None \<Rightarrow> go_return ()
     | Some p \<Rightarrow>
         go_then (go_Printf ''Iperf started:\<newline>'' []) (
         go_bind (go_gets (common_args p)) (\<lambda>args.
         go_bind (go_gets setting_args) (\<lambda>sargs.
         go_bind (go_gets (fastResend \<circ> setting)) (\<lambda>fr.
         if protocol_name p = TCP_NAME then go_Printf (common_format @ ''\<newline>'') args
         else if protocol_name p = RUDP_NAME then
           go_Printf (common_format @ TAB @ ''fr:%v\<newline>RUDP'' @ setting_format) (args @ [AInt (uint fr)] @ sargs)
         else if protocol_name p = KCP_NAME then
           go_Printf (common_format @ ''\<newline>KCP'' @ setting_format) (args @ sargs)
         else go_return ()))))))"

section \<open>From the flags to the settings\<close>

definition set_setting :: "(iperfSetting \<Rightarrow> iperfSetting) \<Rightarrow> (unit, world) go" where
  "set_setting f = go_modify (\<lambda>w. w\<lparr>setting := f (setting w)\<rparr>)"

definition default_blksize :: "string \<Rightarrow> uint \<Rightarrow> uint" where
  "default_blksize name old =
     (if name = TCP_NAME then DEFAULT_TCP_BLKSIZE
      else if name = UDP_NAME then DEFAULT_UDP_BLKSIZE
      else if name = RUDP_NAME then DEFAULT_RUDP_BLKSIZE
      else if name = KCP_NAME then DEFAULT_RUDP_BLKSIZE
      else old)"

text \<open>
  The bandwidth in bits per second; \<open>None\<close> when it is not a number. The product is one of
  Go's \<open>int\<close>, converted to \<open>uint\<close>.
\<close>

definition bandwidth_rate :: "string \<Rightarrow> uint option" where
  "bandwidth_rate bw =
     (let times8 = (\<lambda>k. map_option (\<lambda>n. word_of_int (n * k * 8))) in
      if last bw = CHR ''M'' then times8 MB_TO_B (Atoi (butlast bw))
      else if last bw = CHR ''K'' then times8 KB_TO_B (Atoi (butlast bw))
      else times8 MB_TO_B (Atoi bw))"

definition set_bandwidth :: "bool \<Rightarrow> string \<Rightarrow> (unit, world) go" where
  "set_bandwidth given bw =
     (if \<not> given then set_setting (\<lambda>st. st\<lparr>burst := True\<rparr>)
      else
        go_then (set_setting (\<lambda>st. st\<lparr>burst := False\<rparr>)) (
        if bw = [] then go_panic IndexOutOfRange else
        go_then (case bandwidth_rate bw of
            None \<Rightarrow> go_return ()
          | Some r \<Rightarrow> set_setting (\<lambda>st. st\<lparr>rate := r\<rparr>))
        (set_setting (\<lambda>st. st\<lparr>pacingTime := 5\<rparr>))))"

text \<open>The server, or the address of the client; \<open>False\<close> when the address cannot be resolved.\<close>

definition set_side :: "flags \<Rightarrow> (bool, world) go" where
  "set_side fl =
     (if f_s fl then go_then (go_modify (\<lambda>w. w\<lparr>isServer := True\<rparr>)) (go_return True)
      else
        go_then (go_modify (\<lambda>w. w\<lparr>isServer := False\<rparr>)) (
        go_bind foreign_call (\<lambda>err.
        if err then go_return False
        else go_then (go_modify (\<lambda>w. w\<lparr>addr := f_c fl\<rparr>)) (go_return True))))"

definition take_flags :: "flags \<Rightarrow> world \<Rightarrow> world" where
  "take_flags fl w = w
     \<lparr>port := f_p fl, state := 0, interval := f_i fl, duration := f_d fl, streamNum := f_P fl,
      setting := (setting w)
        \<lparr>sndWnd := f_sw fl, rcvWnd := f_rw fl, readBufSize := f_rb fl * 1024, writeBufSize := f_wb fl * 1024,
         flushInterval := f_f fl, noCong := f_nc fl, fastResend := f_fr fl, dataShards := f_data fl,
         parityShards := f_parity fl\<rparr>\<rparr>"

definition pass_flags :: "flags \<Rightarrow> (int, world) go" where
  "pass_flags fl =
     go_bind (set_side fl) (\<lambda>ok.
     if \<not> ok then go_return (- 3) else
     go_then (setTestReverse (f_R fl)) (
     go_then (go_modify (take_flags fl)) (
     go_then (go_modify (\<lambda>w. w\<lparr>noDelay := f_D fl\<rparr>)) (
     go_bind (go_gets isServer) (\<lambda>srv.
     go_bind (if srv then go_return 0 else setProtocol (f_proto fl)) (\<lambda>_.
     go_then Print (go_return 0)))))))"

definition block_size :: "flags \<Rightarrow> string list \<Rightarrow> uint \<Rightarrow> uint" where
  "block_size fl seen old = (if ''l'' \<notin> set seen then default_blksize (f_proto fl) old else f_l fl)"

definition use_flags :: "flags \<Rightarrow> string list \<Rightarrow> (int, world) go" where
  "use_flags fl seen =
     (if ''c'' \<notin> set seen \<and> \<not> f_s fl then go_return (- 1)
      else if f_proto fl \<notin> set ProtocolList then go_return (- 2)
      else
        go_then (set_setting (\<lambda>st. st\<lparr>blksize := block_size fl seen (blksize st)\<rparr>)) (
        go_then (set_bandwidth (''b'' \<in> set seen) (f_b fl)) (pass_flags fl)))"

definition ParseArguments :: "string list \<Rightarrow> (int, world) go" where
  "ParseArguments args =
     (case Parse flag_table default_flags [] args of
        FlagsExit code \<Rightarrow> go_exit code
      | FlagsDone fl seen \<Rightarrow> if f_h fl then go_exit 0 else use_flags fl seen)"

section \<open>The program\<close>

text \<open>
  \<open>runClient\<close> and \<open>runServer\<close> up to the start of their loops, with the result when they return
  before; \<open>RunTest\<close> chooses between them; \<open>main\<close> goes on whatever \<open>ParseArguments\<close> returned.
\<close>

definition runClient_begin :: "(int option, world) go" where
  "runClient_begin = go_bind ConnectServer (\<lambda>rtn. go_return (if rtn < 0 then Some (- 1) else None))"

definition runServer_begin :: "(int option, world) go" where
  "runServer_begin = go_bind serverListen (\<lambda>rtn. go_return (if rtn < 0 then Some (- 1) else None))"

definition RunTest_begin :: "(int option, world) go" where
  "RunTest_begin = go_bind (go_gets isServer) (\<lambda>srv. if srv then runServer_begin else runClient_begin)"

definition main_begin :: "string list \<Rightarrow> (int option, world) go" where
  "main_begin args = go_then Init (go_bind (ParseArguments args) (\<lambda>rtn. RunTest_begin))"


section \<open>Reading a command line\<close>

text \<open>A flag that takes its value from the next argument.\<close>

definition plain_name :: "string \<Rightarrow> bool" where
  "plain_name nm \<longleftrightarrow> nm \<noteq> [] \<and> hd nm \<noteq> CHR ''-'' \<and> CHR ''='' \<notin> set nm"

lemma split_plain: "plain_name nm \<Longrightarrow> split_value nm = (nm, None)"
  by (cases nm) (auto simp: plain_name_def split_value_def Let_def takeWhile_eq_all_conv dropWhile_eq_Nil_conv)

lemma parseOne_plain:
  "plain_name nm \<Longrightarrow> parseOne table x ((CHR ''-'' # nm) # rest) = take_flag table nm None x rest"
  using split_plain [of nm] by (cases nm) (auto simp: parseOne_def plain_name_def Let_def)

lemma Parse_Nil: "Parse table x seen [] = FlagsDone x seen"
  by (simp add: Parse.simps parseOne_def)

lemma Parse_string:
  "plain_name nm \<Longrightarrow> map_of table nm = Some (StringFlag f) \<Longrightarrow>
   Parse table x seen ((CHR ''-'' # nm) # v # rest) = Parse table (f v x) (nm # seen) rest"
  by (subst Parse.simps) (simp add: parseOne_plain take_flag_def seen_or_err_def)

lemma Parse_uint:
  "plain_name nm \<Longrightarrow> map_of table nm = Some (UintFlag f) \<Longrightarrow>
   Parse table x seen ((CHR ''-'' # nm) # dec_nat (unat v) # rest) = Parse table (f v x) (nm # seen) rest"
  by (subst Parse.simps) (simp add: parseOne_plain take_flag_def seen_or_err_def ParseUint_any_decimal)

lemma Parse_bool:
  "plain_name nm \<Longrightarrow> map_of table nm = Some (BoolFlag f) \<Longrightarrow>
   Parse table x seen ((CHR ''-'' # nm) # rest) = Parse table (f True x) (nm # seen) rest"
  by (subst Parse.simps) (simp add: parseOne_plain take_flag_def seen_or_err_def ParseBool_def)

lemmas parse_simps = Parse_Nil Parse_string Parse_uint Parse_bool plain_name_def flag_table_def

lemma foreign_call_run [go_simps]:
  "foreign_call w = (Ret (e_err (env w (ticks w))), w\<lparr>ticks := Suc (ticks w)\<rparr>)"
  by (simp add: foreign_call_def go_simps go_bind_Ret)

lemma set_setting_run [go_simps]: "set_setting f w = (Ret (), w\<lparr>setting := f (setting w)\<rparr>)"
  by (simp add: set_setting_def go_simps)

text \<open>\<open>Print\<close> only prints.\<close>

lemma Print_run: "\<exists>os. Print w = (Ret (), w\<lparr>out := os\<rparr>)"
proof (cases "isServer w \<or> proto w = None")
  case True
  then have "Print w = (Ret (), w\<lparr>out := out w\<rparr>)" by (auto simp: Print_def go_simps)
  then show ?thesis by blast
next
  case False
  then show ?thesis by (auto simp: Print_def go_simps go_bind_Ret split: option.splits)
qed

definition printed :: "world \<Rightarrow> out_ev list" where
  "printed w = out (snd (Print w))"

lemma Print_only_prints [go_simps]: "Print w = (Ret (), w\<lparr>out := printed w\<rparr>)"
  using Print_run [of w] by (auto simp: printed_def)

text \<open>The settings after the bandwidth option.\<close>

definition bandwidth_setting :: "bool \<Rightarrow> string \<Rightarrow> iperfSetting \<Rightarrow> iperfSetting" where
  "bandwidth_setting given bw st =
     (if given then st\<lparr>burst := False, pacingTime := 5,
        rate := (case bandwidth_rate bw of None \<Rightarrow> rate st | Some r \<Rightarrow> r)\<rparr>
      else st\<lparr>burst := True\<rparr>)"

lemma set_bandwidth_run:
  "(given \<Longrightarrow> bw \<noteq> []) \<Longrightarrow>
   set_bandwidth given bw w = (Ret (), w\<lparr>setting := bandwidth_setting given bw (setting w)\<rparr>)"
  by (cases "setting w"; cases "bandwidth_rate bw")
    (auto simp: set_bandwidth_def bandwidth_setting_def go_simps go_bind_Ret)

lemma bandwidth_setting_fields:
  "burst (bandwidth_setting given bw st) = (\<not> given)"
  "rate (bandwidth_setting given bw st) =
     (if given then case bandwidth_rate bw of None \<Rightarrow> rate st | Some r \<Rightarrow> r else rate st)"
  "pacingTime (bandwidth_setting given bw st) = (if given then 5 else pacingTime st)"
  "blksize (bandwidth_setting given bw st) = blksize st"
  by (simp_all add: bandwidth_setting_def)

text \<open>What an accepted command line of a client leaves.\<close>

lemma use_flags_client:
  assumes "''c'' \<in> set seen" "\<not> f_s fl" "f_proto fl \<in> set ProtocolList"
    and "\<not> e_err (env w (ticks w))" "''b'' \<in> set seen \<Longrightarrow> f_b fl \<noteq> []"
  shows "\<exists>w'. use_flags fl seen w = (Ret 0, w') \<and> \<not> isServer w' \<and> addr w' = f_c fl \<and> port w' = f_p fl \<and>
    interval w' = f_i fl \<and> duration w' = f_d fl \<and> streamNum w' = f_P fl \<and> reverse w' = f_R fl \<and>
    mode w' = (\<not> f_R fl) \<and> noDelay w' = f_D fl \<and> burst (setting w') = (''b'' \<notin> set seen) \<and>
    rate (setting w') =
      (if ''b'' \<in> set seen then case bandwidth_rate (f_b fl) of None \<Rightarrow> rate (setting w) | Some r \<Rightarrow> r
       else rate (setting w)) \<and>
    pacingTime (setting w') = (if ''b'' \<in> set seen then 5 else pacingTime (setting w)) \<and>
    blksize (setting w') =
      (if ''l'' \<in> set seen then f_l fl else default_blksize (f_proto fl) (blksize (setting w))) \<and>
    proto w' = (case find (\<lambda>p. f_proto fl = protocol_name p) (protocols w) of None \<Rightarrow> proto w | p \<Rightarrow> p) \<and>
    protocols w' = protocols w \<and> ctrlConn w' = ctrlConn w \<and> env w' = env w \<and> ticks w' = Suc (ticks w)"
proof -
  let ?w = "w\<lparr>setting := (setting w)\<lparr>blksize := block_size fl seen (blksize (setting w))\<rparr>\<rparr>"
  define st where "st = bandwidth_setting (''b'' \<in> set seen) (f_b fl) (setting ?w)"
  have "set_bandwidth (''b'' \<in> set seen) (f_b fl) ?w = (Ret (), w\<lparr>setting := st\<rparr>)"
    using set_bandwidth_run [of "''b'' \<in> set seen" "f_b fl", OF assms(5)] by (simp add: st_def)
  with assms(1-3) have "use_flags fl seen w = pass_flags fl (w\<lparr>setting := st\<rparr>)"
    by (simp add: use_flags_def go_then_def go_bind_Ret [OF set_setting_run] go_bind_Ret)
  moreover have "burst st = (''b'' \<notin> set seen)"
    "blksize st = (if ''l'' \<in> set seen then f_l fl else default_blksize (f_proto fl) (blksize (setting w)))"
    "rate st = (if ''b'' \<in> set seen then case bandwidth_rate (f_b fl) of None \<Rightarrow> rate (setting w) | Some r \<Rightarrow> r
       else rate (setting w))"
    "pacingTime st = (if ''b'' \<in> set seen then 5 else pacingTime (setting w))"
    by (simp_all add: st_def bandwidth_setting_fields block_size_def split: option.split)
  moreover have "\<exists>w'. pass_flags fl (w\<lparr>setting := st\<rparr>) = (Ret 0, w') \<and> \<not> isServer w' \<and> addr w' = f_c fl \<and>
    port w' = f_p fl \<and> interval w' = f_i fl \<and> duration w' = f_d fl \<and> streamNum w' = f_P fl \<and>
    reverse w' = f_R fl \<and> mode w' = (\<not> f_R fl) \<and> noDelay w' = f_D fl \<and> burst (setting w') = burst st \<and>
    rate (setting w') = rate st \<and> pacingTime (setting w') = pacingTime st \<and> blksize (setting w') = blksize st \<and>
    proto w' = (case find (\<lambda>p. f_proto fl = protocol_name p) (protocols w) of None \<Rightarrow> proto w | p \<Rightarrow> p) \<and>
    protocols w' = protocols w \<and> ctrlConn w' = ctrlConn w \<and> env w' = env w \<and> ticks w' = Suc (ticks w)"
    using assms(2,4)
    by (cases "find (\<lambda>p. f_proto fl = protocol_name p) (protocols w)")
      (simp_all add: pass_flags_def set_side_def setTestReverse_def setProtocol_def take_flags_def go_simps go_bind_Ret)
  ultimately show ?thesis by simp
qed


definition new_test :: world where
  "new_test = snd (Init (NewIperfTest (\<lambda>_. quiet_env)))"

lemma new_test_simps:
  "protocols new_test = [TCPProto, rudpProto, kcpProto]" "env new_test k = quiet_env" "proto new_test = None"
  "ctrlConn new_test = None" "isServer new_test = False" "setting new_test = zero_setting"
  by (simp_all add: new_test_def Init_def NewIperfTest_def go_simps)




section \<open>The tests a command line can make\<close>

text \<open>The settings stay as they are.\<close>

interpretation settings: frame "\<lambda>w. setting w = st" for st
proof unfold_locales
  fix w w' ob t
  show "setting w = st \<Longrightarrow> same_frame w w' \<Longrightarrow> setting w' = st"
    by (simp add: same_frame_def)
  show "keeps (\<lambda>w. setting w = st) stats_send"
    by (rule keepsI) (auto simp: stats_send_def chan_send_def)
  show "keeps (\<lambda>w. setting w = st) stats_recv"
    by (rule keepsI) (auto simp: stats_recv_def chan_recv_def split: list.splits)
  show "keeps (\<lambda>w. setting w = st) (new_timer ob)"
    by (rule keepsI) (simp add: new_timer_run)
  show "keeps (\<lambda>w. setting w = st) (timer_signal t)"
    by (rule keepsI) (auto simp: timer_signal_def split: option.splits)
  show "keeps (\<lambda>w. setting w = st) (timer_Stop t)"
    unfolding timer_Stop_def by (auto split: option.splits intro!: keeps_intros keeps_modify)
qed

lemma go_each_None:
  assumes "\<And>x. keeps I (body x)" "\<And>x s r t. I s \<Longrightarrow> body x s = (Ret r, t) \<Longrightarrow> r = None"
    and "I s" "go_each body xs s = (Ret r, t)"
  shows "r = None"
  using assms(3,4)
proof (induction xs arbitrary: s)
  case (Cons x xs)
  then obtain a s' where a: "body x s = (Ret a, s')" "(case a of None \<Rightarrow> go_each body xs | Some v \<Rightarrow> go_return (Some v)) s' = (Ret r, t)"
    by (auto simp: go_bind_eq_Ret)
  with assms(2) [OF Cons.prems(1)] keeps_run [OF assms(1) Cons.prems(1)] Cons.IH show ?case by fastforce
qed (simp add: go_simps)

definition paced_setting :: "iperfSetting \<Rightarrow> bool" where
  "paced_setting st \<longleftrightarrow> (rate st \<noteq> 0 \<longrightarrow> \<not> burst st \<and> pacingTime st \<noteq> 0)"

lemma sender_ticker_paced:
  assumes "paced_setting (setting w)" "createSenderTicker w = (Ret n, w')" shows "n = 0"
proof -
  let ?I = "\<lambda>v. setting v = setting w"
  have kept: "keeps ?I (start_sender x)" for x
    unfolding start_sender_def by (auto intro!: keeps_intros)
  have body: "r = None" if "?I s" "start_sender x s = (Ret r, t)" for x s r t
  proof -
    from that(2) obtain s1 where s1: "with_stream x (go_modify (\<lambda>sp. sp\<lparr>canSend := True\<rparr>)) s = (Ret (), s1)"
      by (auto simp: start_sender_def go_then_def go_bind_eq_Ret)
    have "?I s1" by (rule keeps_run [OF settings.stream_op that(1) s1])
    with that assms(1) s1 show ?thesis
      by (auto simp: start_sender_def go_then_def go_bind_eq_Ret go_simps paced_setting_def split: if_splits)
  qed
  obtain r v where run: "each_stream start_sender w = (Ret r, v)" and n: "or_else 0 r v = (Ret n, w')"
    using assms(2) by (auto simp: createSenderTicker_def go_bind_eq_Ret)
  have "r = None"
  proof (rule go_each_None [where I = ?I and body = start_sender])
    show "go_each start_sender [0..<length (streams w)] w = (Ret r, v)"
      using run by (simp add: each_stream_def)
  qed (auto intro: kept body)
  with n show ?thesis by (simp add: or_else_def go_simps)
qed


section \<open>The bandwidth\<close>

lemma Atoi_dec_nat:
  assumes "n < 2 ^ 63" shows "Atoi (dec_nat n) = Some (int n)"
proof (cases "dec_nat n")
  case (Cons c s)
  with dec_nat_digits [of n] have "c \<noteq> CHR ''-''" "c \<noteq> CHR ''+''"
    by (auto simp: is_digit_def)
  moreover have "int n < 2 ^ 63" using assms by (metis of_nat_less_iff of_nat_numeral of_nat_power)
  moreover have "Atoi_digits False (dec_nat n) = Some (int n)"
    using \<open>int n < 2 ^ 63\<close> by (simp add: Atoi_digits_def)
  ultimately show ?thesis using Cons by simp
qed (use dec_nat_nonempty in simp)

lemma last_dec_nat: "is_digit (last (dec_nat n))"
  using dec_nat_digits [of n] dec_nat_nonempty [of n] by (metis last_in_set list_all_iff)

lemma times_eight: "word_of_int (int (unat n) * k * 8) = (n :: uint) * word_of_int (k * 8)"
proof -
  have "(word_of_int (int (unat n) * k * 8) :: uint) = word_of_int (int (unat n) * (k * 8))"
    by (simp only: mult.assoc)
  also have "\<dots> = word_of_int (int (unat n)) * word_of_int (k * 8)" by (simp only: wi_hom_mult)
  finally show ?thesis by simp
qed

lemma bandwidth_rate_dec:
  assumes "unat n < 2 ^ 63"
  shows "bandwidth_rate (dec_nat (unat n)) = Some (n * 8388608)"
    "bandwidth_rate (dec_nat (unat n) @ ''M'') = Some (n * 8388608)"
    "bandwidth_rate (dec_nat (unat n) @ ''K'') = Some (n * 8192)"
proof -
  let ?d = "dec_nat (unat n)"
  have ends: "last ?d \<noteq> CHR ''M''" "last ?d \<noteq> CHR ''K''"
    using last_dec_nat [of "unat n"] by (auto simp: is_digit_def)
  have a: "Atoi ?d = Some (int (unat n))" by (rule Atoi_dec_nat [OF assms])
  have M: "word_of_int (int (unat n) * MB_TO_B * 8) = n * 8388608"
    and K: "word_of_int (int (unat n) * KB_TO_B * 8) = n * 8192"
    unfolding times_eight by (simp_all add: MB_TO_B_def KB_TO_B_def)
  show "bandwidth_rate ?d = Some (n * 8388608)"
    by (simp only: bandwidth_rate_def Let_def ends a M if_False option.map)
  show "bandwidth_rate (?d @ ''M'') = Some (n * 8388608)"
    by (simp only: bandwidth_rate_def Let_def last_snoc butlast_snoc a M refl if_True option.map)
  have "CHR ''K'' \<noteq> CHR ''M''" by simp
  then show "bandwidth_rate (?d @ ''K'') = Some (n * 8192)"
    by (simp only: bandwidth_rate_def Let_def last_snoc butlast_snoc a K refl if_True if_False option.map)
qed

text \<open>
  C29: The bandwidth option. A number of mebibytes (with \<open>M\<close> or no suffix) or of kibibytes
  (with \<open>K\<close>) becomes the rate in bits per second, modulo two to the 64; bursts are turned off
  and the pacing time is 5 ms. An empty value is indexed at its last byte and crashes the
  process.
\<close>

theorem bandwidth_option:
  assumes "\<not> e_err (env w (ticks w))" "unat n < 2 ^ 63"
    and "(suffix, k) \<in> {([], 8388608), (''M'', 8388608), (''K'', 8192)}"
  shows "(\<exists>w'. ParseArguments [''-c'', a, ''-b'', dec_nat (unat n) @ suffix] w = (Ret 0, w') \<and>
      rate (setting w') = n * k \<and> \<not> burst (setting w') \<and> pacingTime (setting w') = 5) \<and>
    fst (ParseArguments [''-c'', a, ''-b'', []] w) = Panicked IndexOutOfRange"
proof
  let ?fl = "\<lambda>b. default_flags\<lparr>f_c := a, f_b := b\<rparr>" and ?b = "dec_nat (unat n) @ suffix"
  have parse: "ParseArguments [''-c'', a, ''-b'', b] w = use_flags (?fl b) [''b'', ''c''] w" for b
    by (simp add: ParseArguments_def parse_simps default_flags_def)
  have "bandwidth_rate ?b = Some (n * k)"
    using assms(3) bandwidth_rate_dec [OF assms(2)] by auto
  with use_flags_client [of "[''b'', ''c'']" "?fl ?b" w] assms(1)
  show "\<exists>w'. ParseArguments [''-c'', a, ''-b'', ?b] w = (Ret 0, w') \<and>
      rate (setting w') = n * k \<and> \<not> burst (setting w') \<and> pacingTime (setting w') = 5"
    unfolding parse by (auto simp: default_flags_def proto_names ProtocolList_def)
  show "fst (ParseArguments [''-c'', a, ''-b'', []] w) = Panicked IndexOutOfRange"
    unfolding parse
    by (simp add: use_flags_def default_flags_def proto_names ProtocolList_def set_bandwidth_def go_simps go_bind_Ret go_bind_Panicked)
qed

theorem bandwidth_option_witness:
  "(\<exists>w'. ParseArguments [''-c'', ''10.0.0.1'', ''-b'', ''100K''] new_test = (Ret 0, w') \<and>
     rate (setting w') = 819200 \<and> \<not> burst (setting w') \<and> pacingTime (setting w') = 5)"
proof -
  have "dec_nat 100 = ''100''" by code_simp
  moreover have "\<not> e_err (env new_test (ticks new_test))" by (simp add: new_test_simps quiet_env_def)
  ultimately show ?thesis
    using bandwidth_option [of new_test 100 "''K''" 8192 "''10.0.0.1''"] by simp
qed


end
