(* ===== verification/Server_Steps.thy ===== *)
theory Server_Steps
  imports Wellformed
begin

text \<open>
  The server as a system of goroutines: \<open>runServer\<close> by the phases of its main loop,
  \<open>handleServerCtrlMsg\<close>, the goroutines of the streams, and the timers. Timers and stream
  goroutines outlive the test that started them: they keep the streams they were started with,
  but use the one test object of the process, with its new control channel and counters.
\<close>

section \<open>The state\<close>

text \<open>
  The main loop: before the reset, before \<open>Accept\<close>, between the parameters and the loop, in
  \<open>ServerLoop\<close>, waiting for \<open>ctrlDone\<close> after the loop or before starting over, or returned.
\<close>

datatype server_phase = Resetting | Accepting | Opening | Serving | Finishing | Restarting | Stopped int

text \<open>What a finished round leaves behind: its streams, their goroutines, and its timers.\<close>

record old_round =
  r_streams :: "iperf_stream list"
  r_crew :: "(nat \<times> bool \<times> bool) list"
  r_timers :: "nat set"

record server_proc =
  sw :: world
  phase :: server_phase
  ctrl_handler :: "u8 list option"
  crew :: "(nat \<times> bool \<times> bool) list"
  first_timer :: nat
  old_rounds :: "old_round list"

text \<open>The round that ends with the reset.\<close>

definition round_of :: "server_proc \<Rightarrow> old_round" where
  "round_of P = \<lparr>r_streams = streams (sw P), r_crew = crew P,
     r_timers = {first_timer P..<length (timers (sw P))}\<rparr>"

text \<open>A goroutine of an old round works on the streams of that round.\<close>

definition on_round :: "old_round \<Rightarrow> ('a, world) go \<Rightarrow> world \<Rightarrow> 'a outcome \<times> world \<times> old_round" where
  "on_round R m w =
     (case m (w\<lparr>streams := r_streams R\<rparr>) of
        (r, w') \<Rightarrow> (r, w'\<lparr>streams := streams w\<rparr>, R\<lparr>r_streams := streams w'\<rparr>))"

text \<open>Whose streams the function of a timer uses: those of a pacing ticker are its own round's.\<close>

definition is_send_tick :: "timer_proc \<Rightarrow> bool" where
  "is_send_tick pr = (case pr of SendTick _ \<Rightarrow> True | _ \<Rightarrow> False)"

definition own_timer :: "server_proc \<Rightarrow> nat \<Rightarrow> bool" where
  "own_timer P r \<longleftrightarrow> first_timer P \<le> r \<or> \<not> is_send_tick (o_proc (timers (sw P) ! r))"

definition running :: "server_proc \<Rightarrow> bool" where
  "running P \<longleftrightarrow> (case phase P of Stopped _ \<Rightarrow> False | _ \<Rightarrow> True)"

section \<open>The steps\<close>

definition after_take :: "round_next option \<Rightarrow> server_phase" where
  "after_take r = (case r of None \<Rightarrow> Opening | Some (ServerReturn n) \<Rightarrow> Stopped n | Some _ \<Rightarrow> Resetting)"

definition after_open :: "round_next \<Rightarrow> server_phase" where
  "after_open r = (case r of EnterLoop \<Rightarrow> Serving | WaitCtrlDone \<Rightarrow> Restarting
     | StartOver \<Rightarrow> Resetting | ServerReturn n \<Rightarrow> Stopped n)"

inductive server_step :: "server_proc \<Rightarrow> server_proc \<Rightarrow> bool" where
  ss_reset: "phase P = Resetting \<Longrightarrow>
    server_step P (P\<lparr>sw := reset_test (sw P), phase := Accepting, crew := [],
      first_timer := length (timers (sw P)), old_rounds := round_of P # old_rounds P\<rparr>)"
| ss_take: "phase P = Accepting \<Longrightarrow> take_client (sw P) = (Ret r, w) \<Longrightarrow>
    server_step P (P\<lparr>sw := w, phase := after_take r,
      ctrl_handler := (if r = None then Some [0, 0, 0, 0] else None)\<rparr>)"
| ss_open: "phase P = Opening \<Longrightarrow> open_streams (sw P) = (Ret r, w) \<Longrightarrow>
    server_step P (P\<lparr>sw := w, phase := after_open r\<rparr>)"
| ss_turn: "phase P = Serving \<Longrightarrow> runServer_turn (sw P) = (Ret (LoopNext gs), w) \<Longrightarrow>
    server_step P (P\<lparr>sw := w, crew := crew P @ map start_worker gs\<rparr>)"
| ss_turn_end: "phase P = Serving \<Longrightarrow> runServer_turn (sw P) = (Ret LoopWaitDone, w) \<Longrightarrow>
    server_step P (P\<lparr>sw := w, phase := Finishing\<rparr>)"
| ss_done: "phase P = Serving \<or> phase P = Finishing \<Longrightarrow> ctrl_handler P = None \<Longrightarrow>
    close_listener (sw P) = (Ret (), w) \<Longrightarrow> server_step P (P\<lparr>sw := w, phase := Resetting\<rparr>)"
| ss_restart: "phase P = Restarting \<Longrightarrow> ctrl_handler P = None \<Longrightarrow>
    server_step P (P\<lparr>phase := Resetting\<rparr>)"
| ss_handler: "running P \<Longrightarrow> ctrl_handler P = Some buf \<Longrightarrow> handleServerCtrlMsg buf (sw P) = (Ret h, w) \<Longrightarrow>
    server_step P (P\<lparr>sw := w, ctrl_handler := h\<rparr>)"
| ss_start: "running P \<Longrightarrow> crew P = gs @ (i, True, False) # hs \<Longrightarrow> iperfSend_start i (sw P) = (Ret (), w) \<Longrightarrow>
    server_step P (P\<lparr>sw := w, crew := gs @ (i, True, True) # hs\<rparr>)"
| ss_pass: "running P \<Longrightarrow> crew P = gs @ (i, s, True) # hs \<Longrightarrow> stream_pass s i (sw P) = (Ret b, w) \<Longrightarrow>
    server_step P (P\<lparr>sw := w, crew := gs @ (if b then [] else [(i, s, True)]) @ hs\<rparr>)"
| ss_old_start: "running P \<Longrightarrow> old_rounds P = Rs @ R # Ts \<Longrightarrow> r_crew R = gs @ (i, True, False) # hs \<Longrightarrow>
    on_round R (iperfSend_start i) (sw P) = (Ret (), w, R') \<Longrightarrow>
    server_step P (P\<lparr>sw := w, old_rounds := Rs @ R'\<lparr>r_crew := gs @ (i, True, True) # hs\<rparr> # Ts\<rparr>)"
| ss_old_pass: "running P \<Longrightarrow> old_rounds P = Rs @ R # Ts \<Longrightarrow> r_crew R = gs @ (i, s, True) # hs \<Longrightarrow>
    on_round R (stream_pass s i) (sw P) = (Ret b, w, R') \<Longrightarrow>
    server_step P (P\<lparr>sw := w,
      old_rounds := Rs @ R'\<lparr>r_crew := gs @ (if b then [] else [(i, s, True)]) @ hs\<rparr> # Ts\<rparr>)"
| ss_timer: "running P \<Longrightarrow> own_timer P r \<Longrightarrow> goroutine_tick server_timer r (sw P) = (Ret (), w) \<Longrightarrow>
    server_step P (P\<lparr>sw := w\<rparr>)"
| ss_old_timer: "running P \<Longrightarrow> \<not> own_timer P r \<Longrightarrow> old_rounds P = Rs @ R # Ts \<Longrightarrow> r \<in> r_timers R \<Longrightarrow>
    on_round R (goroutine_tick server_timer r) (sw P) = (Ret (), w, R') \<Longrightarrow>
    server_step P (P\<lparr>sw := w, old_rounds := Rs @ R' # Ts\<rparr>)"
| ss_timer_done: "running P \<Longrightarrow> goroutine_done r (sw P) = (Ret (), w) \<Longrightarrow>
    server_step P (P\<lparr>sw := w\<rparr>)"

text \<open>After \<open>serverListen\<close>.\<close>

definition server_start :: "server_proc \<Rightarrow> bool" where
  "server_start P \<longleftrightarrow> phase P = Resetting \<and> ctrl_handler P = None \<and> crew P = [] \<and> old_rounds P = [] \<and>
     first_timer P = 0"

inductive server_reach :: "server_proc \<Rightarrow> server_proc \<Rightarrow> bool" for P where
  server_here: "server_start P \<Longrightarrow> server_reach P P"
| server_next: "server_reach P Q \<Longrightarrow> server_step Q R \<Longrightarrow> server_reach P R"

section \<open>The operations of the main loop\<close>

context frame
begin

lemma fresh_listener [keeps_intros]: "keeps I new_listener"
  by (rule keepsI) (auto simp: new_listener_def same_frame_def intro: same)

lemma listen [keeps_intros]: "keeps I (proto_listen p)"
  by (cases p)
    (auto simp: tcp_listen_def rudp_listen_def kcp_listen_def intro!: keeps_intros)

lemma accept_one [keeps_intros]: "keeps I (listener_Accept l)"
  by (rule keeps_Accept [OF closed_env])

lemma listener_closed [keeps_intros]: "keeps I close_listener"
  unfolding close_listener_def by (rule modify) (simp add: same_frame_def split: option.split)

lemma ctrl_closed [keeps_intros]: "keeps I (close_and x)"
  unfolding close_and_def by (intro keeps_intros)

lemma send_start [keeps_intros]: "keeps I (iperfSend_start i)"
  unfolding iperfSend_start_def by (intro keeps_intros)

end

context chan_frame
begin

lemma pass [keeps_intros]: "keeps I (stream_pass s i)"
  unfolding stream_pass_def by (auto intro: keeps_intros)

lemma open_round [keeps_intros]: "keeps I open_streams"
  unfolding open_streams_def by (auto simp: same_frame_def split: option.split intro!: keeps_intros modify)

end

context test_frame
begin

lemma take_one [keeps_intros]: "keeps I take_client"
  unfolding take_client_def by (auto simp: same_frame_def split: option.split intro!: keeps_intros modify)

end

text \<open>An invariant that does not look at the streams is kept by a goroutine of an old round.\<close>

lemma wf_on_round:
  assumes "keeps wf_world m" "wf_world w" "on_round R m w = (r, w', R')" shows "wf_world w'"
proof -
  have "wf_world (w\<lparr>streams := r_streams R\<rparr>)" using assms(2) by (simp add: wf_world_def)
  then have "wf_world (snd (m (w\<lparr>streams := r_streams R\<rparr>)))" by (rule keepsD [OF assms(1)])
  with assms(3) show ?thesis by (auto simp: on_round_def wf_world_def split: prod.splits)
qed

lemma wf_server_step:
  assumes "server_step P Q" "wf_world (sw P)" shows "wf_world (sw Q)"
proof -
  have fs: "timer_funs server_timer" by (simp add: timer_funs_def)
  have send: "keeps wf_world (iperfSend_start i)" "keeps wf_world (stream_pass s i)" for s i
    by (intro keeps_intros)+
  show ?thesis
    using assms
  proof (cases rule: server_step.cases)
    case ss_reset
    with assms(2) show ?thesis by (simp add: reset_test_def wf_world_def)
  next
    case (ss_take r w)
    with assms(2) keeps_run [OF wf.take_one] show ?thesis by auto
  next
    case (ss_open r w)
    with assms(2) keeps_run [OF wf.open_round] show ?thesis by auto
  next
    case (ss_turn gs w)
    with assms(2) keeps_run [OF wf.server_turn] show ?thesis by auto
  next
    case (ss_turn_end w)
    with assms(2) keeps_run [OF wf.server_turn] show ?thesis by auto
  next
    case (ss_done w)
    with assms(2) keeps_run [OF wf.listener_closed] show ?thesis by auto
  next
    case (ss_handler buf h w)
    with assms(2) keeps_run [OF wf.server_handler] show ?thesis by auto
  next
    case (ss_start gs i hs w)
    with assms(2) keeps_run [OF send(1)] show ?thesis by auto
  next
    case (ss_pass gs i s hs b w)
    with assms(2) keeps_run [OF send(2)] show ?thesis by auto
  next
    case (ss_old_start Rs R Ts gs i hs w R')
    with assms(2) wf_on_round [OF send(1)] show ?thesis by auto
  next
    case (ss_old_pass Rs R Ts gs i s hs b w R')
    with assms(2) wf_on_round [OF send(2)] show ?thesis by auto
  next
    case (ss_timer r w)
    with assms(2) keeps_run [OF wf_tick [OF fs]] show ?thesis by auto
  next
    case (ss_old_timer r Rs R Ts w R')
    with assms(2) wf_on_round [OF wf_tick [OF fs]] show ?thesis by auto
  next
    case (ss_timer_done r w)
    with assms(2) keeps_run [OF wf_done] show ?thesis by auto
  qed simp
qed

end
