(* ===== verification/Session.thy ===== *)
theory Session
  imports Server_Steps
begin

text \<open>
  The client and the server together: the start of a session over the control connection, each
  side reading what the other has written, and the server as the owner of one session at a time.
\<close>

section \<open>The start of a session\<close>

lemma getParams_of:
  assumes "isServer w" "protocols w = [TCPProto, rudpProto, kcpProto]" "proto u = Some p"
    and "ctrlConn w = Some c" "\<not> c_closed c" "c_rd c = Chunk (json_Marshal (params_json (params_of p u))) # r"
  shows "\<exists>w'. getParams w = (Ret 0, w') \<and> same_params u w' \<and>
    mode w' = reverse u \<and> ctrlConn w' = Some (c\<lparr>c_rd := r\<rparr>)"
proof -
  let ?w = "w\<lparr>ctrlConn := Some (c\<lparr>c_rd := r\<rparr>)\<rparr>"
  have "getParams w = take_params (params_of p u) ?w"
    using assms by (intro getParams_whole) simp_all
  with take_params_of [of ?w u p] assms show ?thesis by (auto split: if_splits)
qed

lemma accepts:
  assumes "\<not> (l < length (listeners w) \<and> listeners w ! l)" "e_conn (env w (ticks w)) = GotConn c"
  shows "listener_Accept (Some l) w = (Ret (Some c), w\<lparr>ticks := Suc (ticks w)\<rparr>)"
proof -
  have "listener_Accept (Some l) w = go_bind env_next (\<lambda>e. case e_conn e of
      GotConn c \<Rightarrow> go_return (Some c) | ConnErr \<Rightarrow> go_return None | ConnWait \<Rightarrow> go_block) w"
    using assms(1) by (simp only: listener_Accept_def option.case go_bind_first if_False)
  also have "\<dots> = (Ret (Some c), w\<lparr>ticks := Suc (ticks w)\<rparr>)"
    using assms(2) by (simp add: go_bind_Ret [OF env_next_run] go_return_run)
  finally show ?thesis .
qed

text \<open>The client answers the announcement of the server with its parameters.\<close>

lemma client_sends_params:
  assumes "proto u = Some p" "\<not> isServer u" "state u \<noteq> IPERF_DONE"
    and "ctrlConn u = Some cu" "\<not> c_closed cu" "c_wr cu = []"
    and "c_rd cu = Chunk (PutUint32 (ucast IPERF_EXCHANGE_PARAMS)) # r" "length buf = 4"
  shows "\<exists>buf'. handleClientCtrlMsg buf u = (Ret (Some buf'), u\<lparr>state := IPERF_EXCHANGE_PARAMS, ctrlConn :=
    Some (cu\<lparr>c_rd := r, c_sent := c_sent cu @ json_Marshal (params_json (params_of p u))\<rparr>)\<rparr>)"
proof -
  let ?v = "u\<lparr>ctrlConn := Some (cu\<lparr>c_rd := r\<rparr>), state := IPERF_EXCHANGE_PARAMS\<rparr>"
  have rd: "read_state buf u = (Ret (Some (PutUint32 4, 4)), ?v)"
    using read_state_whole [of u cu 4 r buf] assms by simp
  have "params_of p ?v = params_of p u" by (simp add: params_of_def)
  with sendParams_run [of ?v p "cu\<lparr>c_rd := r\<rparr>"] assms have
    "sendParams ?v = (Ret 0, ?v\<lparr>ctrlConn := Some (cu\<lparr>c_rd := r,
       c_sent := c_sent cu @ json_Marshal (params_json (params_of p u))\<rparr>)\<rparr>)" by simp
  then show ?thesis
    using assms rd
    by (simp add: handleClientCtrlMsg_def client_dispatch_def exchangeParams_def give_up_def go_simps go_bind_Ret)
qed


definition session_client :: world where
  "session_client = small_test\<lparr>ctrlConn :=
     Some (quiet_conn\<lparr>c_rd := [Chunk (PutUint32 (ucast IPERF_EXCHANGE_PARAMS))]\<rparr>)\<rparr>"

text \<open>What the client answers, and a server to which it connects.\<close>

definition session_answer :: "u8 list" where
  "session_answer = c_sent (the (ctrlConn (snd (handleClientCtrlMsg [0, 0, 0, 0] session_client))))"

definition session_server :: world where
  "session_server = reset_test (small_server\<lparr>ctrlConn := None, mode := IPERF_RECEIVER, env := (\<lambda>_. quiet_env
     \<lparr>e_conn := GotConn (quiet_conn\<lparr>c_rd := [Chunk session_answer]\<rparr>)\<rparr>)\<rparr>)"


section \<open>One session at a time\<close>

lemma open_streams_next: "open_streams w = (Ret r, w') \<Longrightarrow> r = WaitCtrlDone \<or> r = EnterLoop"
  by (auto simp: open_streams_def close_and_def go_bind_eq_Ret go_simps split: if_splits option.splits)

text \<open>Between sessions there is no handler, and while the server accepts there is no goroutine of a stream.\<close>

definition between_sessions :: "server_proc \<Rightarrow> bool" where
  "between_sessions P \<longleftrightarrow> (phase P \<in> {Resetting, Accepting} \<longrightarrow> ctrl_handler P = None) \<and>
     (phase P \<in> {Accepting, Opening, Restarting} \<longrightarrow> crew P = [])"

lemma between_step: "server_step P Q \<Longrightarrow> between_sessions P \<Longrightarrow> between_sessions Q"
proof (induction rule: server_step.induct)
  case (ss_take P r w)
  then show ?case by (auto simp: between_sessions_def after_take_def split: option.splits round_next.splits)
next
  case (ss_open P r w)
  with open_streams_next [OF ss_open(2)] show ?case by (auto simp: between_sessions_def after_open_def)
qed (auto simp: between_sessions_def)

lemma between_reach: "server_reach P Q \<Longrightarrow> between_sessions Q"
proof (induction rule: server_reach.induct)
  case server_here
  then show ?case by (simp add: server_start_def between_sessions_def)
next
  case (server_next Q R)
  then show ?case by (blast intro: between_step)
qed

text \<open>
  C5: The server serves one client at a time. In every state it can reach, whatever the
  interleaving with the goroutines and timers left by earlier tests: when it waits for a client
  or prepares to, the handler of the previous one has returned; and until the streams of the new
  client are accepted no goroutine of the round runs.
\<close>

theorem server_serves_one_client:
  assumes "server_reach P Q"
  shows "(phase Q \<in> {Resetting, Accepting} \<longrightarrow> ctrl_handler Q = None) \<and>
    (phase Q \<in> {Accepting, Opening, Restarting} \<longrightarrow> crew Q = [])"
  using between_reach [OF assms] by (simp add: between_sessions_def)

text \<open>A client that hangs up before the first message.\<close>

definition hangup_server :: world where
  "hangup_server = small_server\<lparr>ctrlConn := None, mode := IPERF_RECEIVER, env := (\<lambda>_. quiet_env
     \<lparr>e_conn := GotConn (quiet_conn\<lparr>c_closed := True\<rparr>)\<rparr>)\<rparr>"

definition server_init :: server_proc where
  "server_init = \<lparr>sw = hangup_server, phase = Resetting, ctrl_handler = None, crew = [], first_timer = 0,
     old_rounds = []\<rparr>"

definition server_again :: server_proc where
  "server_again = server_init\<lparr>sw := snd (take_client (reset_test hangup_server)),
     old_rounds := [round_of server_init]\<rparr>"

lemma server_again_reach: "server_reach server_init server_again"
proof -
  let ?P = "server_init\<lparr>sw := reset_test (sw server_init), phase := Accepting, crew := [],
      first_timer := length (timers (sw server_init)), old_rounds := round_of server_init # old_rounds server_init\<rparr>"
  have t: "length (timers hangup_server) = 0"
    by (simp add: hangup_server_def small_server_def NewIperfTest_def)
  have "fst (take_client (reset_test hangup_server)) = Ret (Some StartOver)" by code_simp
  then have run: "take_client (sw ?P) = (Ret (Some StartOver), sw server_again)"
    by (simp add: server_init_def server_again_def fst_Ret)
  have "server_reach server_init server_init"
    by (rule server_here) (simp add: server_start_def server_init_def)
  moreover have "server_step server_init ?P" by (rule ss_reset) (simp add: server_init_def)
  ultimately have reach: "server_reach server_init ?P" by (rule server_next)
  let ?Q = "?P\<lparr>sw := sw server_again, phase := after_take (Some StartOver),
      ctrl_handler := (if Some StartOver = None then Some [0, 0, 0, 0] else None)\<rparr>"
  have "server_step ?P ?Q" by (rule ss_take [OF _ run]) simp
  with reach have "server_reach server_init ?Q" by (rule server_next)
  moreover have "?Q = server_again"
    using t by (simp add: server_again_def server_init_def after_take_def)
  ultimately show ?thesis by (simp only:)
qed

theorem server_serves_one_client_witness: "phase server_again = Resetting \<and> ctrl_handler server_again = None"
  using server_serves_one_client [OF server_again_reach] by (simp add: server_again_def server_init_def)

text \<open>
  C14: In every state a server can reach, over any number of sessions, both channels of the test
  are within their capacity, no channel of a timer holds more than one signal, no ticker has
  called its function more often than its limit, and the direction of the test agrees with the
  reverse option and the side, also when goroutines and timers of earlier tests interfere.
\<close>

theorem server_stays_wellformed:
  assumes "server_reach P Q" "wf_world (sw P)"
  shows "wf_world (sw Q)"
  using assms by induction (auto intro: wf_server_step)

theorem server_stays_wellformed_witness: "wf_world hangup_server \<and> wf_world (sw server_again)"
proof -
  have w: "wf_world (sw server_init)"
    by (simp add: server_init_def hangup_server_def small_server_def NewIperfTest_def wf_world_def)
  from server_stays_wellformed [OF server_again_reach this] w show ?thesis by (simp add: server_init_def)
qed

section \<open>From one session to the next\<close>




definition stale_round :: old_round where
  "stale_round = \<lparr>r_streams = [(small_stream RECEIVER_STREAM)\<lparr>conn := quiet_conn\<lparr>c_rd := [Chunk [1, 2, 3]]\<rparr>\<rparr>],
     r_crew = [(0, False, True)], r_timers = {}\<rparr>"

definition stale_proc :: server_proc where
  "stale_proc = \<lparr>sw = small_server\<lparr>state := TEST_RUNNING, streams := [small_stream RECEIVER_STREAM]\<rparr>,
     phase = Serving, ctrl_handler = Some [0, 0, 0, 0], crew = [(0, False, True)], first_timer = 0,
     old_rounds = [stale_round]\<rparr>"


end
