(* ===== verification/Session_End.thy ===== *)
theory Session_End
  imports Exchange
begin

text \<open>
  The end of a session: \<open>exchangeResults\<close> on both sides, each reading what the other has
  written. The client writes first; the server stores the client's results before it answers.
\<close>

text \<open>Two sides that know the same about a stream.\<close>

definition same_totals :: "iperf_stream_results \<Rightarrow> iperf_stream_results \<Rightarrow> bool" where
  "same_totals a b \<longleftrightarrow> bytes_sent a = bytes_sent b \<and> bytes_received a = bytes_received b \<and>
     stream_retrans a = stream_retrans b \<and> stream_recovers a = stream_recovers b \<and>
     stream_in_segs a = stream_in_segs b \<and> stream_in_pkts a = stream_in_pkts b \<and>
     stream_out_segs a = stream_out_segs b \<and> stream_out_pkts a = stream_out_pkts b"

text \<open>What the sender and what the receiver of a stream has measured.\<close>

definition measured :: "iperf_stream_results \<Rightarrow> iperf_stream_results \<Rightarrow> iperf_stream_results \<Rightarrow> bool" where
  "measured sender receiver known \<longleftrightarrow> bytes_sent known = bytes_sent sender \<and>
     stream_retrans known = stream_retrans sender \<and> bytes_received known = bytes_received receiver \<and>
     stream_recovers known = stream_recovers receiver"

lemma two_stores:
  "let sw' = store_result (\<not> m) (stream_result m i su) sw; su' = store_result m (stream_result (\<not> m) i sw') su in
   same_totals (result su') (result sw') \<and>
   (if m then measured (result su) (result sw) (result su') else measured (result sw) (result su) (result su'))"
  by (simp add: Let_def store_result_def stream_result_def same_totals_def measured_def)

lemma client_exchange:
  assumes "\<not> isServer u" "sendResults u = (Ret 0, u1)" "getResults u1 = (Ret 0, u')"
  shows "exchangeResults u = (Ret 0, u')"
  using assms by (simp add: exchangeResults_def go_bind_first go_bind_Ret go_return_run)

lemma sendResults_returns: "sendResults w = (Ret r, w') \<Longrightarrow> r = 0 \<or> r = - 1"
  by (auto simp: sendResults_def make_results_def go_then_def go_bind_eq_Ret go_simps Let_def
      split: if_splits option.splits prod.splits)

lemma server_exchange:
  assumes "isServer w" "exchangeResults w = (Ret 0, w')" "getResults w = (Ret 0, w1)"
  shows "sendResults w1 = (Ret 0, w')"
proof -
  from assms(2) have "go_bind sendResults (\<lambda>r. go_return (if r < 0 then - 1 else 0)) w1 = (Ret (0 :: int), w')"
    unfolding exchangeResults_def by (simp add: assms(1) go_bind_first go_bind_Ret [where m = getResults, OF assms(3)])
  then show ?thesis using sendResults_returns by (fastforce simp: go_bind_eq_Ret go_simps split: if_splits)
qed

text \<open>
  C10: A session ends with both sides in agreement. The client writes its results; the server,
  reading them however the network cuts them, stores them and answers with its own; the
  client, reading the answer, stores that. Then both know the same of every stream: the bytes sent
  and the retransmissions as the sender has counted them, the bytes received and the recoveries
  as the receiver has, and the segments and packets in both directions.
\<close>

theorem session_end_agrees:
  assumes client: "\<not> isServer u" "ctrlConn u = Some cu" "\<not> c_closed cu" "c_wr cu = []"
      "length (streams u) = unat (streamNum u)" "streamNum u \<le> 1000000" "sendResults u = (Ret 0, u1)"
    and server: "isServer w" "mode w = (\<not> mode u)" "streamNum w = streamNum u"
      "length (streams w) = length (streams u)" "ctrlConn w = Some c" "c_wr c = []" "arriving css c"
      "concat css = drop (length (c_sent cu)) (c_sent (the (ctrlConn u1)))"
      "exchangeResults w = (Ret 0, w')"
    and reply: "arriving css' cu"
      "concat css' = drop (length (c_sent c)) (c_sent (the (ctrlConn w'))) @ rest"
  shows "\<exists>u'. exchangeResults u = (Ret 0, u') \<and> (\<forall>i < length (streams u).
    same_totals (result (streams u' ! i)) (result (streams w' ! i)) \<and>
    (if mode u = IPERF_SENDER
     then measured (result (streams u ! i)) (result (streams w ! i)) (result (streams u' ! i))
     else measured (result (streams w ! i)) (result (streams u ! i)) (result (streams u' ! i))))"
proof -
  from sendResults_message [OF client(7,2-6)] obtain j where
    j: "results_json (all_results u) = Some j" "length (json_Marshal j) < 2 ^ 32"
    and mk: "unat (streamNum u) * 120 \<le> max_alloc"
    and u1: "u1 = u\<lparr>ctrlConn := Some (cu\<lparr>c_sent := c_sent cu @
      PutUint32 (word_of_nat (length (json_Marshal j))) @ json_Marshal j\<rparr>)\<rparr>" .
  have mw: "unat (streamNum w) * 120 \<le> max_alloc" using mk server(3) by simp
  let ?ws = "map2 (store_result (mode w)) (all_results u) (streams w)"
  have "concat css = PutUint32 (word_of_nat (length (json_Marshal j))) @ json_Marshal j @ []"
    using server(8) u1 by simp
  from getResults_exact [OF client(5) server(4) mw server(5,7) j this] obtain r where
    get: "getResults w = (Ret 0, w\<lparr>ctrlConn := Some (c\<lparr>c_rd := map Chunk r\<rparr>), streams := ?ws\<rparr>)" by blast
  let ?w1 = "w\<lparr>ctrlConn := Some (c\<lparr>c_rd := map Chunk r\<rparr>), streams := ?ws\<rparr>"
  have lw: "length ?ws = length (streams u)" using client(5) server(4) by (simp add: all_results_def)
  have "ctrlConn ?w1 = Some (c\<lparr>c_rd := map Chunk r\<rparr>)" "\<not> c_closed (c\<lparr>c_rd := map Chunk r\<rparr>)"
    "c_wr (c\<lparr>c_rd := map Chunk r\<rparr>) = []" "length (streams ?w1) = unat (streamNum ?w1)" "streamNum ?w1 \<le> 1000000"
    using server client(5,6) lw by (simp_all add: arriving_def)
  from sendResults_message [OF server_exchange [OF server(1,9) get] this] obtain k where
    k: "results_json (all_results ?w1) = Some k" "length (json_Marshal k) < 2 ^ 32"
    and w': "w' = ?w1\<lparr>ctrlConn := Some (c\<lparr>c_rd := map Chunk r, c_sent := c_sent c @
      PutUint32 (word_of_nat (length (json_Marshal k))) @ json_Marshal k\<rparr>)\<rparr>"
    by auto
  let ?cu = "cu\<lparr>c_sent := c_sent cu @ PutUint32 (word_of_nat (length (json_Marshal j))) @ json_Marshal j\<rparr>"
  let ?us = "map2 (store_result (mode u)) (all_results ?w1) (streams u)"
  have "length (streams ?w1) = unat (streamNum ?w1)" "length (streams u1) = length (streams ?w1)"
    "unat (streamNum u1) * 120 \<le> max_alloc" "ctrlConn u1 = Some ?cu" "arriving css' ?cu"
    "concat css' = PutUint32 (word_of_nat (length (json_Marshal k))) @ json_Marshal k @ rest"
    using client(5) server(3,4) lw mk u1 reply w' by (simp_all add: arriving_def)
  from getResults_exact [OF this(1-5) k this(6)] u1 obtain r' where
    "getResults u1 = (Ret 0, u1\<lparr>ctrlConn := Some (?cu\<lparr>c_rd := map Chunk r'\<rparr>), streams := ?us\<rparr>)" by auto
  from client_exchange [OF client(1,7) this]
  have "exchangeResults u = (Ret 0, u1\<lparr>ctrlConn := Some (?cu\<lparr>c_rd := map Chunk r'\<rparr>), streams := ?us\<rparr>)" .
  moreover have "same_totals (result (?us ! i)) (result (streams w' ! i)) \<and>
      (if mode u = IPERF_SENDER then measured (result (streams u ! i)) (result (streams w ! i)) (result (?us ! i))
       else measured (result (streams w ! i)) (result (streams u ! i)) (result (?us ! i)))"
    if i: "i < length (streams u)" for i
  proof -
    have wi: "?ws ! i = store_result (\<not> mode u) (stream_result (mode u) i (streams u ! i)) (streams w ! i)"
      using stored_nth [OF client(5) server(4) i] server(2) by simp
    have ui: "?us ! i = store_result (mode u) (stream_result (\<not> mode u) i (?ws ! i)) (streams u ! i)"
      using stored_nth [of ?w1 u i "mode u"] client(5) server(2,3) lw i by simp
    have w'i: "streams w' ! i = ?ws ! i" using w' by simp
    from two_stores [of "mode u" i "streams u ! i" "streams w ! i"]
    show ?thesis unfolding w'i Let_def wi [symmetric] ui [symmetric] IPERF_SENDER_def eq_True .
  qed
  ultimately show ?thesis by auto
qed

section \<open>A small session\<close>

definition end_server :: world where
  "end_server = small_peer (map (\<lambda>b. [b]) small_results_msg)"

definition end_answer :: "u8 list" where
  "end_answer = c_sent (the (ctrlConn (snd (exchangeResults end_server))))"

definition end_client :: world where
  "end_client = small_sent\<lparr>ctrlConn := Some (quiet_conn\<lparr>c_rd := [Chunk end_answer]\<rparr>)\<rparr>"

lemma results_at_zero:
  "\<forall>r \<in> set rs. StartTime r = 0 \<and> EndTime r = 0 \<Longrightarrow> \<exists>j. results_json rs = Some j"
proof (induction rs)
  case (Cons r rs)
  have "time_text 0 \<noteq> None" by (simp add: time_text_def civil_year.simps year_len_def split: prod.split)
  then have "\<exists>j. result_json r = Some j" using Cons.prems by (auto simp: result_json_def time_json_def)
  with Cons show ?case by (auto simp: results_json_def)
qed (simp add: results_json_def)

lemma zero_times:
  "\<forall>sp \<in> set (streams w). start_time (result sp) = 0 \<and> end_time (result sp) = 0 \<Longrightarrow>
   \<forall>x \<in> set (all_results w). StartTime x = 0 \<and> EndTime x = 0"
  by (auto simp: all_results_def stream_result_def Let_def zero_exchange_def enumerate_eq_zip dest: set_zip_rightD)

lemma store_times:
  "start_time (result (store_result m r sp)) = start_time (result sp)"
  "end_time (result (store_result m r sp)) = end_time (result sp)"
  by (simp_all add: store_result_def)

lemma stored_times:
  "\<forall>sp \<in> set ss. start_time (result sp) = 0 \<and> end_time (result sp) = 0 \<Longrightarrow>
   \<forall>sp \<in> set (map2 (store_result m) rs ss). start_time (result sp) = 0 \<and> end_time (result sp) = 0"
  by (auto simp: store_times dest: set_zip_rightD)

lemma end_client_simps:
  "length (streams end_client) = 2" "streamNum end_client = 2" "mode end_client" "\<not> isServer end_client"
  "all_results end_client = all_results small_sent"
  "ctrlConn end_client = Some (quiet_conn\<lparr>c_rd := [Chunk end_answer]\<rparr>)"
proof -
  have "length (streams small_sent) = 2" "streamNum small_sent = 2" "mode small_sent" "\<not> isServer small_sent"
    by code_simp+
  then show "length (streams end_client) = 2" "streamNum end_client = 2" "mode end_client" "\<not> isServer end_client"
    by (simp_all add: end_client_def)
qed (simp_all add: end_client_def all_results_def)

lemma end_client_sends:
  "sendResults end_client = (Ret 0, end_client\<lparr>ctrlConn :=
     Some (quiet_conn\<lparr>c_rd := [Chunk end_answer], c_sent := small_results_msg\<rparr>)\<rparr>)"
  using sendResults_run [of end_client _ "quiet_conn\<lparr>c_rd := [Chunk end_answer]\<rparr>"] small_results_ok
  by (simp add: end_client_simps max_alloc_def quiet_conn_def small_results_msg_def small_results_def)

lemma end_server_exchanges: "fst (exchangeResults end_server) = Ret 0"
proof -
  let ?j = "the (results_json (all_results small_sent))"
  have fits: "length (json_Marshal ?j) < 2 ^ 32"
  proof -
    have "length (all_results small_sent) = 2" by code_simp
    with length_results_json [OF small_results_ok] show ?thesis by simp
  qed
  have sim: "length (streams small_sent) = unat (streamNum small_sent)" "length (streams small_sent) = 2"
    "streamNum small_sent = 2" by code_simp+
  have "concat (map (\<lambda>b. [b]) small_results_msg) =
      PutUint32 (word_of_nat (length (json_Marshal ?j))) @ json_Marshal ?j @ []"
    by (simp add: small_results_msg_def small_results_def)
  from getResults_exact [OF sim(1) _ _ small_peer_simps(4,5) small_results_ok fits this] obtain r where
    get: "getResults end_server = (Ret 0, end_server\<lparr>ctrlConn := Some (quiet_conn\<lparr>c_rd := map Chunk r\<rparr>),
      streams := map2 (store_result False) (all_results small_sent) (streams end_server)\<rparr>)"
    unfolding end_server_def by (auto simp: sim small_peer_simps max_alloc_def)
  let ?w = "end_server\<lparr>ctrlConn := Some (quiet_conn\<lparr>c_rd := map Chunk r\<rparr>),
      streams := map2 (store_result False) (all_results small_sent) (streams end_server)\<rparr>"
  have "set (streams end_server) = {small_stream RECEIVER_STREAM}"
    by (simp add: end_server_def small_peer_def)
  moreover have "start_time (result (small_stream RECEIVER_STREAM)) = 0" "end_time (result (small_stream RECEIVER_STREAM)) = 0"
    by (simp_all add: small_stream_def zero_results_def)
  ultimately have "\<forall>sp \<in> set (streams end_server). start_time (result sp) = 0 \<and> end_time (result sp) = 0" by simp
  note zero = this
  have eq: "streams ?w = map2 (store_result False) (all_results small_sent) (streams end_server)" by simp
  from stored_times [OF zero, of False "all_results small_sent"]
  have "\<forall>sp \<in> set (streams ?w). start_time (result sp) = 0 \<and> end_time (result sp) = 0"
    unfolding eq .
  then have "\<forall>x \<in> set (all_results ?w). StartTime x = 0 \<and> EndTime x = 0" by (rule zero_times)
  then obtain k where k: "results_json (all_results ?w) = Some k" using results_at_zero by blast
  have "length (all_results small_sent) = 2" by code_simp
  then have "fst (sendResults ?w) = Ret 0"
    by (subst sendResults_run [OF k, where cu = "quiet_conn\<lparr>c_rd := map Chunk r\<rparr>"])
      (simp_all add: end_server_def small_peer_simps max_alloc_def quiet_conn_def)
  then obtain v where "sendResults ?w = (Ret 0, v)" by (metis prod.collapse)
  then show ?thesis
    using get by (simp add: exchangeResults_def go_bind_first go_bind_Ret go_return_run end_server_def small_peer_simps)
qed

theorem session_end_agrees_witness:
  "\<exists>u'. exchangeResults end_client = (Ret 0, u') \<and>
     same_totals (result (streams u' ! 1)) (result (streams (snd (exchangeResults end_server)) ! 1)) \<and>
     measured (result (streams end_client ! 1)) (result (streams end_server ! 1)) (result (streams u' ! 1))"
proof -
  let ?cu = "quiet_conn\<lparr>c_rd := [Chunk end_answer]\<rparr>" and ?css = "map (\<lambda>b. [b]) small_results_msg"
  let ?c = "quiet_conn\<lparr>c_rd := map Chunk ?css\<rparr>"
  have client: "\<not> c_closed ?cu" "c_wr ?cu = []" "length (streams end_client) = unat (streamNum end_client)"
    "streamNum end_client \<le> 1000000"
    by (simp_all add: end_client_simps quiet_conn_def)
  have server: "isServer end_server" "mode end_server = (\<not> mode end_client)"
    "streamNum end_server = streamNum end_client" "length (streams end_server) = length (streams end_client)"
    "ctrlConn end_server = Some ?c"
    using small_peer_simps by (simp_all add: end_server_def end_client_simps del: map_map)
  have "c_wr ?c = []" by (simp add: quiet_conn_def)
  note script = this small_peer_simps(5)
  have wire: "concat ?css = drop (length (c_sent ?cu)) (c_sent (the (ctrlConn (end_client\<lparr>ctrlConn :=
      Some (quiet_conn\<lparr>c_rd := [Chunk end_answer], c_sent := small_results_msg\<rparr>)\<rparr>))))"
    by (simp add: quiet_conn_def)
  have run: "exchangeResults end_server = (Ret 0, snd (exchangeResults end_server))"
    by (rule prod_eqI) (simp_all add: end_server_exchanges)
  have reply: "arriving [end_answer] ?cu"
    "concat [end_answer] = drop (length (c_sent ?c)) (c_sent (the (ctrlConn (snd (exchangeResults end_server))))) @ []"
    by (simp_all add: arriving_def end_answer_def quiet_conn_def)
  have "1 < length (streams end_client)" by (simp add: end_client_simps)
  with session_end_agrees [OF end_client_simps(4,6) client end_client_sends server script wire run reply] end_client_simps(3)
  show ?thesis by auto
qed

end
